theory Spec2Isabelle
  imports Complex_Main "HOL-Library.Word"
begin

section \<open>JavaScript values\<close>

text \<open>
  A JavaScript string is a sequence of UTF-16 code units; \<open>charCodeAt\<close> reads one of them.
  Numbers are modelled as reals: the comparisons of this file are exact on doubles, and so is
  \<open>tileZoom + 1\<close> at the magnitudes of a zoom level.
\<close>

type_synonym js_string = "nat list"

datatype js_value =
    Undefined
  | Bool bool
  | Num real
  | Str js_string
  | Arr "js_string list"

text \<open>What \<open>!v\<close> and \<open>v || w\<close> test.\<close>

fun truthy :: "js_value \<Rightarrow> bool" where
  "truthy Undefined = False"
| "truthy (Bool b) = b"
| "truthy (Num r) = (r \<noteq> 0)"
| "truthy (Str s) = (s \<noteq> [])"
| "truthy (Arr _) = True"

section \<open>The style layer, as this file uses it\<close>

text \<open>
  \<open>StyleLayer\<close> lives in \<open>style/style_layer\<close>; the bucket only calls it. The record holds
  the members that \<open>symbol_bucket.js\<close> reads. The zoom passed in the global properties is
  optional, since \<open>getSizeData\<close> may pass \<open>levels[lower]\<close> of an empty level list.
\<close>

record 'f StyleLayer =
  layout :: "string \<Rightarrow> js_value"
  isLayoutValueFeatureConstant :: "string \<Rightarrow> bool"
  isLayoutValueZoomConstant :: "string \<Rightarrow> bool"
  getLayoutValue :: "string \<Rightarrow> real option \<Rightarrow> 'f option \<Rightarrow> js_value"
  getLayoutValueStopZoomLevels :: "string \<Rightarrow> real list"
  layer_filter :: "'f \<Rightarrow> bool"

section \<open>getSizeData\<close>

datatype SizeData =
    SizeSource
  | SizeConstant js_value
  | SizeComposite "real option \<times> real option"
  | SizeCamera js_value "real option \<times> real option" "js_value \<times> js_value"

fun functionType :: "SizeData \<Rightarrow> string" where
  "functionType SizeSource = ''source''"
| "functionType (SizeConstant _) = ''constant''"
| "functionType (SizeComposite _) = ''composite''"
| "functionType (SizeCamera _ _ _) = ''camera''"

fun coveringZoomRange :: "SizeData \<Rightarrow> (real option \<times> real option) option" where
  "coveringZoomRange (SizeComposite r) = Some r"
| "coveringZoomRange (SizeCamera _ r _) = Some r"
| "coveringZoomRange _ = None"

text \<open>\<open>levels[i]\<close>: \<open>undefined\<close> outside the array.\<close>

definition level_at :: "real list \<Rightarrow> int \<Rightarrow> real option" where
  "level_at levels i = (if 0 \<le> i \<and> i < int (length levels) then Some (levels ! nat i) else None)"

text \<open>\<open>while (lower < levels.length && levels[lower] <= tileZoom) lower++\<close>\<close>

function lowerLoop :: "real list \<Rightarrow> real \<Rightarrow> nat \<Rightarrow> nat" where
  "lowerLoop levels tileZoom lower =
     (if lower < length levels \<and> levels ! lower \<le> tileZoom
      then lowerLoop levels tileZoom (Suc lower) else lower)"
  by pat_completeness auto
termination
  by (relation "measure (\<lambda>(levels, tileZoom, lower). length levels - lower)") auto

text \<open>\<open>while (upper < levels.length && levels[upper] < tileZoom + 1) upper++\<close>\<close>

function upperLoop :: "real list \<Rightarrow> real \<Rightarrow> nat \<Rightarrow> nat" where
  "upperLoop levels tileZoom upper =
     (if upper < length levels \<and> levels ! upper < tileZoom + 1
      then upperLoop levels tileZoom (Suc upper) else upper)"
  by pat_completeness auto
termination
  by (relation "measure (\<lambda>(levels, tileZoom, upper). length levels - upper)") auto

declare lowerLoop.simps [simp del] upperLoop.simps [simp del]

text \<open>The two indices after the clamps \<open>Math.max(0, lower - 1)\<close> and
  \<open>Math.min(levels.length - 1, upper)\<close>.\<close>

definition coveringIndices :: "real list \<Rightarrow> real \<Rightarrow> int \<times> int" where
  "coveringIndices levels tileZoom =
     (let lower = max 0 (int (lowerLoop levels tileZoom 0) - 1);
          upper = min (int (length levels) - 1) (int (upperLoop levels tileZoom (nat lower)))
      in (lower, upper))"

definition getSizeData :: "real \<Rightarrow> 'f StyleLayer \<Rightarrow> string \<Rightarrow> SizeData" where
  "getSizeData tileZoom layer sizeProperty =
     (let isFeatureConstant = isLayoutValueFeatureConstant layer sizeProperty;
          isZoomConstant = isLayoutValueZoomConstant layer sizeProperty
      in if isZoomConstant \<and> \<not> isFeatureConstant then SizeSource
         else if isZoomConstant \<and> isFeatureConstant
           then SizeConstant (getLayoutValue layer sizeProperty (Some (tileZoom + 1)) None)
         else
           let levels = getLayoutValueStopZoomLevels layer sizeProperty;
               (lower, upper) = coveringIndices levels tileZoom;
               range = (level_at levels lower, level_at levels upper)
           in if \<not> isFeatureConstant then SizeComposite range
              else SizeCamera (getLayoutValue layer sizeProperty (Some (tileZoom + 1)) None)
                     range
                     (getLayoutValue layer sizeProperty (level_at levels lower) None,
                      getLayoutValue layer sizeProperty (level_at levels upper) None))"

subsection \<open>A layer with a zoom-dependent, feature-constant size\<close>

definition exampleSizeLayer :: "unit StyleLayer" where
  "exampleSizeLayer = \<lparr> layout = (\<lambda>_. Undefined), isLayoutValueFeatureConstant = (\<lambda>_. True),
     isLayoutValueZoomConstant = (\<lambda>_. False), getLayoutValue = (\<lambda>_ _ _. Num 12),
     getLayoutValueStopZoomLevels = (\<lambda>_. [5, 10]), layer_filter = (\<lambda>_. True) \<rparr>"

section \<open>Errors\<close>

text \<open>
  The file has no \<open>throw\<close> of its own. What can go wrong at run time is a property read or a
  method call on \<open>undefined\<close> (a \<open>TypeError\<close>), and a read of a struct array outside its
  length, which \<open>StructArray.get\<close> (in \<open>util/struct_array\<close>) does not allow.
\<close>

datatype error = TypeError | RangeError

section \<open>Points, anchors and quads\<close>

record Point =
  point_x :: real
  point_y :: real

text \<open>\<open>Anchor\<close> extends \<open>Point\<close>; \<open>segment\<close> is \<open>undefined\<close> for a label that is not on a line.\<close>

record Anchor = Point +
  angle :: real
  segment :: "nat option"

text \<open>\<open>p.dist(q)\<close> of \<open>@mapbox/point-geometry\<close>.\<close>

definition point_dist :: "'a Point_scheme \<Rightarrow> 'b Point_scheme \<Rightarrow> real" where
  "point_dist p q = sqrt ((point_x q - point_x p) ^ 2 + (point_y q - point_y p) ^ 2)"

record TexRect =
  tex_x :: real
  tex_y :: real
  tex_w :: real
  tex_h :: real

text \<open>Of a quad (\<open>symbol/quads\<close>), the members that \<open>addSymbols\<close> reads.\<close>

record SymbolQuad =
  quad_tl :: Point
  quad_tr :: Point
  quad_bl :: Point
  quad_br :: Point
  quad_tex :: TexRect
  glyphOffset :: "real \<times> real"

text \<open>\<open>Math.round\<close> rounds halves up.\<close>

definition js_round :: "real \<Rightarrow> int" where
  "js_round v = \<lfloor>v + 1 / 2\<rfloor>"

text \<open>The remainder \<open>a % b\<close> takes the sign of the dividend.\<close>

definition js_rem :: "real \<Rightarrow> real \<Rightarrow> real" where
  "js_rem a b = a - b * of_int (if 0 \<le> a / b then \<lfloor>a / b\<rfloor> else \<lceil>a / b\<rceil>)"

section \<open>Struct arrays\<close>

text \<open>
  A struct array keeps every member in a typed array of the declared type, and \<open>emplaceBack\<close>
  stores its arguments there. Storing a number in an integer array drops the fraction and
  keeps the low bits, and \<open>undefined\<close> is stored as 0; a 16-bit member is a \<open>16 word\<close>, read by
  \<open>sint\<close> when it is declared \<open>Int16\<close> and by \<open>unat\<close> when it is declared \<open>Uint16\<close>. Storing in
  a \<open>Float32\<close> member rounds to single precision; the rounding is the parameter \<open>fround\<close>
  below. A record of an array is what can be read back from it.
\<close>

definition js_trunc :: "real \<Rightarrow> int" where
  "js_trunc v = (if 0 \<le> v then \<lfloor>v\<rfloor> else \<lceil>v\<rceil>)"

definition toInt16 :: "real \<Rightarrow> 16 word" where
  "toInt16 v = word_of_int (js_trunc v)"

definition toUint16 :: "real \<Rightarrow> 16 word" where
  "toUint16 v = word_of_int (js_trunc v)"

definition toUint32 :: "real \<Rightarrow> 32 word" where
  "toUint32 v = word_of_int (js_trunc v)"

definition toUint8 :: "real \<Rightarrow> 8 word" where
  "toUint8 v = word_of_int (js_trunc v)"

text \<open>The two numeric functions that are parameters: \<open>packUint8ToFloat\<close> of
  \<open>shaders/encode_attribute\<close>, and the rounding of a number to single precision.\<close>

record Numerics =
  packUint8ToFloat :: "real \<Rightarrow> real \<Rightarrow> real"
  fround :: "real \<Rightarrow> real"

text \<open>\<open>PlacedSymbolArray\<close>: \<open>Int16\<close> anchor, \<open>Uint16\<close> glyph range, \<open>Uint32\<close> line range, \<open>Uint16\<close>
  segment and sizes, \<open>Float32\<close> line offset and placement zoom, \<open>Uint8\<close> writing mode and
  hidden flag.\<close>

record PlacedSymbol =
  anchorX :: "16 word"
  anchorY :: "16 word"
  glyphStartIndex :: "16 word"
  numGlyphs :: "16 word"
  lineStartIndex :: "32 word"
  lineLength :: "32 word"
  placed_segment :: "16 word"
  lowerSize :: "16 word"
  upperSize :: "16 word"
  lineOffsetX :: real
  lineOffsetY :: real
  placementZoom :: real
  writingMode :: "8 word"
  hidden :: "8 word"

text \<open>\<open>LineVertexArray\<close>: three \<open>Int16\<close> members.\<close>

record LineVertex =
  line_x :: "16 word"
  line_y :: "16 word"
  tileUnitDistanceFromAnchor :: "16 word"

text \<open>
  The layout vertex of the text and icon programs (\<open>a_pos_offset\<close>, four \<open>Int16\<close>, and
  \<open>a_data\<close>, four \<open>Uint16\<close>) and the one of the two collision debug programs (\<open>a_pos\<close>,
  \<open>a_anchor_pos\<close>, \<open>a_extrude\<close>, two \<open>Int16\<close> each).
\<close>

datatype LayoutVertex =
    SymbolVertex "16 word" "16 word" "16 word" "16 word" "16 word" "16 word" "16 word" "16 word"
  | CollisionVertex "16 word" "16 word" "16 word" "16 word" "16 word" "16 word"

text \<open>An index record is what \<open>indexArray.emplaceBack\<close> was given: three indices or two. The
  two index array types are declared in \<open>data/index_array_type\<close>; the indices are kept as
  numbers.\<close>

datatype Primitive = Triangle nat nat nat | Line nat nat

text \<open>\<open>a_projected_pos\<close>: three \<open>Float32\<close>.\<close>

type_synonym DynamicVertex = "real \<times> real \<times> real"

record Segment =
  vertexOffset :: nat
  primitiveOffset :: nat
  vertexLength :: nat
  primitiveLength :: nat

text \<open>A record of the collision box array, which is declared in \<open>symbol/collision_box\<close>: the
  members as this file reads them.\<close>

record CollisionBox =
  anchorPoint :: Point
  anchorPointX :: real
  anchorPointY :: real
  box_x1 :: real
  box_y1 :: real
  box_x2 :: real
  box_y2 :: real
  radius :: real
  distanceToAnchor :: real

text \<open>A feature as the bucket reads it: the members of a vector tile feature that
  \<open>populate\<close> copies, and the raw geometry that \<open>loadGeometry\<close> converts.\<close>

record Feature =
  feature_type :: nat
  feature_id :: js_value
  feature_properties :: "(js_string \<times> js_value) list"
  feature_geometry :: "Point list list"

section \<open>SymbolBuffers\<close>

datatype IndexArrayType = TriangleIndexArray | LineIndexArray

text \<open>Of a program interface, the buffer set reads which attribute families are declared.\<close>

record ProgramInterface =
  dynamicLayoutAttributes :: bool
  opacityAttributes :: bool
  collisionAttributes :: bool
  indexArrayType :: IndexArrayType

text \<open>
  \<open>'r\<close> is the state of an object that owns GPU resources: a \<open>VertexBuffer\<close>, an \<open>IndexBuffer\<close>,
  the buffers of the \<open>ProgramConfigurationSet\<close>, the vertex array objects of the
  \<open>SegmentVector\<close>. Their classes are in \<open>gl/\<close> and \<open>data/\<close>, outside this file.
  \<open>populatePaintArrays\<close> is recorded by its arguments. \<open>a_fade_opacity\<close> is two \<open>Uint16\<close>,
  \<open>a_placed\<close> two \<open>Uint8\<close>.
\<close>

record 'r SymbolBuffers =
  programInterface :: ProgramInterface
  layoutVertexArray :: "LayoutVertex list"
  layoutVertexBuffer :: "'r option"
  indexArray :: "Primitive list"
  indexBuffer :: "'r option"
  programConfigurations :: "'r"
  paintArrayCalls :: "(nat \<times> Feature) list"
  segments :: "Segment list"
  segmentsVaos :: "'r"
  dynamicLayoutVertexArray :: "DynamicVertex list option"
  dynamicLayoutVertexBuffer :: "'r option"
  opacityVertexArray :: "(16 word \<times> 16 word) list option"
  opacityVertexBuffer :: "'r option"
  collisionVertexArray :: "(8 word \<times> 8 word) list option"
  collisionVertexBuffer :: "'r option"

definition textInterface :: ProgramInterface where
  "textInterface = \<lparr> dynamicLayoutAttributes = True, opacityAttributes = True,
     collisionAttributes = False, indexArrayType = TriangleIndexArray \<rparr>"

definition iconInterface :: ProgramInterface where
  "iconInterface = \<lparr> dynamicLayoutAttributes = True, opacityAttributes = True,
     collisionAttributes = False, indexArrayType = TriangleIndexArray \<rparr>"

definition collisionBoxInterface :: ProgramInterface where
  "collisionBoxInterface = \<lparr> dynamicLayoutAttributes = False, opacityAttributes = False,
     collisionAttributes = True, indexArrayType = LineIndexArray \<rparr>"

definition collisionCircleInterface :: ProgramInterface where
  "collisionCircleInterface = \<lparr> dynamicLayoutAttributes = False, opacityAttributes = False,
     collisionAttributes = True, indexArrayType = TriangleIndexArray \<rparr>"

text \<open>The constructor without serialized arrays, as \<open>createArrays\<close> calls it. \<open>fresh\<close> is the
  state of a newly made object that owns no GPU resource yet.\<close>

definition newSymbolBuffers :: "'r \<Rightarrow> ProgramInterface \<Rightarrow> 'r SymbolBuffers" where
  "newSymbolBuffers fresh iface =
     \<lparr> programInterface = iface,
       layoutVertexArray = [], layoutVertexBuffer = None,
       indexArray = [], indexBuffer = None,
       programConfigurations = fresh, paintArrayCalls = [],
       segments = [], segmentsVaos = fresh,
       dynamicLayoutVertexArray = (if dynamicLayoutAttributes iface then Some [] else None),
       dynamicLayoutVertexBuffer = None,
       opacityVertexArray = (if opacityAttributes iface then Some [] else None),
       opacityVertexBuffer = None,
       collisionVertexArray = (if collisionAttributes iface then Some [] else None),
       collisionVertexBuffer = None \<rparr>"



section \<open>Sequencing of calls that may throw\<close>

definition then_do :: "error + 'a \<Rightarrow> ('a \<Rightarrow> error + 'b) \<Rightarrow> error + 'b" where
  "then_do m f = (case m of Inl e \<Rightarrow> Inl e | Inr v \<Rightarrow> f v)"

section \<open>Segments\<close>

definition MAX_VERTEX_ARRAY_LENGTH :: nat where
  "MAX_VERTEX_ARRAY_LENGTH = 65535"

text \<open>
  Modelled from the spec: \<open>SegmentVector.prepareSegment\<close> of \<open>data/segment\<close>, which is not in
  this file. The spec: a segment is a (vertex-offset, index-offset, vertex-count,
  primitive-count) window, opened when the running vertex count would otherwise exceed the
  16-bit index budget, and reused otherwise. The segment the call returns is the last one of
  the vector.
\<close>

definition prepareSegment ::
  "nat \<Rightarrow> LayoutVertex list \<Rightarrow> Primitive list \<Rightarrow> Segment list \<Rightarrow> Segment list" where
  "prepareSegment numVertices lva ia segs =
     (if segs = [] \<or> MAX_VERTEX_ARRAY_LENGTH < vertexLength (last segs) + numVertices
      then segs @ [\<lparr> vertexOffset = length lva, primitiveOffset = length ia,
                     vertexLength = 0, primitiveLength = 0 \<rparr>]
      else segs)"

text \<open>The writes \<open>segment.vertexLength += v\<close> and \<open>segment.primitiveLength += p\<close> on the segment
  that \<open>prepareSegment\<close> returned.\<close>

definition growSegment :: "nat \<Rightarrow> nat \<Rightarrow> Segment list \<Rightarrow> Segment list" where
  "growSegment v p segs =
     butlast segs @ [(last segs) \<lparr> vertexLength := vertexLength (last segs) + v,
                                  primitiveLength := primitiveLength (last segs) + p \<rparr>]"

section \<open>Segments and the vertices they index\<close>

text \<open>
  A primitive of the index array holds vertex numbers relative to \<open>vertexOffset\<close> of its
  segment. The last segment of a buffer set is current when its two windows end where the
  layout vertex array and the index array end; a buffer set without segments is current.
\<close>

definition segments_current :: "'r SymbolBuffers \<Rightarrow> bool" where
  "segments_current arrays \<longleftrightarrow>
     segments arrays = [] \<or>
     (vertexOffset (last (segments arrays)) + vertexLength (last (segments arrays))
        = length (layoutVertexArray arrays)
      \<and> primitiveOffset (last (segments arrays)) + primitiveLength (last (segments arrays))
        = length (indexArray arrays))"

text \<open>A later state \<open>s'\<close> of the segment \<open>s\<close>: the same offsets, and no shorter.\<close>

definition segment_grown :: "Segment \<Rightarrow> Segment \<Rightarrow> bool" where
  "segment_grown s s' \<longleftrightarrow>
     vertexOffset s' = vertexOffset s \<and> primitiveOffset s' = primitiveOffset s
     \<and> vertexLength s \<le> vertexLength s' \<and> primitiveLength s \<le> primitiveLength s'"

text \<open>The segment \<open>s\<close> covers four vertices that start at position \<open>v\<close> of the layout vertex
  array, the first of them being vertex number \<open>i\<close> of the segment, and \<open>n\<close> primitives that
  start at position \<open>p\<close> of the index array.\<close>

definition segment_covers :: "Segment \<Rightarrow> nat \<Rightarrow> nat \<Rightarrow> nat \<Rightarrow> nat \<Rightarrow> bool" where
  "segment_covers s i v p n \<longleftrightarrow>
     vertexOffset s + i = v \<and> i + 4 \<le> vertexLength s
     \<and> primitiveOffset s \<le> p \<and> p + n \<le> primitiveOffset s + primitiveLength s"

section \<open>Packing quads\<close>

definition addVertex ::
  "LayoutVertex list \<Rightarrow> real \<Rightarrow> real \<Rightarrow> real \<Rightarrow> real \<Rightarrow> real \<Rightarrow> real \<Rightarrow> (real \<times> real) option
     \<Rightarrow> LayoutVertex list" where
  "addVertex array ax ay ox oy tx ty sizeVertex =
     array @ [SymbolVertex (toInt16 ax) (toInt16 ay)
                (toInt16 (real_of_int (js_round (ox * 64))))
                (toInt16 (real_of_int (js_round (oy * 64))))
                (toUint16 tx) (toUint16 ty)
                (case sizeVertex of None \<Rightarrow> 0 | Some sv \<Rightarrow> toUint16 (fst sv))
                (case sizeVertex of None \<Rightarrow> 0 | Some sv \<Rightarrow> toUint16 (snd sv))]"

text \<open>The array is \<open>undefined\<close> in a buffer set whose interface declares no dynamic layout
  attributes.\<close>

definition addDynamicAttributes ::
  "Numerics \<Rightarrow> DynamicVertex list option \<Rightarrow> 'a Point_scheme \<Rightarrow> real \<Rightarrow> real
     \<Rightarrow> error + DynamicVertex list" where
  "addDynamicAttributes num dynamicArray p ang pz =
     (let twoPi = pi * 2;
          angleAndZoom = packUint8ToFloat num (js_rem (ang + twoPi) twoPi / twoPi * 255) (pz * 10)
      in case dynamicArray of
           None \<Rightarrow> Inl TypeError
         | Some a \<Rightarrow> Inr (a @ replicate 4 (fround num (point_x p), fround num (point_y p),
                                             fround num angleAndZoom)))"

text \<open>The body of the loop of \<open>addSymbols\<close>, on the buffer set and the glyph offset array
  (one \<open>Float32\<close> member). \<open>opacityVertexArray.emplaceBack(0)\<close> leaves the second component
  \<open>undefined\<close>.\<close>

definition addSymbol ::
  "Numerics \<Rightarrow> real \<Rightarrow> (real \<times> real) option \<Rightarrow> Anchor
     \<Rightarrow> 'r SymbolBuffers \<times> real list \<Rightarrow> SymbolQuad \<Rightarrow> error + 'r SymbolBuffers \<times> real list" where
  "addSymbol num pz sizeVertex labelAnchor st symbol =
     (let arrays = fst st;
          segs = prepareSegment 4 (layoutVertexArray arrays) (indexArray arrays) (segments arrays);
          index = vertexLength (last segs);
          oy = snd (glyphOffset symbol);
          tex = quad_tex symbol;
          ax = point_x labelAnchor;
          ay = point_y labelAnchor;
          v1 = addVertex (layoutVertexArray arrays) ax ay
                 (point_x (quad_tl symbol)) (oy + point_y (quad_tl symbol))
                 (tex_x tex) (tex_y tex) sizeVertex;
          v2 = addVertex v1 ax ay
                 (point_x (quad_tr symbol)) (oy + point_y (quad_tr symbol))
                 (tex_x tex + tex_w tex) (tex_y tex) sizeVertex;
          v3 = addVertex v2 ax ay
                 (point_x (quad_bl symbol)) (oy + point_y (quad_bl symbol))
                 (tex_x tex) (tex_y tex + tex_h tex) sizeVertex;
          v4 = addVertex v3 ax ay
                 (point_x (quad_br symbol)) (oy + point_y (quad_br symbol))
                 (tex_x tex + tex_w tex) (tex_y tex + tex_h tex) sizeVertex
      in then_do (addDynamicAttributes num (dynamicLayoutVertexArray arrays) labelAnchor 0 pz)
           (\<lambda>dyn. case opacityVertexArray arrays of
                None \<Rightarrow> Inl TypeError
              | Some opacity \<Rightarrow>
                  Inr (arrays \<lparr> layoutVertexArray := v4,
                                indexArray := indexArray arrays @
                                  [Triangle index (index + 1) (index + 2),
                                   Triangle (index + 1) (index + 2) (index + 3)],
                                segments := growSegment 4 2 segs,
                                dynamicLayoutVertexArray := Some dyn,
                                opacityVertexArray := Some (opacity @ replicate 4 (0, 0)) \<rparr>,
                       snd st @ [fround num (fst (glyphOffset symbol))])))"

text \<open>\<open>for (const symbol of quads)\<close>\<close>

fun addSymbols_loop ::
  "Numerics \<Rightarrow> real \<Rightarrow> (real \<times> real) option \<Rightarrow> Anchor
     \<Rightarrow> 'r SymbolBuffers \<times> real list \<Rightarrow> SymbolQuad list \<Rightarrow> error + 'r SymbolBuffers \<times> real list" where
  "addSymbols_loop num pz sizeVertex labelAnchor st [] = Inr st"
| "addSymbols_loop num pz sizeVertex labelAnchor st (symbol # quads) =
     then_do (addSymbol num pz sizeVertex labelAnchor st symbol)
       (\<lambda>st'. addSymbols_loop num pz sizeVertex labelAnchor st' quads)"

text \<open>
  \<open>addSymbols\<close> reads \<open>this.zoom\<close> and appends to \<open>this.glyphOffsetArray\<close>; \<open>arrays\<close> and
  \<open>placedSymbolArray\<close> are objects that the caller passes. The function returns the three
  objects it has written to: the glyph offset array, the buffer set, the placed symbol array.
  \<open>alongLine\<close> is not read. The line range and the writing mode are numbers; \<open>hidden\<close> is
  given as \<open>false\<close>, which a \<open>Uint8\<close> member stores as 0.
\<close>

definition addSymbols ::
  "Numerics \<Rightarrow> real \<Rightarrow> real list \<Rightarrow> 'r SymbolBuffers \<Rightarrow> SymbolQuad list
     \<Rightarrow> (real \<times> real) option \<Rightarrow> real \<times> real \<Rightarrow> bool \<Rightarrow> Feature \<Rightarrow> nat \<Rightarrow> Anchor \<Rightarrow> nat \<Rightarrow> nat
     \<Rightarrow> PlacedSymbol list \<Rightarrow> error + real list \<times> 'r SymbolBuffers \<times> PlacedSymbol list" where
  "addSymbols num this_zoom this_glyphOffsetArray arrays quads sizeVertex lineOffset alongLine
       feature wMode labelAnchor lStart lLength placedSymbolArray =
     (let pz = this_zoom;
          glyphOffsetArrayStart = length this_glyphOffsetArray
      in then_do (addSymbols_loop num pz sizeVertex labelAnchor (arrays, this_glyphOffsetArray) quads)
           (\<lambda>(arrays', glyphs').
              Inr (glyphs',
                   arrays' \<lparr> paintArrayCalls := paintArrayCalls arrays' @
                               [(length (layoutVertexArray arrays'), feature)] \<rparr>,
                   placedSymbolArray @
                     [\<lparr> anchorX = toInt16 (point_x labelAnchor),
                        anchorY = toInt16 (point_y labelAnchor),
                        glyphStartIndex = toUint16 (real glyphOffsetArrayStart),
                        numGlyphs = toUint16 (real (length glyphs' - glyphOffsetArrayStart)),
                        lineStartIndex = toUint32 (real lStart),
                        lineLength = toUint32 (real lLength),
                        placed_segment = (case segment labelAnchor of
                                            None \<Rightarrow> 0 | Some s \<Rightarrow> toUint16 (real s)),
                        lowerSize = (case sizeVertex of None \<Rightarrow> 0 | Some sv \<Rightarrow> toUint16 (fst sv)),
                        upperSize = (case sizeVertex of None \<Rightarrow> 0 | Some sv \<Rightarrow> toUint16 (snd sv)),
                        lineOffsetX = fround num (fst lineOffset),
                        lineOffsetY = fround num (snd lineOffset),
                        placementZoom = fround num pz,
                        writingMode = toUint8 (real wMode),
                        hidden = 0 \<rparr>])))"

section \<open>The line vertex array\<close>

text \<open>The object \<open>{x, y, tileUnitDistanceFromAnchor}\<close> that the loops of
  \<open>addToLineVertexArray\<close> keep for a vertex, before it is stored.\<close>

record VertexObject =
  vertex_x :: real
  vertex_y :: real
  vertex_distance :: real

text \<open>The first loop: from \<open>anchor.segment + 1\<close> to the end of the line, summing the lengths
  forward. \<open>vertices\<close> is the object that the loops fill by index.\<close>

function forwardLoop ::
  "Point list \<Rightarrow> nat \<Rightarrow> real \<Rightarrow> (nat \<rightharpoonup> VertexObject) \<Rightarrow> (nat \<rightharpoonup> VertexObject)" where
  "forwardLoop pts i sumForwardLength vertices =
     (if i < length pts
      then forwardLoop pts (Suc i)
             (if i < length pts - 1
              then sumForwardLength + point_dist (pts ! (i + 1)) (pts ! i)
              else sumForwardLength)
             (vertices (i \<mapsto> \<lparr> vertex_x = point_x (pts ! i), vertex_y = point_y (pts ! i),
                                vertex_distance = sumForwardLength \<rparr>))
      else vertices)"
  by pat_completeness auto
termination
  by (relation "measure (\<lambda>(pts, i, s, vs). length pts - i)") auto

declare forwardLoop.simps [simp del]

text \<open>The second loop: from \<open>anchor.segment\<close> down to 0, summing the lengths backward.\<close>

fun backwardLoop ::
  "Point list \<Rightarrow> nat \<Rightarrow> real \<Rightarrow> (nat \<rightharpoonup> VertexObject) \<Rightarrow> (nat \<rightharpoonup> VertexObject)" where
  "backwardLoop pts 0 sumBackwardLength vertices =
     vertices (0 \<mapsto> \<lparr> vertex_x = point_x (pts ! 0), vertex_y = point_y (pts ! 0),
                       vertex_distance = sumBackwardLength \<rparr>)"
| "backwardLoop pts (Suc i) sumBackwardLength vertices =
     backwardLoop pts i
       (sumBackwardLength + point_dist (pts ! i) (pts ! Suc i))
       (vertices (Suc i \<mapsto> \<lparr> vertex_x = point_x (pts ! Suc i), vertex_y = point_y (pts ! Suc i),
                              vertex_distance = sumBackwardLength \<rparr>))"

text \<open>The third loop stores \<open>vertices[i]\<close> for every index of the line, each member as
  \<open>Int16\<close>; reading a member of a missing \<open>vertices[i]\<close> is a \<open>TypeError\<close>.\<close>

definition storeVertex :: "VertexObject \<Rightarrow> LineVertex" where
  "storeVertex vertex =
     \<lparr> line_x = toInt16 (vertex_x vertex), line_y = toInt16 (vertex_y vertex),
       tileUnitDistanceFromAnchor = toInt16 (vertex_distance vertex) \<rparr>"

function emplaceLoop ::
  "nat \<Rightarrow> nat \<Rightarrow> (nat \<rightharpoonup> VertexObject) \<Rightarrow> LineVertex list \<Rightarrow> error + LineVertex list" where
  "emplaceLoop n i vertices lineVertexArray =
     (if i < n
      then case vertices i of
             None \<Rightarrow> Inl TypeError
           | Some vertex \<Rightarrow> emplaceLoop n (Suc i) vertices (lineVertexArray @ [storeVertex vertex])
      else Inr lineVertexArray)"
  by pat_completeness auto
termination
  by (relation "measure (\<lambda>(n, i, vs, a). n - i)") auto

declare emplaceLoop.simps [simp del]

text \<open>
  \<open>addToLineVertexArray(anchor, line)\<close> on \<open>this.lineVertexArray\<close>; the result is the array and
  the pair \<open>(lineStartIndex, lineLength)\<close>. With a segment index, \<open>anchor.dist(line[segment + 1])\<close>
  comes first: outside the line the point is \<open>undefined\<close> and \<open>dist\<close> reads its \<open>x\<close>, a
  \<open>TypeError\<close>. The loops run behind that test, so every \<open>line[i]\<close> they read is a point of
  the line. For a number, \<open>anchor.segment || 0\<close> is the number.
\<close>

definition addToLineVertexArray ::
  "LineVertex list \<Rightarrow> Anchor \<Rightarrow> Point list \<Rightarrow> error + LineVertex list \<times> nat \<times> nat" where
  "addToLineVertexArray this_lineVertexArray anchor pts =
     (let lStart = length this_lineVertexArray
      in case segment anchor of
           None \<Rightarrow> Inr (this_lineVertexArray, lStart, length this_lineVertexArray - lStart)
         | Some seg \<Rightarrow>
             if length pts \<le> seg + 1 then Inl TypeError
             else
               let sumForwardLength = point_dist anchor (pts ! (seg + 1));
                   sumBackwardLength = point_dist anchor (pts ! seg);
                   vertices = forwardLoop pts (seg + 1) sumForwardLength Map.empty;
                   vertices = backwardLoop pts seg sumBackwardLength vertices
               in then_do (emplaceLoop (length pts) 0 vertices this_lineVertexArray)
                    (\<lambda>lva. Inr (lva, lStart, length lva - lStart)))"

text \<open>
  The distance that the loops keep for vertex \<open>j\<close> of the line before it is stored, for an
  anchor on segment \<open>seg\<close>: from the anchor along the line to the vertex, backward for the
  vertices up to \<open>seg\<close> and forward for the ones behind.
\<close>

definition distanceAlongLine :: "Anchor \<Rightarrow> Point list \<Rightarrow> nat \<Rightarrow> nat \<Rightarrow> real" where
  "distanceAlongLine anchor pts seg j =
     (if j \<le> seg
      then point_dist anchor (pts ! seg) + (\<Sum>k = j..<seg. point_dist (pts ! k) (pts ! Suc k))
      else point_dist anchor (pts ! (seg + 1))
           + (\<Sum>k = seg + 1..<j. point_dist (pts ! (k + 1)) (pts ! k)))"

section \<open>Collision debug geometry\<close>

text \<open>Of a symbol instance, the members that this file reads or writes: the box ranges,
  the anchor and the line, and the two collision features that
  \<open>generateCollisionDebugBuffers\<close> stores.\<close>

record SymbolInstance =
  textBoxStartIndex :: nat
  textBoxEndIndex :: nat
  iconBoxStartIndex :: nat
  iconBoxEndIndex :: nat
  instance_anchor :: Anchor
  instance_line :: "Point list"
  featureIndex :: nat
  writingModes :: nat
  textCollisionFeature :: "(nat \<times> nat) option"
  iconCollisionFeature :: "(nat \<times> nat) option"

text \<open>\<open>_addCollisionDebugVertex\<close>, on the two arrays it is given.\<close>

definition addCollisionDebugVertex ::
  "LayoutVertex list \<times> (8 word \<times> 8 word) list \<Rightarrow> Point \<Rightarrow> Anchor \<Rightarrow> Point
     \<Rightarrow> LayoutVertex list \<times> (8 word \<times> 8 word) list" where
  "addCollisionDebugVertex arrs pt anchor extrude =
     (fst arrs @ [CollisionVertex (toInt16 (point_x pt)) (toInt16 (point_y pt))
                    (toInt16 (point_x anchor)) (toInt16 (point_y anchor))
                    (toInt16 (real_of_int (js_round (point_x extrude))))
                    (toInt16 (real_of_int (js_round (point_y extrude))))],
      snd arrs @ [(0, 0)])"

definition addCollisionDebugVertices ::
  "real \<Rightarrow> real \<Rightarrow> real \<Rightarrow> real \<Rightarrow> 'r SymbolBuffers \<Rightarrow> Point \<Rightarrow> SymbolInstance \<Rightarrow> bool
     \<Rightarrow> error + 'r SymbolBuffers" where
  "addCollisionDebugVertices x1 y1 x2 y2 arrays boxAnchorPoint symbolInstance isCircle =
     (let segs = prepareSegment 4 (layoutVertexArray arrays) (indexArray arrays) (segments arrays);
          index = vertexLength (last segs);
          anchor = instance_anchor symbolInstance
      in case collisionVertexArray arrays of
           None \<Rightarrow> Inl TypeError
         | Some cva \<Rightarrow>
             let a1 = addCollisionDebugVertex (layoutVertexArray arrays, cva) boxAnchorPoint anchor
                        \<lparr> point_x = x1, point_y = y1 \<rparr>;
                 a2 = addCollisionDebugVertex a1 boxAnchorPoint anchor \<lparr> point_x = x2, point_y = y1 \<rparr>;
                 a3 = addCollisionDebugVertex a2 boxAnchorPoint anchor \<lparr> point_x = x2, point_y = y2 \<rparr>;
                 a4 = addCollisionDebugVertex a3 boxAnchorPoint anchor \<lparr> point_x = x1, point_y = y2 \<rparr>
             in Inr (arrays \<lparr> layoutVertexArray := fst a4,
                              collisionVertexArray := Some (snd a4),
                              indexArray := indexArray arrays @
                                (if isCircle
                                 then [Triangle index (index + 1) (index + 2),
                                       Triangle index (index + 2) (index + 3)]
                                 else [Line index (index + 1), Line (index + 1) (index + 2),
                                       Line (index + 2) (index + 3), Line (index + 3) index]),
                              segments := growSegment 4 (if isCircle then 2 else 4) segs \<rparr>))"

text \<open>\<open>collisionBoxArray.get(k)\<close>\<close>

definition box_get :: "CollisionBox list \<Rightarrow> nat \<Rightarrow> error + CollisionBox" where
  "box_get collisionBoxArray k =
     (if k < length collisionBoxArray then Inr (collisionBoxArray ! k) else Inl RangeError)"

text \<open>
  One turn of the loop over the boxes of a collision feature in
  \<open>generateCollisionDebugBuffers\<close>, on the pair \<open>(this.collisionBox, this.collisionCircle)\<close>;
  either buffer set is \<open>undefined\<close> before \<open>createArrays\<close>.
\<close>

definition debugBox ::
  "CollisionBox list \<Rightarrow> SymbolInstance \<Rightarrow> 'r SymbolBuffers option \<times> 'r SymbolBuffers option \<Rightarrow> nat
     \<Rightarrow> error + 'r SymbolBuffers option \<times> 'r SymbolBuffers option" where
  "debugBox collisionBoxArray symbolInstance bufs b =
     then_do (box_get collisionBoxArray b)
       (\<lambda>box.
          let isCircle = (0 < radius box)
          in case (if isCircle then snd bufs else fst bufs) of
               None \<Rightarrow> Inl TypeError
             | Some arrays \<Rightarrow>
                 then_do (addCollisionDebugVertices (box_x1 box) (box_y1 box) (box_x2 box) (box_y2 box)
                            arrays (anchorPoint box) symbolInstance isCircle)
                   (\<lambda>arrays'. Inr (if isCircle then (fst bufs, Some arrays')
                                   else (Some arrays', snd bufs))))"

text \<open>\<open>for (let b = feature.boxStartIndex; b < feature.boxEndIndex; b++)\<close>\<close>

function debugBoxes ::
  "CollisionBox list \<Rightarrow> SymbolInstance \<Rightarrow> 'r SymbolBuffers option \<times> 'r SymbolBuffers option
     \<Rightarrow> nat \<Rightarrow> nat \<Rightarrow> error + 'r SymbolBuffers option \<times> 'r SymbolBuffers option" where
  "debugBoxes collisionBoxArray symbolInstance bufs b boxEndIndex =
     (if b < boxEndIndex
      then then_do (debugBox collisionBoxArray symbolInstance bufs b)
             (\<lambda>bufs'. debugBoxes collisionBoxArray symbolInstance bufs' (Suc b) boxEndIndex)
      else Inr bufs)"
  by pat_completeness auto
termination
  by (relation "measure (\<lambda>(a, s, bufs, b, e). e - b)") auto

declare debugBoxes.simps [simp del]

text \<open>The body of the loop over the symbol instances: the two collision features are
  stored on the instance, then the text boxes and the icon boxes are emitted. Both features
  have just been set, so \<open>if (!feature) continue\<close> never skips.\<close>

definition debugInstance ::
  "CollisionBox list \<Rightarrow> 'r SymbolBuffers option \<times> 'r SymbolBuffers option \<Rightarrow> SymbolInstance
     \<Rightarrow> error + ('r SymbolBuffers option \<times> 'r SymbolBuffers option) \<times> SymbolInstance" where
  "debugInstance collisionBoxArray bufs symbolInstance =
     (let si = symbolInstance
            \<lparr> textCollisionFeature :=
                 Some (textBoxStartIndex symbolInstance, textBoxEndIndex symbolInstance),
               iconCollisionFeature :=
                 Some (iconBoxStartIndex symbolInstance, iconBoxEndIndex symbolInstance) \<rparr>
      in then_do (debugBoxes collisionBoxArray si bufs (textBoxStartIndex si) (textBoxEndIndex si))
           (\<lambda>bufs1. then_do (debugBoxes collisionBoxArray si bufs1
                               (iconBoxStartIndex si) (iconBoxEndIndex si))
              (\<lambda>bufs2. Inr (bufs2, si))))"

text \<open>\<open>generateCollisionDebugBuffers\<close>: the result is the pair of debug buffer sets and the
  symbol instances, which the method writes to.\<close>

fun generateCollisionDebugBuffers ::
  "CollisionBox list \<Rightarrow> 'r SymbolBuffers option \<times> 'r SymbolBuffers option \<Rightarrow> SymbolInstance list
     \<Rightarrow> error + ('r SymbolBuffers option \<times> 'r SymbolBuffers option) \<times> SymbolInstance list" where
  "generateCollisionDebugBuffers collisionBoxArray bufs [] = Inr (bufs, [])"
| "generateCollisionDebugBuffers collisionBoxArray bufs (symbolInstance # rest) =
     then_do (debugInstance collisionBoxArray bufs symbolInstance)
       (\<lambda>(bufs', si). then_do (generateCollisionDebugBuffers collisionBoxArray bufs' rest)
          (\<lambda>(bufs'', sis). Inr (bufs'', si # sis)))"

section \<open>What the collision debug buffers receive\<close>

text \<open>The four layout vertices that \<open>addCollisionDebugVertices\<close> stores for a collision record
  and the anchor of its symbol instance: the four calls of \<open>_addCollisionDebugVertex\<close>, on
  empty arrays.\<close>

definition debugQuad :: "CollisionBox \<Rightarrow> Anchor \<Rightarrow> LayoutVertex list" where
  "debugQuad box anchor =
     (let a1 = addCollisionDebugVertex ([], []) (anchorPoint box) anchor
                 \<lparr> point_x = box_x1 box, point_y = box_y1 box \<rparr>;
          a2 = addCollisionDebugVertex a1 (anchorPoint box) anchor
                 \<lparr> point_x = box_x2 box, point_y = box_y1 box \<rparr>;
          a3 = addCollisionDebugVertex a2 (anchorPoint box) anchor
                 \<lparr> point_x = box_x2 box, point_y = box_y2 box \<rparr>;
          a4 = addCollisionDebugVertex a3 (anchorPoint box) anchor
                 \<lparr> point_x = box_x1 box, point_y = box_y2 box \<rparr>
      in fst a4)"

text \<open>The records that the loops of \<open>generateCollisionDebugBuffers\<close> visit, in the order of the
  visits: for each symbol instance its text boxes, then its icon boxes. A visit is the anchor
  of the instance and the index of the record.\<close>

definition visitedRecords :: "SymbolInstance list \<Rightarrow> (Anchor \<times> nat) list" where
  "visitedRecords sis =
     concat (map (\<lambda>si. map (Pair (instance_anchor si))
                          ([textBoxStartIndex si..<textBoxEndIndex si]
                           @ [iconBoxStartIndex si..<iconBoxEndIndex si])) sis)"

text \<open>The visits that the test \<open>box.radius > 0\<close> sends to the \<open>collisionCircle\<close> buffers, and
  the ones it sends to the \<open>collisionBox\<close> buffers.\<close>

definition circleVisits :: "CollisionBox list \<Rightarrow> (Anchor \<times> nat) list \<Rightarrow> (Anchor \<times> nat) list" where
  "circleVisits arr ps = filter (\<lambda>v. 0 < radius (arr ! snd v)) ps"

definition boxVisits :: "CollisionBox list \<Rightarrow> (Anchor \<times> nat) list \<Rightarrow> (Anchor \<times> nat) list" where
  "boxVisits arr ps = filter (\<lambda>v. \<not> 0 < radius (arr ! snd v)) ps"

text \<open>The pair \<open>new\<close> of debug buffer sets (\<open>collisionBox\<close>, \<open>collisionCircle\<close>) is the pair \<open>old\<close>
  after the visits \<open>ps\<close>: each buffer set has received, behind what it held, the four
  vertices of each of its visits, in order, four line primitives per box visit and two
  triangles per circle visit, and four collision vertices per visit; a buffer set without
  visits is as it was.\<close>

definition emitted ::
  "CollisionBox list \<Rightarrow> (Anchor \<times> nat) list \<Rightarrow> 'r SymbolBuffers \<times> 'r SymbolBuffers
     \<Rightarrow> 'r SymbolBuffers \<times> 'r SymbolBuffers \<Rightarrow> bool" where
  "emitted arr ps old new \<longleftrightarrow>
     layoutVertexArray (fst new) = layoutVertexArray (fst old) @
        concat (map (\<lambda>v. debugQuad (arr ! snd v) (fst v)) (boxVisits arr ps))
   \<and> layoutVertexArray (snd new) = layoutVertexArray (snd old) @
        concat (map (\<lambda>v. debugQuad (arr ! snd v) (fst v)) (circleVisits arr ps))
   \<and> (\<exists>ixs. length ixs = length (boxVisits arr ps)
         \<and> indexArray (fst new) = indexArray (fst old) @
              concat (map (\<lambda>i. [Line i (i + 1), Line (i + 1) (i + 2),
                                 Line (i + 2) (i + 3), Line (i + 3) i]) ixs))
   \<and> (\<exists>ixs. length ixs = length (circleVisits arr ps)
         \<and> indexArray (snd new) = indexArray (snd old) @
              concat (map (\<lambda>i. [Triangle i (i + 1) (i + 2), Triangle i (i + 2) (i + 3)]) ixs))
   \<and> collisionVertexArray (fst new) =
        map_option (\<lambda>cva. cva @ replicate (4 * length (boxVisits arr ps)) (0, 0))
          (collisionVertexArray (fst old))
   \<and> collisionVertexArray (snd new) =
        map_option (\<lambda>cva. cva @ replicate (4 * length (circleVisits arr ps)) (0, 0))
          (collisionVertexArray (snd old))
   \<and> (boxVisits arr ps = [] \<longrightarrow> fst new = fst old)
   \<and> (circleVisits arr ps = [] \<longrightarrow> snd new = snd old)"

section \<open>Flattening collision boxes\<close>

function deserializeBoxesLoop ::
  "CollisionBox list \<Rightarrow> nat \<Rightarrow> nat \<Rightarrow> real list \<Rightarrow> error + real list" where
  "deserializeBoxesLoop collisionBoxArray k endIndex boxes =
     (if k < endIndex
      then then_do (box_get collisionBoxArray k)
             (\<lambda>box. if radius box \<noteq> 0 then Inr []
                    else deserializeBoxesLoop collisionBoxArray (Suc k) endIndex
                           (boxes @ [box_x1 box, box_y1 box, box_x2 box, box_y2 box,
                                     anchorPointX box, anchorPointY box]))
      else Inr boxes)"
  by pat_completeness auto
termination
  by (relation "measure (\<lambda>(a, k, e, bs). e - k)") auto

declare deserializeBoxesLoop.simps [simp del]

definition deserializeCollisionBoxes :: "CollisionBox list \<Rightarrow> nat \<Rightarrow> nat \<Rightarrow> error + real list" where
  "deserializeCollisionBoxes collisionBoxArray startIndex endIndex =
     deserializeBoxesLoop collisionBoxArray startIndex endIndex []"

function deserializeCirclesLoop ::
  "CollisionBox list \<Rightarrow> nat \<Rightarrow> nat \<Rightarrow> js_value list \<Rightarrow> error + js_value list" where
  "deserializeCirclesLoop collisionBoxArray k endIndex circles =
     (if k < endIndex
      then then_do (box_get collisionBoxArray k)
             (\<lambda>circle. if radius circle = 0 then Inr []
                       else deserializeCirclesLoop collisionBoxArray (Suc k) endIndex
                              (circles @ [Num (anchorPointX circle), Num (anchorPointY circle),
                                          Num (radius circle), Num (distanceToAnchor circle),
                                          Bool False]))
      else Inr circles)"
  by pat_completeness auto
termination
  by (relation "measure (\<lambda>(a, k, e, cs). e - k)") auto

declare deserializeCirclesLoop.simps [simp del]

definition deserializeCollisionCircles ::
  "CollisionBox list \<Rightarrow> nat \<Rightarrow> nat \<Rightarrow> error + js_value list" where
  "deserializeCollisionCircles collisionBoxArray startIndex endIndex =
     deserializeCirclesLoop collisionBoxArray startIndex endIndex []"

section \<open>populate\<close>

record IndexedFeature =
  indexed_feature :: Feature
  indexed_index :: nat
  indexed_sourceLayerIndex :: nat

record SymbolFeature =
  symbol_text :: js_value
  symbol_icon :: js_value
  symbol_index :: nat
  symbol_sourceLayerIndex :: nat
  symbol_geometry :: "Point list list"
  symbol_properties :: "(js_string \<times> js_value) list"
  symbol_type :: js_value
  symbol_id :: "js_value option"

text \<open>
  The functions that \<open>populate\<close> calls and that live in other modules: \<open>util/token\<close>,
  \<open>symbol/transform_text\<close>, \<open>util/script_detection\<close>, \<open>util/verticalize_punctuation\<close> (its
  \<open>lookup\<close> table, keyed by one code unit), \<open>symbol/mergelines\<close> and \<open>data/load_geometry\<close>.
\<close>

record Collaborators =
  resolveTokens :: "(js_string \<times> js_value) list \<Rightarrow> js_value \<Rightarrow> js_value"
  transformText :: "js_value \<Rightarrow> Feature StyleLayer \<Rightarrow> real \<Rightarrow> Feature \<Rightarrow> js_value"
  allowsVerticalWritingMode :: "js_value \<Rightarrow> bool"
  verticalizePunctuation_lookup :: "nat \<Rightarrow> js_string option"
  mergeLines :: "SymbolFeature list \<Rightarrow> SymbolFeature list"
  loadGeometry :: "Feature \<Rightarrow> Point list list"

record PopulateParameters =
  iconDependencies :: "js_value set"
  glyphDependencies :: "js_value \<rightharpoonup> nat set"

definition js_str :: "string \<Rightarrow> js_string" where
  "js_str s = map of_char s"

text \<open>\<open>VectorTileFeature.types\<close> of \<open>@mapbox/vector-tile\<close>, read at \<open>feature.type\<close>.\<close>

definition vectorTileFeatureTypes :: "nat \<Rightarrow> js_value" where
  "vectorTileFeatureTypes t =
     (let types = [''Unknown'', ''Point'', ''LineString'', ''Polygon'']
      in if t < length types then Str (js_str (types ! t)) else Undefined)"

definition hasText :: "'f StyleLayer \<Rightarrow> bool" where
  "hasText layer =
     ((\<not> isLayoutValueFeatureConstant layer ''text-field'' \<or> truthy (layout layer ''text-field''))
      \<and> truthy (layout layer ''text-font''))"

definition hasIcon :: "'f StyleLayer \<Rightarrow> bool" where
  "hasIcon layer =
     (\<not> isLayoutValueFeatureConstant layer ''icon-image'' \<or> truthy (layout layer ''icon-image''))"

definition evalText :: "Collaborators \<Rightarrow> Feature StyleLayer \<Rightarrow> real \<Rightarrow> Feature \<Rightarrow> js_value" where
  "evalText collab layer this_zoom feature =
     (if hasText layer
      then let t = getLayoutValue layer ''text-field'' (Some this_zoom) (Some feature);
               t = (if isLayoutValueFeatureConstant layer ''text-field''
                    then resolveTokens collab (feature_properties feature) t else t)
           in transformText collab t layer this_zoom feature
      else Undefined)"

definition evalIcon :: "Collaborators \<Rightarrow> Feature StyleLayer \<Rightarrow> real \<Rightarrow> Feature \<Rightarrow> js_value" where
  "evalIcon collab layer this_zoom feature =
     (if hasIcon layer
      then let c = getLayoutValue layer ''icon-image'' (Some this_zoom) (Some feature)
           in if isLayoutValueFeatureConstant layer ''icon-image''
              then resolveTokens collab (feature_properties feature) c else c
      else Undefined)"

text \<open>The part of the loop body that decides whether a feature is kept, and builds it:
  \<open>None\<close> stands for the two \<open>continue\<close>.\<close>

definition symbolFeatureOf ::
  "Collaborators \<Rightarrow> Feature StyleLayer \<Rightarrow> real \<Rightarrow> IndexedFeature \<Rightarrow> SymbolFeature option" where
  "symbolFeatureOf collab layer this_zoom f =
     (let feature = indexed_feature f
      in if \<not> layer_filter layer feature then None
         else
           let text = evalText collab layer this_zoom feature;
               icon = evalIcon collab layer this_zoom feature
           in if \<not> truthy text \<and> \<not> truthy icon then None
              else Some \<lparr> symbol_text = text, symbol_icon = icon,
                           symbol_index = indexed_index f,
                           symbol_sourceLayerIndex = indexed_sourceLayerIndex f,
                           symbol_geometry = loadGeometry collab feature,
                           symbol_properties = feature_properties feature,
                           symbol_type = vectorTileFeatureTypes (feature_type feature),
                           symbol_id = (if feature_id feature \<noteq> Undefined
                                        then Some (feature_id feature) else None) \<rparr>)"

text \<open>\<open>text.length\<close> and \<open>text.charCodeAt(i)\<close> read the code units of a string.\<close>

fun code_units :: "js_value \<Rightarrow> nat list" where
  "code_units (Str s) = s"
| "code_units _ = []"

text \<open>The loop over the characters of a text. \<open>vertical\<close> is
  \<open>textAlongLine && allowsVerticalWritingMode\<close>; the substitute is recorded by its first code
  unit, when the table has a non-empty one.\<close>

fun addGlyphs :: "bool \<Rightarrow> (nat \<Rightarrow> js_string option) \<Rightarrow> nat list \<Rightarrow> nat set \<Rightarrow> nat set" where
  "addGlyphs vertical lookup [] stack = stack"
| "addGlyphs vertical lookup (c # cs) stack =
     addGlyphs vertical lookup cs
       (let stack1 = insert c stack
        in if vertical
           then (case lookup c of
                   Some (v # _) \<Rightarrow> insert v stack1
                 | _ \<Rightarrow> stack1)
           else stack1)"

definition textAlongLine :: "'f StyleLayer \<Rightarrow> bool" where
  "textAlongLine layer =
     (layout layer ''text-rotation-alignment'' = Str (js_str ''map'')
      \<and> layout layer ''symbol-placement'' = Str (js_str ''line''))"

text \<open>The loop body on \<open>(this.features, icons, stack)\<close>.\<close>

definition populateFeature ::
  "Collaborators \<Rightarrow> Feature StyleLayer \<Rightarrow> real
     \<Rightarrow> SymbolFeature list \<times> js_value set \<times> nat set \<Rightarrow> IndexedFeature
     \<Rightarrow> SymbolFeature list \<times> js_value set \<times> nat set" where
  "populateFeature collab layer this_zoom st f =
     (case symbolFeatureOf collab layer this_zoom f of
        None \<Rightarrow> st
      | Some symbolFeature \<Rightarrow>
          (case st of (features, icons, stack) \<Rightarrow>
             let text = symbol_text symbolFeature;
                 icon = symbol_icon symbolFeature
             in (features @ [symbolFeature],
                 (if truthy icon then insert icon icons else icons),
                 (if truthy text
                  then addGlyphs (textAlongLine layer \<and> allowsVerticalWritingMode collab text)
                         (verticalizePunctuation_lookup collab) (code_units text) stack
                  else stack))))"

fun populateLoop ::
  "Collaborators \<Rightarrow> Feature StyleLayer \<Rightarrow> real
     \<Rightarrow> SymbolFeature list \<times> js_value set \<times> nat set \<Rightarrow> IndexedFeature list
     \<Rightarrow> SymbolFeature list \<times> js_value set \<times> nat set" where
  "populateLoop collab layer this_zoom st [] = st"
| "populateLoop collab layer this_zoom st (f # fs) =
     populateLoop collab layer this_zoom (populateFeature collab layer this_zoom st f) fs"

text \<open>
  \<open>populate(features, options)\<close> with \<open>this.layers[0]\<close> and \<open>this.zoom\<close>; the result is
  \<open>this.features\<close> and the two dependency sets of \<open>options\<close>, which the method writes to. The
  font stack is the key \<open>layout['text-font']\<close>; \<open>stacks[textFont] || {}\<close> keeps a set that is
  already there.
\<close>

definition populate ::
  "Collaborators \<Rightarrow> Feature StyleLayer \<Rightarrow> real \<Rightarrow> IndexedFeature list \<Rightarrow> PopulateParameters
     \<Rightarrow> SymbolFeature list \<times> PopulateParameters" where
  "populate collab layer this_zoom features options =
     (if \<not> hasText layer \<and> \<not> hasIcon layer then ([], options)
      else
        let icons = iconDependencies options;
            stacks = glyphDependencies options;
            textFont = layout layer ''text-font'';
            stack = (case stacks textFont of None \<Rightarrow> {} | Some s \<Rightarrow> s);
            (fs, icons', stack') = populateLoop collab layer this_zoom ([], icons, stack) features
        in ((if layout layer ''symbol-placement'' = Str (js_str ''line'')
             then mergeLines collab fs else fs),
            \<lparr> iconDependencies = icons', glyphDependencies = stacks (textFont \<mapsto> stack') \<rparr>))"

section \<open>Codepoints, as the specification counts characters\<close>

text \<open>
  The specification speaks of the codepoints of a text. This is the reading of a JavaScript
  string as codepoints, which \<open>populate\<close> does not do: a high surrogate followed by a low
  surrogate is one codepoint above 65535, any other code unit is its own codepoint.
\<close>

fun spec_codepoints :: "nat list \<Rightarrow> nat list" where
  "spec_codepoints (h # l # cs) =
     (if 55296 \<le> h \<and> h < 56320 \<and> 56320 \<le> l \<and> l < 57344
      then (65536 + (h - 55296) * 1024 + (l - 56320)) # spec_codepoints cs
      else h # spec_codepoints (l # cs))"
| "spec_codepoints cs = cs"

section \<open>The bucket\<close>

text \<open>
  The members of \<open>SymbolBucket\<close> that the methods below read and write. The four buffer sets
  are \<open>this.text\<close>, \<open>this.icon\<close>, \<open>this.collisionBox\<close> and \<open>this.collisionCircle\<close>; they are
  \<open>undefined\<close> until \<open>createArrays\<close> or the deserializing constructor has run.
\<close>

record 'r SymbolBucket =
  zoom :: real
  collisionBoxArray :: "CollisionBox list"
  symbolInstances :: "SymbolInstance list"
  textBuffers :: "'r SymbolBuffers option"
  iconBuffers :: "'r SymbolBuffers option"
  collisionBoxBuffers :: "'r SymbolBuffers option"
  collisionCircleBuffers :: "'r SymbolBuffers option"
  placedGlyphArray :: "PlacedSymbol list"
  placedIconArray :: "PlacedSymbol list"
  glyphOffsetArray :: "real list"
  lineVertexArray :: "LineVertex list"

definition createArrays :: "'r \<Rightarrow> 'r SymbolBucket \<Rightarrow> 'r SymbolBucket" where
  "createArrays fresh this =
     this \<lparr> textBuffers := Some (newSymbolBuffers fresh textInterface),
            iconBuffers := Some (newSymbolBuffers fresh iconInterface),
            collisionBoxBuffers := Some (newSymbolBuffers fresh collisionBoxInterface),
            collisionCircleBuffers := Some (newSymbolBuffers fresh collisionCircleInterface),
            placedGlyphArray := [], placedIconArray := [],
            glyphOffsetArray := [], lineVertexArray := [] \<rparr>"




text \<open>
  The two packing methods as calls on the bucket. \<open>addSymbols\<close> is given one of the two symbol
  buffer sets of the bucket together with its placed symbol array.
\<close>

datatype Target = TextTarget | IconTarget

definition bucket_addToLineVertexArray ::
  "'r SymbolBucket \<Rightarrow> Anchor \<Rightarrow> Point list \<Rightarrow> error + 'r SymbolBucket \<times> nat \<times> nat" where
  "bucket_addToLineVertexArray this anchor pts =
     then_do (addToLineVertexArray (lineVertexArray this) anchor pts)
       (\<lambda>(lva, range). Inr (this \<lparr> lineVertexArray := lva \<rparr>, range))"

definition bucket_addSymbols ::
  "Numerics \<Rightarrow> 'r SymbolBucket \<Rightarrow> Target \<Rightarrow> SymbolQuad list \<Rightarrow> (real \<times> real) option
     \<Rightarrow> real \<times> real \<Rightarrow> bool \<Rightarrow> Feature \<Rightarrow> nat \<Rightarrow> Anchor \<Rightarrow> nat \<Rightarrow> nat \<Rightarrow> error + 'r SymbolBucket" where
  "bucket_addSymbols num this target quads sizeVertex lineOffset alongLine feature wMode
       labelAnchor lStart lLength =
     (case (case target of TextTarget \<Rightarrow> textBuffers this | IconTarget \<Rightarrow> iconBuffers this) of
        None \<Rightarrow> Inl TypeError
      | Some arrays \<Rightarrow>
          then_do (addSymbols num (zoom this) (glyphOffsetArray this) arrays quads sizeVertex
                     lineOffset alongLine feature wMode labelAnchor lStart lLength
                     (case target of TextTarget \<Rightarrow> placedGlyphArray this
                                   | IconTarget \<Rightarrow> placedIconArray this))
            (\<lambda>(glyphs, arrays', placed).
               Inr (case target of
                      TextTarget \<Rightarrow> this \<lparr> glyphOffsetArray := glyphs, textBuffers := Some arrays',
                                            placedGlyphArray := placed \<rparr>
                    | IconTarget \<Rightarrow> this \<lparr> glyphOffsetArray := glyphs, iconBuffers := Some arrays',
                                            placedIconArray := placed \<rparr>)))"

subsection \<open>Collision records and debug buffers for the examples\<close>

definition exampleAnchor :: Anchor where
  "exampleAnchor = \<lparr> point_x = 3, point_y = 4, angle = 0, segment = Some 0 \<rparr>"

definition exampleInstance :: SymbolInstance where
  "exampleInstance = \<lparr> textBoxStartIndex = 0, textBoxEndIndex = 1,
     iconBoxStartIndex = 1, iconBoxEndIndex = 2,
     instance_anchor = exampleAnchor, instance_line = [],
     featureIndex = 0, writingModes = 1,
     textCollisionFeature = None, iconCollisionFeature = None \<rparr>"

definition exampleBox :: "real \<Rightarrow> CollisionBox" where
  "exampleBox r = \<lparr> anchorPoint = \<lparr> point_x = 5, point_y = 6 \<rparr>,
     anchorPointX = 5, anchorPointY = 6,
     box_x1 = 1, box_y1 = 2, box_x2 = 3, box_y2 = 4,
     radius = r, distanceToAnchor = 7 \<rparr>"

definition exampleBoxBuffers :: "nat SymbolBuffers" where
  "exampleBoxBuffers = newSymbolBuffers 0 collisionBoxInterface"

definition exampleBoxes :: "CollisionBox list" where
  "exampleBoxes = [exampleBox 0, exampleBox 0, exampleBox 2]"

definition exampleCircleBuffers :: "nat SymbolBuffers" where
  "exampleCircleBuffers = newSymbolBuffers 0 collisionCircleInterface"

definition exampleRecords :: "CollisionBox list" where
  "exampleRecords = [exampleBox (- 1), exampleBox 2]"

subsection \<open>A quad, a text buffer set and a feature for the examples\<close>

definition exampleQuad :: SymbolQuad where
  "exampleQuad = \<lparr> quad_tl = \<lparr> point_x = -1, point_y = -1 \<rparr>, quad_tr = \<lparr> point_x = 1, point_y = -1 \<rparr>,
     quad_bl = \<lparr> point_x = -1, point_y = 1 \<rparr>, quad_br = \<lparr> point_x = 1, point_y = 1 \<rparr>,
     quad_tex = \<lparr> tex_x = 0, tex_y = 0, tex_w = 8, tex_h = 8 \<rparr>, glyphOffset = (2, 0) \<rparr>"

definition exampleTextBuffers :: "nat SymbolBuffers" where
  "exampleTextBuffers = newSymbolBuffers 0 textInterface"

definition exampleFeature :: Feature where
  "exampleFeature = \<lparr> feature_type = 1, feature_id = Undefined, feature_properties = [],
     feature_geometry = [] \<rparr>"

definition exampleNumerics :: Numerics where
  "exampleNumerics = \<lparr> packUint8ToFloat = (\<lambda>a b. 256 * a + b), fround = (\<lambda>v. v) \<rparr>"

subsection \<open>An uploaded buffer set and a bucket for the examples\<close>


definition exampleBucket :: "nat SymbolBucket" where
  "exampleBucket = createArrays 0
     \<lparr> zoom = 5, collisionBoxArray = [], symbolInstances = [],
       textBuffers = None, iconBuffers = None,
       collisionBoxBuffers = None, collisionCircleBuffers = None,
       placedGlyphArray = [], placedIconArray = [],
       glyphOffsetArray = [], lineVertexArray = [] \<rparr>"


subsection \<open>A line and an anchor off the line for the examples\<close>

definition exampleLine :: "Point list" where
  "exampleLine = [\<lparr> point_x = 0, point_y = 0 \<rparr>, \<lparr> point_x = 6, point_y = 8 \<rparr>,
                  \<lparr> point_x = 6, point_y = 10 \<rparr>]"

definition examplePointAnchor :: Anchor where
  "examplePointAnchor = \<lparr> point_x = 3, point_y = 4, angle = 0, segment = None \<rparr>"

subsection \<open>Layers, features and collaborators for the examples\<close>

text \<open>The text layer has the constant text field \<open>{name}\<close>, follows lines and is aligned with
  the map; token resolution reads the property \<open>name\<close>; the lookup table maps the left
  parenthesis to its vertical form. The empty layer has neither a text field nor an icon.\<close>

definition exampleCollab :: Collaborators where
  "exampleCollab =
     \<lparr> resolveTokens = (\<lambda>props t. case map_of props [110, 97, 109, 101] of
                                       None \<Rightarrow> Str [] | Some v \<Rightarrow> v),
       transformText = (\<lambda>t layer z f. t),
       allowsVerticalWritingMode = (\<lambda>t. True),
       verticalizePunctuation_lookup = (\<lambda>c. if c = 40 then Some [65077] else None),
       mergeLines = (\<lambda>fs. fs),
       loadGeometry = feature_geometry \<rparr>"

definition exampleTextLayer :: "Feature StyleLayer" where
  "exampleTextLayer =
     \<lparr> layout = (\<lambda>p. if p = ''text-font'' then Arr [[79, 83]]
                      else if p = ''text-field'' then Str [123, 110, 97, 109, 101, 125]
                      else if p = ''text-rotation-alignment'' then Str (js_str ''map'')
                      else if p = ''symbol-placement'' then Str (js_str ''line'')
                      else Undefined),
       isLayoutValueFeatureConstant = (\<lambda>p. True),
       isLayoutValueZoomConstant = (\<lambda>p. True),
       getLayoutValue = (\<lambda>p z f. if p = ''text-field'' then Str [123, 110, 97, 109, 101, 125]
                                  else Undefined),
       getLayoutValueStopZoomLevels = (\<lambda>p. []),
       layer_filter = (\<lambda>f. True) \<rparr>"

definition exampleEmptyLayer :: "Feature StyleLayer" where
  "exampleEmptyLayer =
     \<lparr> layout = (\<lambda>p. if p = ''text-font'' then Arr [[79, 83]] else Undefined),
       isLayoutValueFeatureConstant = (\<lambda>p. True),
       isLayoutValueZoomConstant = (\<lambda>p. True),
       getLayoutValue = (\<lambda>p z f. Undefined),
       getLayoutValueStopZoomLevels = (\<lambda>p. []),
       layer_filter = (\<lambda>f. True) \<rparr>"

definition exampleFeatures :: "IndexedFeature list" where
  "exampleFeatures =
     [\<lparr> indexed_feature = \<lparr> feature_type = 2, feature_id = Undefined,
                            feature_properties = [([110, 97, 109, 101], Str [65, 40])],
                            feature_geometry = [] \<rparr>,
        indexed_index = 0, indexed_sourceLayerIndex = 0 \<rparr>,
      \<lparr> indexed_feature = exampleFeature, indexed_index = 1, indexed_sourceLayerIndex = 0 \<rparr>]"

definition exampleOptions :: PopulateParameters where
  "exampleOptions = \<lparr> iconDependencies = {}, glyphDependencies = Map.empty \<rparr>"

text \<open>A feature whose name is the one character U+20000, two code units, and the text layer
  with \<open>text-rotation-alignment\<close> \<open>viewport\<close>: it places its symbols along lines and does not
  rotate the text with the map.\<close>

definition astralFeatures :: "IndexedFeature list" where
  "astralFeatures =
     [\<lparr> indexed_feature = \<lparr> feature_type = 2, feature_id = Undefined,
                            feature_properties = [([110, 97, 109, 101], Str [55360, 56320])],
                            feature_geometry = [] \<rparr>,
        indexed_index = 0, indexed_sourceLayerIndex = 0 \<rparr>]"

definition exampleViewportLayer :: "Feature StyleLayer" where
  "exampleViewportLayer =
     exampleTextLayer \<lparr> layout := (\<lambda>p. if p = ''text-rotation-alignment''
                                         then Str (js_str ''viewport'')
                                         else layout exampleTextLayer p) \<rparr>"

subsection \<open>A winding line for the examples\<close>



section \<open>Sequences of packing calls\<close>

text \<open>
  The layout code (\<open>symbol/symbol_layout\<close>, outside this file) fills a bucket by calls of
  \<open>addToLineVertexArray\<close> and \<open>addSymbols\<close>. A run of such calls keeps, next to the bucket, the
  line ranges that \<open>addToLineVertexArray\<close> has returned so far; it stops at the first call
  that throws.
\<close>

datatype Call =
    AddToLineVertexArray Anchor "Point list"
  | AddSymbols Target "SymbolQuad list" "(real \<times> real) option" "real \<times> real" bool Feature nat
      Anchor nat nat

fun run_call ::
  "Numerics \<Rightarrow> 'r SymbolBucket \<times> (nat \<times> nat) list \<Rightarrow> Call
     \<Rightarrow> error + 'r SymbolBucket \<times> (nat \<times> nat) list" where
  "run_call num st (AddToLineVertexArray anchor pts) =
     then_do (bucket_addToLineVertexArray (fst st) anchor pts)
       (\<lambda>(this', range). Inr (this', snd st @ [range]))"
| "run_call num st (AddSymbols target quads sizeVertex lineOffset alongLine feature wMode
                       labelAnchor lStart lLength) =
     then_do (bucket_addSymbols num (fst st) target quads sizeVertex lineOffset alongLine feature
                wMode labelAnchor lStart lLength)
       (\<lambda>this'. Inr (this', snd st))"

fun run_calls ::
  "Numerics \<Rightarrow> 'r SymbolBucket \<times> (nat \<times> nat) list \<Rightarrow> Call list
     \<Rightarrow> error + 'r SymbolBucket \<times> (nat \<times> nat) list" where
  "run_calls num st [] = Inr st"
| "run_calls num st (c # cs) = then_do (run_call num st c) (\<lambda>st'. run_calls num st' cs)"

text \<open>The line range that a call of \<open>addSymbols\<close> passes is one that \<open>addToLineVertexArray\<close>
  has returned on this bucket.\<close>

fun passes_returned_range :: "(nat \<times> nat) list \<Rightarrow> Call \<Rightarrow> bool" where
  "passes_returned_range ranges (AddToLineVertexArray anchor pts) = True"
| "passes_returned_range ranges (AddSymbols target quads sizeVertex lineOffset alongLine feature
                                   wMode labelAnchor lStart lLength) =
     ((lStart, lLength) \<in> set ranges)"

fun pass_returned_ranges ::
  "Numerics \<Rightarrow> 'r SymbolBucket \<times> (nat \<times> nat) list \<Rightarrow> Call list \<Rightarrow> bool" where
  "pass_returned_ranges num st [] = True"
| "pass_returned_ranges num st (c # cs) =
     (passes_returned_range (snd st) c \<and>
      (case run_call num st c of
         Inl e \<Rightarrow> True
       | Inr st' \<Rightarrow> pass_returned_ranges num st' cs))"

text \<open>A range \<open>(start, length)\<close> stands for the indices \<open>start, ..., start + length - 1\<close>.\<close>

definition range_set :: "nat \<times> nat \<Rightarrow> nat set" where
  "range_set r = {fst r ..< fst r + snd r}"

definition disjoint_or_equal :: "nat \<times> nat \<Rightarrow> nat \<times> nat \<Rightarrow> bool" where
  "disjoint_or_equal r1 r2 = (range_set r1 \<inter> range_set r2 = {} \<or> r1 = r2)"

text \<open>The two ranges of an entry, as they are read from its unsigned members.\<close>

definition glyph_range :: "PlacedSymbol \<Rightarrow> nat \<times> nat" where
  "glyph_range e = (unat (glyphStartIndex e), unat (numGlyphs e))"

definition line_range :: "PlacedSymbol \<Rightarrow> nat \<times> nat" where
  "line_range e = (unat (lineStartIndex e), unat (lineLength e))"

text \<open>No two entries of the two placed symbol arrays of a bucket have glyph ranges or line
  ranges that overlap in part.\<close>

definition ranges_never_overlap_partially :: "'r SymbolBucket \<Rightarrow> bool" where
  "ranges_never_overlap_partially this =
     (let entries = placedGlyphArray this @ placedIconArray this
      in \<forall>e1\<in>set entries. \<forall>e2\<in>set entries.
           disjoint_or_equal (glyph_range e1) (glyph_range e2)
           \<and> disjoint_or_equal (line_range e1) (line_range e2))"

subsection \<open>Two runs on the example bucket\<close>

definition exampleCalls :: "Call list" where
  "exampleCalls =
     [AddToLineVertexArray exampleAnchor exampleLine,
      AddSymbols TextTarget [exampleQuad, exampleQuad] (Some (1, 2)) (0, 0) True exampleFeature 1
        exampleAnchor 0 3,
      AddSymbols IconTarget [exampleQuad] None (0, 0) False exampleFeature 1 exampleAnchor 0 3]"

text \<open>A run that puts 65540 glyphs in the glyph offset array: three labels of 3, 65534 and 3
  glyphs, on a point anchor and with the empty line range that the first call returned.\<close>

definition wrappingCalls :: "Call list" where
  "wrappingCalls =
     [AddToLineVertexArray examplePointAnchor exampleLine,
      AddSymbols TextTarget (replicate 3 exampleQuad) None (0, 0) False exampleFeature 1
        examplePointAnchor 0 0,
      AddSymbols TextTarget (replicate 65534 exampleQuad) None (0, 0) False exampleFeature 1
        examplePointAnchor 0 0,
      AddSymbols TextTarget (replicate 3 exampleQuad) None (0, 0) False exampleFeature 1
        examplePointAnchor 0 0]"

subsection \<open>What a run keeps true\<close>

text \<open>The glyph ranges of the entries lie inside the glyph offset array and the returned
  line ranges inside the line vertex array, neither family has two ranges that overlap in
  part, and the line range of every entry is a returned one.\<close>

definition windows_ok :: "'r SymbolBucket \<times> (nat \<times> nat) list \<Rightarrow> bool" where
  "windows_ok st =
     (let this = fst st; ranges = snd st;
          entries = placedGlyphArray this @ placedIconArray this
      in (\<forall>e\<in>set entries. fst (glyph_range e) + snd (glyph_range e) \<le> length (glyphOffsetArray this))
       \<and> (\<forall>e1\<in>set entries. \<forall>e2\<in>set entries. disjoint_or_equal (glyph_range e1) (glyph_range e2))
       \<and> (\<forall>r\<in>set ranges. fst r + snd r \<le> length (lineVertexArray this))
       \<and> (\<forall>r1\<in>set ranges. \<forall>r2\<in>set ranges. disjoint_or_equal r1 r2)
       \<and> (\<forall>e\<in>set entries. line_range e \<in> set ranges))"

section \<open>Properties\<close>

lemma lowerLoop_ge: "lower \<le> lowerLoop levels z lower"
proof (induction levels z lower rule: lowerLoop.induct)
  case (1 levels z lower)
  show ?case
  proof (cases "lower < length levels \<and> levels ! lower \<le> z")
    case True
    with 1 have "Suc lower \<le> lowerLoop levels z (Suc lower)" by simp
    with True show ?thesis by (subst lowerLoop.simps) auto
  next
    case False
    then show ?thesis by (subst lowerLoop.simps) auto
  qed
qed

lemma lowerLoop_le: "lower \<le> length levels \<Longrightarrow> lowerLoop levels z lower \<le> length levels"
proof (induction levels z lower rule: lowerLoop.induct)
  case (1 levels z lower)
  show ?case
  proof (cases "lower < length levels \<and> levels ! lower \<le> z")
    case True
    with 1 have "lowerLoop levels z (Suc lower) \<le> length levels" by simp
    with True show ?thesis by (subst lowerLoop.simps) auto
  next
    case False
    with 1 show ?thesis by (subst lowerLoop.simps) auto
  qed
qed

lemma lowerLoop_passed:
  "lower \<le> j \<Longrightarrow> j < lowerLoop levels z lower \<Longrightarrow> levels ! j \<le> z"
proof (induction levels z lower rule: lowerLoop.induct)
  case (1 levels z lower)
  show ?case
  proof (cases "lower < length levels \<and> levels ! lower \<le> z")
    case True
    then have eq: "lowerLoop levels z lower = lowerLoop levels z (Suc lower)"
      by (subst lowerLoop.simps) auto
    show ?thesis
    proof (cases "j = lower")
      case True
      with \<open>lower < length levels \<and> levels ! lower \<le> z\<close> show ?thesis by simp
    next
      case False
      with "1.prems" have "Suc lower \<le> j" by simp
      with 1 True eq show ?thesis by simp
    qed
  next
    case False
    then have "lowerLoop levels z lower = lower" by (subst lowerLoop.simps) auto
    with "1.prems" show ?thesis by simp
  qed
qed

lemma lowerLoop_stop:
  "lowerLoop levels z lower < length levels \<Longrightarrow> z < levels ! lowerLoop levels z lower"
proof (induction levels z lower rule: lowerLoop.induct)
  case (1 levels z lower)
  show ?case
  proof (cases "lower < length levels \<and> levels ! lower \<le> z")
    case True
    then have eq: "lowerLoop levels z lower = lowerLoop levels z (Suc lower)"
      by (subst lowerLoop.simps) auto
    with 1 True show ?thesis by simp
  next
    case False
    then have eq: "lowerLoop levels z lower = lower" by (subst lowerLoop.simps) auto
    with "1.prems" False show ?thesis by auto
  qed
qed

lemma upperLoop_ge: "upper \<le> upperLoop levels z upper"
proof (induction levels z upper rule: upperLoop.induct)
  case (1 levels z upper)
  show ?case
  proof (cases "upper < length levels \<and> levels ! upper < z + 1")
    case True
    with 1 have "Suc upper \<le> upperLoop levels z (Suc upper)" by simp
    with True show ?thesis by (subst upperLoop.simps) auto
  next
    case False
    then show ?thesis by (subst upperLoop.simps) auto
  qed
qed

lemma upperLoop_le: "upper \<le> length levels \<Longrightarrow> upperLoop levels z upper \<le> length levels"
proof (induction levels z upper rule: upperLoop.induct)
  case (1 levels z upper)
  show ?case
  proof (cases "upper < length levels \<and> levels ! upper < z + 1")
    case True
    with 1 have "upperLoop levels z (Suc upper) \<le> length levels" by simp
    with True show ?thesis by (subst upperLoop.simps) auto
  next
    case False
    with 1 show ?thesis by (subst upperLoop.simps) auto
  qed
qed

lemma upperLoop_passed:
  "upper \<le> j \<Longrightarrow> j < upperLoop levels z upper \<Longrightarrow> levels ! j < z + 1"
proof (induction levels z upper rule: upperLoop.induct)
  case (1 levels z upper)
  show ?case
  proof (cases "upper < length levels \<and> levels ! upper < z + 1")
    case True
    then have eq: "upperLoop levels z upper = upperLoop levels z (Suc upper)"
      by (subst upperLoop.simps) auto
    show ?thesis
    proof (cases "j = upper")
      case True
      with \<open>upper < length levels \<and> levels ! upper < z + 1\<close> show ?thesis by simp
    next
      case False
      with "1.prems" have "Suc upper \<le> j" by simp
      with 1 True eq show ?thesis by simp
    qed
  next
    case False
    then have "upperLoop levels z upper = upper" by (subst upperLoop.simps) auto
    with "1.prems" show ?thesis by simp
  qed
qed

lemma upperLoop_stop:
  "upperLoop levels z upper < length levels \<Longrightarrow> z + 1 \<le> levels ! upperLoop levels z upper"
proof (induction levels z upper rule: upperLoop.induct)
  case (1 levels z upper)
  show ?case
  proof (cases "upper < length levels \<and> levels ! upper < z + 1")
    case True
    then have eq: "upperLoop levels z upper = upperLoop levels z (Suc upper)"
      by (subst upperLoop.simps) auto
    with 1 True show ?thesis by simp
  next
    case False
    then have eq: "upperLoop levels z upper = upper" by (subst upperLoop.simps) auto
    with "1.prems" False show ?thesis by auto
  qed
qed


lemma coveringIndices_props:
  assumes ne: "levels \<noteq> []" and srt: "sorted levels"
  obtains l u where "coveringIndices levels z = (int l, int u)"
    and "l \<le> u" and "u < length levels"
    and "hd levels \<le> z \<Longrightarrow> levels ! l \<le> z \<and> (\<forall>x\<in>set levels. x \<le> z \<longrightarrow> x \<le> levels ! l)"
    and "z < hd levels \<Longrightarrow> l = 0"
    and "z + 1 \<le> last levels \<Longrightarrow>
           z + 1 \<le> levels ! u \<and> (\<forall>x\<in>set levels. z + 1 \<le> x \<longrightarrow> levels ! u \<le> x)"
    and "last levels < z + 1 \<Longrightarrow> u = length levels - 1"
proof -
  define r where "r = lowerLoop levels z 0"
  define l where "l = r - 1"
  define v where "v = upperLoop levels z l"
  define u where "u = min (length levels - 1) v"
  from ne have len: "0 < length levels" by simp
  have r_le: "r \<le> length levels" unfolding r_def by (rule lowerLoop_le) simp
  with len have l_lt: "l < length levels" unfolding l_def by arith
  have v_ge: "l \<le> v" unfolding v_def by (rule upperLoop_ge)
  have v_le: "v \<le> length levels" unfolding v_def using l_lt by (intro upperLoop_le) simp
  have lu: "l \<le> u" and u_lt: "u < length levels"
    using v_ge l_lt len unfolding u_def by arith+
  have "max 0 (int r - 1) = int l" unfolding l_def by arith
  moreover have "min (int (length levels) - 1) (int v) = int u"
    unfolding u_def using len by arith
  ultimately have ci: "coveringIndices levels z = (int l, int u)"
    by (simp add: coveringIndices_def Let_def r_def [symmetric] v_def [symmetric])
  have passed_l: "levels ! j \<le> z" if "j < r" for j
    using lowerLoop_passed [of 0 j levels z] that unfolding r_def by simp
  have stop_r: "z < levels ! r" if "r < length levels"
    using lowerLoop_stop [of levels z 0] that unfolding r_def by simp
  have passed_u: "levels ! j < z + 1" if "l \<le> j" "j < v" for j
    using upperLoop_passed [of l j levels z] that unfolding v_def by simp
  have stop_v: "z + 1 \<le> levels ! v" if "v < length levels"
    using upperLoop_stop [of levels z l] that unfolding v_def by simp
  have hd0: "hd levels = levels ! 0" using ne by (simp add: hd_conv_nth)
  have lastn: "last levels = levels ! (length levels - 1)" using ne by (simp add: last_conv_nth)
  have A: "levels ! l \<le> z \<and> (\<forall>x\<in>set levels. x \<le> z \<longrightarrow> x \<le> levels ! l)" if h: "hd levels \<le> z"
  proof -
    have "0 < r"
    proof (rule ccontr)
      assume "\<not> 0 < r"
      then have "r = 0" by simp
      with stop_r len have "z < levels ! 0" by simp
      with h hd0 show False by simp
    qed
    then have "l < r" unfolding l_def by simp
    then have 1: "levels ! l \<le> z" by (rule passed_l)
    have "x \<le> levels ! l" if "x \<in> set levels" "x \<le> z" for x
    proof -
      from that(1) obtain j where j: "j < length levels" "x = levels ! j"
        by (auto simp: in_set_conv_nth)
      show ?thesis
      proof (cases "j \<le> l")
        case True
        with srt l_lt j show ?thesis by (simp add: sorted_nth_mono)
      next
        case False
        with \<open>0 < r\<close> have "r \<le> j" unfolding l_def by simp
        with j have "r < length levels" by simp
        then have "z < levels ! r" by (rule stop_r)
        moreover from srt \<open>r \<le> j\<close> j have "levels ! r \<le> levels ! j" by (simp add: sorted_nth_mono)
        ultimately show ?thesis using that(2) j by simp
      qed
    qed
    with 1 show ?thesis by blast
  qed
  have B: "l = 0" if h: "z < hd levels"
  proof -
    have "r = 0"
    proof (rule ccontr)
      assume "r \<noteq> 0"
      then have "levels ! 0 \<le> z" by (intro passed_l) simp
      with h hd0 show False by simp
    qed
    then show ?thesis unfolding l_def by simp
  qed
  have below_l: "levels ! j < z + 1" if "j < l" for j
  proof -
    from that have "l < r" unfolding l_def by simp
    then have "levels ! l \<le> z" by (rule passed_l)
    moreover from srt that l_lt have "levels ! j \<le> levels ! l" by (simp add: sorted_nth_mono)
    ultimately show ?thesis by simp
  qed
  have C: "z + 1 \<le> levels ! u \<and> (\<forall>x\<in>set levels. z + 1 \<le> x \<longrightarrow> levels ! u \<le> x)"
    if h: "z + 1 \<le> last levels"
  proof -
    have v_lt: "v < length levels"
    proof (rule ccontr)
      assume "\<not> v < length levels"
      with v_le have "v = length levels" by simp
      with l_lt len have "levels ! (length levels - 1) < z + 1" by (intro passed_u) arith+
      with h lastn show False by simp
    qed
    then have uv: "u = v" unfolding u_def by simp
    from v_lt have 1: "z + 1 \<le> levels ! u" unfolding uv by (rule stop_v)
    have "levels ! u \<le> x" if "x \<in> set levels" "z + 1 \<le> x" for x
    proof -
      from that(1) obtain j where j: "j < length levels" "x = levels ! j"
        by (auto simp: in_set_conv_nth)
      have "\<not> j < l" using below_l [of j] that(2) j by auto
      moreover have "\<not> (l \<le> j \<and> j < v)" using passed_u [of j] that(2) j by auto
      ultimately have "v \<le> j" by arith
      with srt j show ?thesis unfolding uv by (simp add: sorted_nth_mono)
    qed
    with 1 show ?thesis by blast
  qed
  have D: "u = length levels - 1" if h: "last levels < z + 1"
  proof -
    have "\<not> v < length levels"
    proof
      assume v_lt: "v < length levels"
      then have "z + 1 \<le> levels ! v" by (rule stop_v)
      moreover from srt v_lt len have "levels ! v \<le> levels ! (length levels - 1)"
        by (intro sorted_nth_mono) arith+
      ultimately show False using h lastn by simp
    qed
    with v_le show ?thesis unfolding u_def by simp
  qed
  from ci lu u_lt A B C D show thesis by (rule that)
qed


subsection \<open>C1: the covering zoom range\<close>

text \<open>
  C1 (as amended). For a zoom-dependent size property whose stop levels are a non-empty
  ascending list, \<open>getSizeData\<close> returns a \<open>composite\<close> or \<open>camera\<close> descriptor whose covering
  range is a pair of declared stop levels \<open>lo \<le> up\<close>. When the first stop is at most the tile
  zoom, \<open>lo\<close> is the greatest stop that is at most the tile zoom; otherwise \<open>lo\<close> is clamped to the
  first stop. When \<open>tileZoom + 1\<close> is at most the last stop, \<open>up\<close> is the least stop that is at least
  \<open>tileZoom + 1\<close>; otherwise \<open>up\<close> is clamped to the last stop. So \<open>lo \<le> zoom + 1 < up + 1\<close> holds
  when the first stop is at most the tile zoom and \<open>zoom + 1\<close> is at most the last stop, and
  \<open>lo \<le> tileZoom < up + 1\<close> holds when the tile zoom is at least the first stop and below the last
  stop plus one.
\<close>

theorem getSizeData_covering_range:
  fixes layer :: "'f StyleLayer"
  assumes zoomdep: "\<not> isLayoutValueZoomConstant layer p"
    and lv: "levels = getLayoutValueStopZoomLevels layer p"
    and ne: "levels \<noteq> []" and srt: "sorted levels"
  shows "\<exists>lo up. coveringZoomRange (getSizeData z layer p) = Some (Some lo, Some up)
           \<and> functionType (getSizeData z layer p) =
               (if isLayoutValueFeatureConstant layer p then ''camera'' else ''composite'')
           \<and> lo \<in> set levels \<and> up \<in> set levels \<and> lo \<le> up
           \<and> (hd levels \<le> z \<longrightarrow> lo \<le> z \<and> (\<forall>x\<in>set levels. x \<le> z \<longrightarrow> x \<le> lo))
           \<and> (z < hd levels \<longrightarrow> lo = hd levels)
           \<and> (z + 1 \<le> last levels \<longrightarrow> z + 1 \<le> up \<and> (\<forall>x\<in>set levels. z + 1 \<le> x \<longrightarrow> up \<le> x))
           \<and> (last levels < z + 1 \<longrightarrow> up = last levels)
           \<and> (hd levels \<le> z \<and> z + 1 \<le> last levels \<longrightarrow> lo \<le> z + 1 \<and> z + 1 < up + 1)
           \<and> (hd levels \<le> z \<and> z < last levels + 1 \<longrightarrow> lo \<le> z \<and> z < up + 1)"
proof -
  from ne srt obtain l u where ci: "coveringIndices levels z = (int l, int u)"
    and lu: "l \<le> u" and u_lt: "u < length levels"
    and A: "hd levels \<le> z \<Longrightarrow> levels ! l \<le> z \<and> (\<forall>x\<in>set levels. x \<le> z \<longrightarrow> x \<le> levels ! l)"
    and B: "z < hd levels \<Longrightarrow> l = 0"
    and C: "z + 1 \<le> last levels \<Longrightarrow>
           z + 1 \<le> levels ! u \<and> (\<forall>x\<in>set levels. z + 1 \<le> x \<longrightarrow> levels ! u \<le> x)"
    and D: "last levels < z + 1 \<Longrightarrow> u = length levels - 1"
    by (rule coveringIndices_props [of levels z]) blast
  from lu u_lt have l_lt: "l < length levels" by simp
  have at_l: "level_at levels (int l) = Some (levels ! l)"
    and at_u: "level_at levels (int u) = Some (levels ! u)"
    using l_lt u_lt by (simp_all add: level_at_def)
  have range: "coveringZoomRange (getSizeData z layer p) = Some (Some (levels ! l), Some (levels ! u))"
    using zoomdep by (simp add: getSizeData_def Let_def lv [symmetric] ci at_l at_u)
  have ftype: "functionType (getSizeData z layer p) =
      (if isLayoutValueFeatureConstant layer p then ''camera'' else ''composite'')"
    using zoomdep by (simp add: getSizeData_def Let_def lv [symmetric] ci)
  have mem: "levels ! l \<in> set levels" "levels ! u \<in> set levels"
    using l_lt u_lt by simp_all
  have le: "levels ! l \<le> levels ! u"
    using srt lu u_lt by (simp add: sorted_nth_mono)
  have B': "z < hd levels \<longrightarrow> levels ! l = hd levels"
    using B ne by (auto simp: hd_conv_nth)
  have D': "last levels < z + 1 \<longrightarrow> levels ! u = last levels"
    using D ne by (auto simp: last_conv_nth)
  have E: "hd levels \<le> z \<and> z + 1 \<le> last levels \<longrightarrow> levels ! l \<le> z + 1 \<and> z + 1 < levels ! u + 1"
    using A C by fastforce
  have F: "hd levels \<le> z \<and> z < last levels + 1 \<longrightarrow> levels ! l \<le> z \<and> z < levels ! u + 1"
  proof (intro impI conjI)
    assume h: "hd levels \<le> z \<and> z < last levels + 1"
    with A show "levels ! l \<le> z" by simp
    show "z < levels ! u + 1"
    proof (cases "z + 1 \<le> last levels")
      case True
      with C have "z + 1 \<le> levels ! u" by simp
      then show ?thesis by simp
    next
      case False
      with D' have "levels ! u = last levels" by simp
      with h show ?thesis by simp
    qed
  qed
  from range ftype mem le A B' C D' E F show ?thesis by blast
qed

text \<open>The theorem at stops 5 and 10 and tile zoom 7: the range is \<open>[5, 10]\<close>.\<close>

theorem getSizeData_covering_range_witness:
  "coveringZoomRange (getSizeData 7 exampleSizeLayer ''text-size'') = Some (Some 5, Some 10)
   \<and> functionType (getSizeData 7 exampleSizeLayer ''text-size'') = ''camera''
   \<and> (5::real) \<le> 7 + 1 \<and> (7::real) + 1 < 10 + 1"
proof -
  have 1: "\<not> isLayoutValueZoomConstant exampleSizeLayer ''text-size''"
    by (simp add: exampleSizeLayer_def)
  have 2: "[5, 10] = getLayoutValueStopZoomLevels exampleSizeLayer ''text-size''"
    by (simp add: exampleSizeLayer_def)
  have 3: "[5, 10 :: real] \<noteq> []" and 4: "sorted [5, 10 :: real]" by simp_all
  from getSizeData_covering_range [OF 1 2 3 4, of 7]
  obtain lo up where r: "coveringZoomRange (getSizeData 7 exampleSizeLayer ''text-size'') = Some (Some lo, Some up)"
    and f: "functionType (getSizeData 7 exampleSizeLayer ''text-size'') =
               (if isLayoutValueFeatureConstant exampleSizeLayer ''text-size'' then ''camera'' else ''composite'')"
    and lo: "\<forall>x\<in>set [5, 10 :: real]. x \<le> 7 \<longrightarrow> x \<le> lo" "lo \<in> set [5, 10 :: real]" "lo \<le> 7"
    and up: "\<forall>x\<in>set [5, 10 :: real]. 7 + 1 \<le> x \<longrightarrow> up \<le> x" "up \<in> set [5, 10 :: real]" "7 + 1 \<le> up"
    by auto
  from lo have "lo = 5" by auto
  moreover from up have "up = 10" by auto
  moreover from f have "functionType (getSizeData 7 exampleSizeLayer ''text-size'') = ''camera''"
    by (simp add: exampleSizeLayer_def)
  ultimately show ?thesis using r by simp
qed

text \<open>
  C1 as stated fails outside the stops. With stops 5 and 10, tile zoom 2 gives the range
  \<open>[5, 5]\<close>, and \<open>5 \<le> 2 + 1\<close> is false; tile zoom 10, on the last stop, gives \<open>[10, 10]\<close>, and
  \<open>10 + 1 < 10 + 1\<close> is false.
\<close>

theorem getSizeData_covering_range_counterexample:
  "coveringZoomRange (getSizeData 2 exampleSizeLayer ''text-size'') = Some (Some 5, Some 5)
   \<and> \<not> ((5::real) \<le> 2 + 1)
   \<and> coveringZoomRange (getSizeData 10 exampleSizeLayer ''text-size'') = Some (Some 10, Some 10)
   \<and> \<not> ((10::real) + 1 < 10 + 1)"
  unfolding exampleSizeLayer_def by code_simp

subsection \<open>C9: flattening collision records\<close>

lemma box_get_in_range: "k < length arr \<Longrightarrow> box_get arr k = Inr (arr ! k)"
  by (simp add: box_get_def)

lemma then_do_Inr [simp]: "then_do (Inr v) f = f v"
  by (simp add: then_do_def)

lemma then_do_Inl [simp]: "then_do (Inl e) f = Inl e"
  by (simp add: then_do_def)

lemma deserializeBoxesLoop_eq:
  "e \<le> length arr \<Longrightarrow>
   deserializeBoxesLoop arr k e acc =
     Inr (if \<exists>j\<in>{k..<e}. radius (arr ! j) \<noteq> 0 then []
          else acc @ concat (map (\<lambda>j. [box_x1 (arr ! j), box_y1 (arr ! j), box_x2 (arr ! j),
                                        box_y2 (arr ! j), anchorPointX (arr ! j),
                                        anchorPointY (arr ! j)]) [k..<e]))"
proof (induction arr k e acc rule: deserializeBoxesLoop.induct)
  case (1 arr k e acc)
  show ?case
  proof (cases "k < e")
    case False
    then show ?thesis by (subst deserializeBoxesLoop.simps) simp
  next
    case True
    with "1.prems" have get: "box_get arr k = Inr (arr ! k)" by (simp add: box_get_in_range)
    from True have split: "{k..<e} = insert k {Suc k..<e}" by auto
    show ?thesis
    proof (cases "radius (arr ! k) = 0")
      case False
      with True get show ?thesis
        by (subst deserializeBoxesLoop.simps) (auto simp: split)
    next
      case r0: True
      have "deserializeBoxesLoop arr k e acc =
            deserializeBoxesLoop arr (Suc k) e
              (acc @ [box_x1 (arr ! k), box_y1 (arr ! k), box_x2 (arr ! k), box_y2 (arr ! k),
                      anchorPointX (arr ! k), anchorPointY (arr ! k)])"
        using True get r0 by (subst deserializeBoxesLoop.simps) simp
      also have "\<dots> = Inr (if \<exists>j\<in>{Suc k..<e}. radius (arr ! j) \<noteq> 0 then []
          else (acc @ [box_x1 (arr ! k), box_y1 (arr ! k), box_x2 (arr ! k), box_y2 (arr ! k),
                      anchorPointX (arr ! k), anchorPointY (arr ! k)])
               @ concat (map (\<lambda>j. [box_x1 (arr ! j), box_y1 (arr ! j), box_x2 (arr ! j),
                                        box_y2 (arr ! j), anchorPointX (arr ! j),
                                        anchorPointY (arr ! j)]) [Suc k..<e]))"
        using True get r0 "1.prems" by (intro "1.IH") auto
      finally show ?thesis using True r0 by (simp add: split upt_conv_Cons)
    qed
  qed
qed

lemma deserializeCirclesLoop_eq:
  "e \<le> length arr \<Longrightarrow>
   deserializeCirclesLoop arr k e acc =
     Inr (if \<exists>j\<in>{k..<e}. radius (arr ! j) = 0 then []
          else acc @ concat (map (\<lambda>j. [Num (anchorPointX (arr ! j)), Num (anchorPointY (arr ! j)),
                                        Num (radius (arr ! j)), Num (distanceToAnchor (arr ! j)),
                                        Bool False]) [k..<e]))"
proof (induction arr k e acc rule: deserializeCirclesLoop.induct)
  case (1 arr k e acc)
  show ?case
  proof (cases "k < e")
    case False
    then show ?thesis by (subst deserializeCirclesLoop.simps) simp
  next
    case True
    with "1.prems" have get: "box_get arr k = Inr (arr ! k)" by (simp add: box_get_in_range)
    from True have split: "{k..<e} = insert k {Suc k..<e}" by auto
    show ?thesis
    proof (cases "radius (arr ! k) = 0")
      case True
      with \<open>k < e\<close> get show ?thesis
        by (subst deserializeCirclesLoop.simps) (auto simp: split)
    next
      case r0: False
      have "deserializeCirclesLoop arr k e acc =
            deserializeCirclesLoop arr (Suc k) e
              (acc @ [Num (anchorPointX (arr ! k)), Num (anchorPointY (arr ! k)),
                      Num (radius (arr ! k)), Num (distanceToAnchor (arr ! k)), Bool False])"
        using True get r0 by (subst deserializeCirclesLoop.simps) simp
      also have "\<dots> = Inr (if \<exists>j\<in>{Suc k..<e}. radius (arr ! j) = 0 then []
          else (acc @ [Num (anchorPointX (arr ! k)), Num (anchorPointY (arr ! k)),
                      Num (radius (arr ! k)), Num (distanceToAnchor (arr ! k)), Bool False])
               @ concat (map (\<lambda>j. [Num (anchorPointX (arr ! j)), Num (anchorPointY (arr ! j)),
                                        Num (radius (arr ! j)), Num (distanceToAnchor (arr ! j)),
                                        Bool False]) [Suc k..<e]))"
        using True get r0 "1.prems" by (intro "1.IH") auto
      finally show ?thesis using True r0 by (simp add: split upt_conv_Cons)
    qed
  qed
qed

lemma length_concat_const:
  "(\<And>x. length (f x) = n) \<Longrightarrow> length (concat (map f xs)) = n * length xs"
  by (induction xs) simp_all

text \<open>
  C9. The two flattening routines tell the kinds apart by the radius: a record is a box when
  its radius is 0 and a circle otherwise. For a range \<open>[startIndex, endIndex)\<close> inside the
  array, \<open>deserializeCollisionBoxes\<close> returns the empty list if the range holds a circle, and
  otherwise the six values \<open>x1, y1, x2, y2, anchorPointX, anchorPointY\<close> of each record in
  order; \<open>deserializeCollisionCircles\<close> returns the empty list if the range holds a box, and
  otherwise the five values \<open>anchorPointX, anchorPointY, radius, distanceToAnchor, false\<close> of
  each record in order.
\<close>

theorem deserialize_kind_mismatch:
  assumes "endIndex \<le> length arr"
  shows "deserializeCollisionBoxes arr startIndex endIndex =
           Inr (if \<exists>k\<in>{startIndex..<endIndex}. radius (arr ! k) \<noteq> 0 then []
                else concat (map (\<lambda>k. [box_x1 (arr ! k), box_y1 (arr ! k), box_x2 (arr ! k),
                                        box_y2 (arr ! k), anchorPointX (arr ! k),
                                        anchorPointY (arr ! k)]) [startIndex..<endIndex]))
       \<and> deserializeCollisionCircles arr startIndex endIndex =
           Inr (if \<exists>k\<in>{startIndex..<endIndex}. radius (arr ! k) = 0 then []
                else concat (map (\<lambda>k. [Num (anchorPointX (arr ! k)), Num (anchorPointY (arr ! k)),
                                        Num (radius (arr ! k)), Num (distanceToAnchor (arr ! k)),
                                        Bool False]) [startIndex..<endIndex]))
       \<and> ((\<forall>k\<in>{startIndex..<endIndex}. radius (arr ! k) = 0) \<longrightarrow>
            (\<exists>boxes. deserializeCollisionBoxes arr startIndex endIndex = Inr boxes
                     \<and> length boxes = 6 * (endIndex - startIndex)))
       \<and> ((\<forall>k\<in>{startIndex..<endIndex}. radius (arr ! k) \<noteq> 0) \<longrightarrow>
            (\<exists>circles. deserializeCollisionCircles arr startIndex endIndex = Inr circles
                     \<and> length circles = 5 * (endIndex - startIndex)))"
proof -
  have b: "deserializeCollisionBoxes arr startIndex endIndex =
           Inr (if \<exists>k\<in>{startIndex..<endIndex}. radius (arr ! k) \<noteq> 0 then []
                else concat (map (\<lambda>k. [box_x1 (arr ! k), box_y1 (arr ! k), box_x2 (arr ! k),
                                        box_y2 (arr ! k), anchorPointX (arr ! k),
                                        anchorPointY (arr ! k)]) [startIndex..<endIndex]))"
    unfolding deserializeCollisionBoxes_def
    using deserializeBoxesLoop_eq [OF assms, of startIndex "[]"] by simp
  have c: "deserializeCollisionCircles arr startIndex endIndex =
           Inr (if \<exists>k\<in>{startIndex..<endIndex}. radius (arr ! k) = 0 then []
                else concat (map (\<lambda>k. [Num (anchorPointX (arr ! k)), Num (anchorPointY (arr ! k)),
                                        Num (radius (arr ! k)), Num (distanceToAnchor (arr ! k)),
                                        Bool False]) [startIndex..<endIndex]))"
    unfolding deserializeCollisionCircles_def
    using deserializeCirclesLoop_eq [OF assms, of startIndex "[]"] by simp
  have bl: "(\<forall>k\<in>{startIndex..<endIndex}. radius (arr ! k) = 0) \<longrightarrow>
            (\<exists>boxes. deserializeCollisionBoxes arr startIndex endIndex = Inr boxes
                     \<and> length boxes = 6 * (endIndex - startIndex))"
    unfolding b by (auto simp: length_concat_const)
  have cl: "(\<forall>k\<in>{startIndex..<endIndex}. radius (arr ! k) \<noteq> 0) \<longrightarrow>
            (\<exists>circles. deserializeCollisionCircles arr startIndex endIndex = Inr circles
                     \<and> length circles = 5 * (endIndex - startIndex))"
    unfolding c by (auto simp: length_concat_const)
  from b c bl cl show ?thesis by blast
qed

text \<open>
  The theorem on two boxes followed by a circle of radius 2: the whole range is empty for both
  routines, the box alone gives six values and the circle alone five.
\<close>

theorem deserialize_kind_mismatch_witness:
  "deserializeCollisionBoxes exampleBoxes 0 3 = Inr []
   \<and> deserializeCollisionCircles exampleBoxes 0 3 = Inr []
   \<and> deserializeCollisionBoxes exampleBoxes 1 2 = Inr [1, 2, 3, 4, 5, 6]
   \<and> deserializeCollisionCircles exampleBoxes 2 3 = Inr [Num 5, Num 6, Num 2, Num 7, Bool False]"
proof -
  have len: "3 \<le> length exampleBoxes" "2 \<le> length exampleBoxes"
    by (simp_all add: exampleBoxes_def)
  have r: "radius (exampleBoxes ! 0) = 0" "radius (exampleBoxes ! 1) = 0"
       "radius (exampleBoxes ! 2) = 2"
    by (simp_all add: exampleBoxes_def exampleBox_def)
  have circle: "\<exists>k\<in>{0..<3::nat}. radius (exampleBoxes ! k) \<noteq> 0"
    by (rule bexI [of _ 2]) (simp_all add: r)
  have box: "\<exists>k\<in>{0..<3::nat}. radius (exampleBoxes ! k) = 0"
    by (rule bexI [of _ 0]) (simp_all add: r)
  have u: "[1..<2::nat] = [1]" "[Suc 0..<2] = [1]" "[2..<3::nat] = [2]"
       "{Suc 0..<2} = {1}" "{2..<3::nat} = {2}"
    by (auto simp: upt_conv_Cons)
  have v: "exampleBoxes ! 1 = exampleBox 0" "exampleBoxes ! Suc 0 = exampleBox 0"
       "exampleBoxes ! 2 = exampleBox 2"
    by (simp_all add: exampleBoxes_def)
  from deserialize_kind_mismatch [OF len(1), of 0, THEN conjunct1] circle
  have A: "deserializeCollisionBoxes exampleBoxes 0 3 = Inr []" by simp
  from deserialize_kind_mismatch [OF len(1), of 0, THEN conjunct2, THEN conjunct1] box
  have B: "deserializeCollisionCircles exampleBoxes 0 3 = Inr []" by simp
  from deserialize_kind_mismatch [OF len(2), of 1, THEN conjunct1]
  have C: "deserializeCollisionBoxes exampleBoxes 1 2 = Inr [1, 2, 3, 4, 5, 6]"
    by (simp add: u v) (simp add: exampleBox_def)
  from deserialize_kind_mismatch [OF len(1), of 2, THEN conjunct2, THEN conjunct1]
  have D: "deserializeCollisionCircles exampleBoxes 2 3 = Inr [Num 5, Num 6, Num 2, Num 7, Bool False]"
    by (simp add: u v) (simp add: exampleBox_def)
  from A B C D show ?thesis by blast
qed

subsection \<open>C10: records with a negative radius\<close>

lemma emitted_refl: "emitted arr [] s s"
  by (simp add: emitted_def boxVisits_def circleVisits_def option.map_ident)

lemma emitted_trans:
  assumes 1: "emitted arr ps s t" and 2: "emitted arr qs t u"
  shows "emitted arr (ps @ qs) s u"
proof -
  have bv: "boxVisits arr (ps @ qs) = boxVisits arr ps @ boxVisits arr qs"
    and cv: "circleVisits arr (ps @ qs) = circleVisits arr ps @ circleVisits arr qs"
    by (simp_all add: boxVisits_def circleVisits_def)
  from 1 obtain i1 j1 where
    a1: "layoutVertexArray (fst t) = layoutVertexArray (fst s) @
        concat (map (\<lambda>v. debugQuad (arr ! snd v) (fst v)) (boxVisits arr ps))"
    and b1: "layoutVertexArray (snd t) = layoutVertexArray (snd s) @
        concat (map (\<lambda>v. debugQuad (arr ! snd v) (fst v)) (circleVisits arr ps))"
    and c1: "length i1 = length (boxVisits arr ps)"
       "indexArray (fst t) = indexArray (fst s) @
              concat (map (\<lambda>i. [Line i (i + 1), Line (i + 1) (i + 2),
                                 Line (i + 2) (i + 3), Line (i + 3) i]) i1)"
    and d1: "length j1 = length (circleVisits arr ps)"
       "indexArray (snd t) = indexArray (snd s) @
              concat (map (\<lambda>i. [Triangle i (i + 1) (i + 2), Triangle i (i + 2) (i + 3)]) j1)"
    and e1: "collisionVertexArray (fst t) =
        map_option (\<lambda>cva. cva @ replicate (4 * length (boxVisits arr ps)) (0, 0))
          (collisionVertexArray (fst s))"
    and f1: "collisionVertexArray (snd t) =
        map_option (\<lambda>cva. cva @ replicate (4 * length (circleVisits arr ps)) (0, 0))
          (collisionVertexArray (snd s))"
    and g1: "boxVisits arr ps = [] \<longrightarrow> fst t = fst s"
    and h1: "circleVisits arr ps = [] \<longrightarrow> snd t = snd s"
    unfolding emitted_def by blast
  from 2 obtain i2 j2 where
    a2: "layoutVertexArray (fst u) = layoutVertexArray (fst t) @
        concat (map (\<lambda>v. debugQuad (arr ! snd v) (fst v)) (boxVisits arr qs))"
    and b2: "layoutVertexArray (snd u) = layoutVertexArray (snd t) @
        concat (map (\<lambda>v. debugQuad (arr ! snd v) (fst v)) (circleVisits arr qs))"
    and c2: "length i2 = length (boxVisits arr qs)"
       "indexArray (fst u) = indexArray (fst t) @
              concat (map (\<lambda>i. [Line i (i + 1), Line (i + 1) (i + 2),
                                 Line (i + 2) (i + 3), Line (i + 3) i]) i2)"
    and d2: "length j2 = length (circleVisits arr qs)"
       "indexArray (snd u) = indexArray (snd t) @
              concat (map (\<lambda>i. [Triangle i (i + 1) (i + 2), Triangle i (i + 2) (i + 3)]) j2)"
    and e2: "collisionVertexArray (fst u) =
        map_option (\<lambda>cva. cva @ replicate (4 * length (boxVisits arr qs)) (0, 0))
          (collisionVertexArray (fst t))"
    and f2: "collisionVertexArray (snd u) =
        map_option (\<lambda>cva. cva @ replicate (4 * length (circleVisits arr qs)) (0, 0))
          (collisionVertexArray (snd t))"
    and g2: "boxVisits arr qs = [] \<longrightarrow> fst u = fst t"
    and h2: "circleVisits arr qs = [] \<longrightarrow> snd u = snd t"
    unfolding emitted_def by blast
  have A: "layoutVertexArray (fst u) = layoutVertexArray (fst s) @
        concat (map (\<lambda>v. debugQuad (arr ! snd v) (fst v)) (boxVisits arr (ps @ qs)))"
    by (simp add: a1 a2 bv)
  have B: "layoutVertexArray (snd u) = layoutVertexArray (snd s) @
        concat (map (\<lambda>v. debugQuad (arr ! snd v) (fst v)) (circleVisits arr (ps @ qs)))"
    by (simp add: b1 b2 cv)
  have C: "\<exists>ixs. length ixs = length (boxVisits arr (ps @ qs))
         \<and> indexArray (fst u) = indexArray (fst s) @
              concat (map (\<lambda>i. [Line i (i + 1), Line (i + 1) (i + 2),
                                 Line (i + 2) (i + 3), Line (i + 3) i]) ixs)"
    by (rule exI [of _ "i1 @ i2"]) (simp add: c1 c2 bv)
  have D: "\<exists>ixs. length ixs = length (circleVisits arr (ps @ qs))
         \<and> indexArray (snd u) = indexArray (snd s) @
              concat (map (\<lambda>i. [Triangle i (i + 1) (i + 2), Triangle i (i + 2) (i + 3)]) ixs)"
    by (rule exI [of _ "j1 @ j2"]) (simp add: d1 d2 cv)
  have E: "collisionVertexArray (fst u) =
        map_option (\<lambda>cva. cva @ replicate (4 * length (boxVisits arr (ps @ qs))) (0, 0))
          (collisionVertexArray (fst s))"
    by (cases "collisionVertexArray (fst s)")
       (simp_all add: e1 e2 bv replicate_add [symmetric] distrib_left del: replicate_add)
  have F: "collisionVertexArray (snd u) =
        map_option (\<lambda>cva. cva @ replicate (4 * length (circleVisits arr (ps @ qs))) (0, 0))
          (collisionVertexArray (snd s))"
    by (cases "collisionVertexArray (snd s)")
       (simp_all add: f1 f2 cv replicate_add [symmetric] distrib_left del: replicate_add)
  have G: "boxVisits arr (ps @ qs) = [] \<longrightarrow> fst u = fst s"
    using g1 g2 by (simp add: bv)
  have H: "circleVisits arr (ps @ qs) = [] \<longrightarrow> snd u = snd s"
    using h1 h2 by (simp add: cv)
  from A B C D E F G H show ?thesis unfolding emitted_def by blast
qed

lemma addCollisionDebugVertices_quad:
  assumes "collisionVertexArray arrays = Some cva"
  shows "\<exists>arrays' i. addCollisionDebugVertices (box_x1 box) (box_y1 box) (box_x2 box) (box_y2 box)
                        arrays (anchorPoint box) si isCircle = Inr arrays'
          \<and> layoutVertexArray arrays' = layoutVertexArray arrays @ debugQuad box (instance_anchor si)
          \<and> indexArray arrays' = indexArray arrays @
               (if isCircle then [Triangle i (i + 1) (i + 2), Triangle i (i + 2) (i + 3)]
                else [Line i (i + 1), Line (i + 1) (i + 2), Line (i + 2) (i + 3), Line (i + 3) i])
          \<and> collisionVertexArray arrays' = Some (cva @ replicate 4 (0, 0))"
  using assms
  by (simp add: addCollisionDebugVertices_def Let_def addCollisionDebugVertex_def debugQuad_def
        numeral_eq_Suc)

lemma debugBox_emitted:
  assumes b: "b < length arr"
    and cb: "collisionVertexArray (fst s) \<noteq> None" and cc: "collisionVertexArray (snd s) \<noteq> None"
  shows "\<exists>t. debugBox arr si (Some (fst s), Some (snd s)) b = Inr (Some (fst t), Some (snd t))
            \<and> emitted arr [(instance_anchor si, b)] s t"
proof (cases "0 < radius (arr ! b)")
  case True
  from cc obtain cva where cva: "collisionVertexArray (snd s) = Some cva" by auto
  from addCollisionDebugVertices_quad [OF cva, of "arr ! b" si True]
  obtain c' i where
    r: "addCollisionDebugVertices (box_x1 (arr ! b)) (box_y1 (arr ! b)) (box_x2 (arr ! b))
          (box_y2 (arr ! b)) (snd s) (anchorPoint (arr ! b)) si True = Inr c'"
    and l: "layoutVertexArray c' = layoutVertexArray (snd s) @ debugQuad (arr ! b) (instance_anchor si)"
    and x: "indexArray c' = indexArray (snd s) @
               [Triangle i (i + 1) (i + 2), Triangle i (i + 2) (i + 3)]"
    and v: "collisionVertexArray c' = Some (cva @ replicate 4 (0, 0))"
    by auto
  have d: "debugBox arr si (Some (fst s), Some (snd s)) b = Inr (Some (fst s), Some c')"
    using b True r by (simp add: debugBox_def box_get_in_range Let_def)
  have ix: "\<exists>ixs. length ixs = 1 \<and> indexArray c' = indexArray (snd s) @
              concat (map (\<lambda>i. [Triangle i (i + 1) (i + 2), Triangle i (i + 2) (i + 3)]) ixs)"
    by (rule exI [of _ "[i]"]) (simp add: x)
  have "emitted arr [(instance_anchor si, b)] s (fst s, c')"
    using True l ix v cva
    by (simp add: emitted_def boxVisits_def circleVisits_def option.map_ident)
  with d show ?thesis by (intro exI [of _ "(fst s, c')"]) simp
next
  case False
  from cb obtain cva where cva: "collisionVertexArray (fst s) = Some cva" by auto
  from addCollisionDebugVertices_quad [OF cva, of "arr ! b" si False]
  obtain b' i where
    r: "addCollisionDebugVertices (box_x1 (arr ! b)) (box_y1 (arr ! b)) (box_x2 (arr ! b))
          (box_y2 (arr ! b)) (fst s) (anchorPoint (arr ! b)) si False = Inr b'"
    and l: "layoutVertexArray b' = layoutVertexArray (fst s) @ debugQuad (arr ! b) (instance_anchor si)"
    and x: "indexArray b' = indexArray (fst s) @
               [Line i (i + 1), Line (i + 1) (i + 2), Line (i + 2) (i + 3), Line (i + 3) i]"
    and v: "collisionVertexArray b' = Some (cva @ replicate 4 (0, 0))"
    by auto
  have d: "debugBox arr si (Some (fst s), Some (snd s)) b = Inr (Some b', Some (snd s))"
    using b False r by (simp add: debugBox_def box_get_in_range Let_def)
  have ix: "\<exists>ixs. length ixs = 1 \<and> indexArray b' = indexArray (fst s) @
              concat (map (\<lambda>i. [Line i (i + 1), Line (i + 1) (i + 2),
                                 Line (i + 2) (i + 3), Line (i + 3) i]) ixs)"
    by (rule exI [of _ "[i]"]) (simp add: x)
  have "emitted arr [(instance_anchor si, b)] s (b', snd s)"
    using False l ix v cva
    by (simp add: emitted_def boxVisits_def circleVisits_def option.map_ident)
  with d show ?thesis by (intro exI [of _ "(b', snd s)"]) simp
qed

lemma emitted_collisionVertexArray:
  "emitted arr ps s t \<Longrightarrow> collisionVertexArray (fst s) \<noteq> None \<Longrightarrow> collisionVertexArray (fst t) \<noteq> None"
  "emitted arr ps s t \<Longrightarrow> collisionVertexArray (snd s) \<noteq> None \<Longrightarrow> collisionVertexArray (snd t) \<noteq> None"
  by (auto simp: emitted_def)

lemma debugBoxes_emitted:
  assumes "e \<le> length arr"
    and "collisionVertexArray (fst s) \<noteq> None" and "collisionVertexArray (snd s) \<noteq> None"
  shows "\<exists>t. debugBoxes arr si (Some (fst s), Some (snd s)) b e = Inr (Some (fst t), Some (snd t))
            \<and> emitted arr (map (Pair (instance_anchor si)) [b..<e]) s t"
  using assms
proof (induction "e - b" arbitrary: b s)
  case 0
  then have "\<not> b < e" by simp
  then have "debugBoxes arr si (Some (fst s), Some (snd s)) b e = Inr (Some (fst s), Some (snd s))"
    by (subst debugBoxes.simps) simp
  moreover from \<open>\<not> b < e\<close> have "map (Pair (instance_anchor si)) [b..<e] = []" by simp
  ultimately show ?case using emitted_refl [of arr s] by auto
next
  case (Suc n)
  then have lt: "b < e" and n: "n = e - Suc b" by simp_all
  from lt Suc.prems have bl: "b < length arr" by simp
  from debugBox_emitted [OF bl Suc.prems(2,3), of si]
  obtain t where d: "debugBox arr si (Some (fst s), Some (snd s)) b = Inr (Some (fst t), Some (snd t))"
    and em: "emitted arr [(instance_anchor si, b)] s t" by blast
  note nn = emitted_collisionVertexArray [OF em]
  from Suc.hyps(1) [OF n Suc.prems(1) nn(1) [OF Suc.prems(2)] nn(2) [OF Suc.prems(3)]]
  obtain u where
    r: "debugBoxes arr si (Some (fst t), Some (snd t)) (Suc b) e = Inr (Some (fst u), Some (snd u))"
    and em2: "emitted arr (map (Pair (instance_anchor si)) [Suc b..<e]) t u" by blast
  have "debugBoxes arr si (Some (fst s), Some (snd s)) b e = Inr (Some (fst u), Some (snd u))"
    using lt d r by (subst debugBoxes.simps) simp
  moreover have "emitted arr (map (Pair (instance_anchor si)) [b..<e]) s u"
    using emitted_trans [OF em em2] lt by (simp add: upt_conv_Cons)
  ultimately show ?case by blast
qed

lemma debugInstance_emitted:
  assumes "textBoxEndIndex si \<le> length arr" and "iconBoxEndIndex si \<le> length arr"
    and "collisionVertexArray (fst s) \<noteq> None" and "collisionVertexArray (snd s) \<noteq> None"
  shows "\<exists>t. debugInstance arr (Some (fst s), Some (snd s)) si
              = Inr ((Some (fst t), Some (snd t)),
                     si \<lparr> textCollisionFeature := Some (textBoxStartIndex si, textBoxEndIndex si),
                          iconCollisionFeature := Some (iconBoxStartIndex si, iconBoxEndIndex si) \<rparr>)
            \<and> emitted arr (visitedRecords [si]) s t"
proof -
  define si' where "si' = si \<lparr> textCollisionFeature := Some (textBoxStartIndex si, textBoxEndIndex si),
                          iconCollisionFeature := Some (iconBoxStartIndex si, iconBoxEndIndex si) \<rparr>"
  have f: "textBoxStartIndex si' = textBoxStartIndex si" "textBoxEndIndex si' = textBoxEndIndex si"
    "iconBoxStartIndex si' = iconBoxStartIndex si" "iconBoxEndIndex si' = iconBoxEndIndex si"
    "instance_anchor si' = instance_anchor si"
    by (simp_all add: si'_def)
  from debugBoxes_emitted [OF assms(1) assms(3,4), of si' "textBoxStartIndex si"]
  obtain t where
    r1: "debugBoxes arr si' (Some (fst s), Some (snd s)) (textBoxStartIndex si) (textBoxEndIndex si)
           = Inr (Some (fst t), Some (snd t))"
    and e1: "emitted arr (map (Pair (instance_anchor si))
                           [textBoxStartIndex si..<textBoxEndIndex si]) s t"
    by (auto simp: f)
  note nn = emitted_collisionVertexArray [OF e1]
  from debugBoxes_emitted [OF assms(2) nn(1) [OF assms(3)] nn(2) [OF assms(4)],
         of si' "iconBoxStartIndex si"]
  obtain u where
    r2: "debugBoxes arr si' (Some (fst t), Some (snd t)) (iconBoxStartIndex si) (iconBoxEndIndex si)
           = Inr (Some (fst u), Some (snd u))"
    and e2: "emitted arr (map (Pair (instance_anchor si))
                           [iconBoxStartIndex si..<iconBoxEndIndex si]) t u"
    by (auto simp: f)
  have "debugInstance arr (Some (fst s), Some (snd s)) si = Inr ((Some (fst u), Some (snd u)), si')"
    using r1 r2 by (simp add: debugInstance_def Let_def si'_def [symmetric] f)
  moreover have "emitted arr (visitedRecords [si]) s u"
    using emitted_trans [OF e1 e2] by (simp add: visitedRecords_def)
  ultimately show ?thesis unfolding si'_def by blast
qed

lemma generateCollisionDebugBuffers_emitted:
  assumes "\<forall>si\<in>set sis. textBoxEndIndex si \<le> length arr \<and> iconBoxEndIndex si \<le> length arr"
    and "collisionVertexArray (fst s) \<noteq> None" and "collisionVertexArray (snd s) \<noteq> None"
  shows "\<exists>t. generateCollisionDebugBuffers arr (Some (fst s), Some (snd s)) sis
              = Inr ((Some (fst t), Some (snd t)),
                     map (\<lambda>si. si \<lparr> textCollisionFeature :=
                                      Some (textBoxStartIndex si, textBoxEndIndex si),
                                    iconCollisionFeature :=
                                      Some (iconBoxStartIndex si, iconBoxEndIndex si) \<rparr>) sis)
            \<and> emitted arr (visitedRecords sis) s t"
  using assms
proof (induction sis arbitrary: s)
  case Nil
  show ?case using emitted_refl [of arr s] by (auto simp: visitedRecords_def)
next
  case (Cons si sis)
  from Cons.prems(1) have r: "textBoxEndIndex si \<le> length arr" "iconBoxEndIndex si \<le> length arr"
    and rest: "\<forall>si\<in>set sis. textBoxEndIndex si \<le> length arr \<and> iconBoxEndIndex si \<le> length arr"
    by simp_all
  from debugInstance_emitted [OF r Cons.prems(2,3)]
  obtain t where
    d: "debugInstance arr (Some (fst s), Some (snd s)) si
              = Inr ((Some (fst t), Some (snd t)),
                     si \<lparr> textCollisionFeature := Some (textBoxStartIndex si, textBoxEndIndex si),
                          iconCollisionFeature := Some (iconBoxStartIndex si, iconBoxEndIndex si) \<rparr>)"
    and e1: "emitted arr (visitedRecords [si]) s t" by blast
  note nn = emitted_collisionVertexArray [OF e1]
  from Cons.IH [OF rest nn(1) [OF Cons.prems(2)] nn(2) [OF Cons.prems(3)]]
  obtain u where
    g: "generateCollisionDebugBuffers arr (Some (fst t), Some (snd t)) sis
              = Inr ((Some (fst u), Some (snd u)),
                     map (\<lambda>si. si \<lparr> textCollisionFeature :=
                                      Some (textBoxStartIndex si, textBoxEndIndex si),
                                    iconCollisionFeature :=
                                      Some (iconBoxStartIndex si, iconBoxEndIndex si) \<rparr>) sis)"
    and e2: "emitted arr (visitedRecords sis) t u" by blast
  have "generateCollisionDebugBuffers arr (Some (fst s), Some (snd s)) (si # sis)
              = Inr ((Some (fst u), Some (snd u)),
                     map (\<lambda>si. si \<lparr> textCollisionFeature :=
                                      Some (textBoxStartIndex si, textBoxEndIndex si),
                                    iconCollisionFeature :=
                                      Some (iconBoxStartIndex si, iconBoxEndIndex si) \<rparr>) (si # sis))"
    by (simp add: d g)
  moreover have "emitted arr (visitedRecords (si # sis)) s u"
    using emitted_trans [OF e1 e2] by (simp add: visitedRecords_def)
  ultimately show ?case by blast
qed


lemma length_concat_fours:
  "length (concat (map (\<lambda>i. [g i, h i, k i, l i]) xs)) = 4 * length xs"
  by (induction xs) simp_all

text \<open>
  C10. For a record with a strictly negative radius the three readers disagree.
  \<open>generateCollisionDebugBuffers\<close> tests \<open>radius > 0\<close>: on a bucket whose symbol instances have
  their box ranges inside the collision box array and whose two debug buffer sets have a
  collision vertex array, the method returns, with the two collision features set on every
  instance; the \<open>collisionBox\<close> buffers have received, behind what they held, the four
  vertices of every visited record whose radius is not positive, in the order of the visits,
  and four line primitives for each, and the \<open>collisionCircle\<close> buffers the four vertices of
  every visited record with a positive radius and two triangles for each. So when every
  visited record has a negative radius, all of them are in the \<open>collisionBox\<close> buffers, as
  lines, and the \<open>collisionCircle\<close> buffers are as they were.
  \<open>deserializeCollisionBoxes\<close> tests \<open>radius !== 0\<close> and returns the empty list on every range
  that holds a record with a negative radius. \<open>deserializeCollisionCircles\<close> tests
  \<open>radius === 0\<close> and returns five values per record, a non-empty list, on every non-empty
  range of such records.
\<close>

theorem negative_radius_classification:
  assumes ranges: "\<forall>si\<in>set sis. textBoxEndIndex si \<le> length arr \<and> iconBoxEndIndex si \<le> length arr"
    and cb: "collisionVertexArray boxBuffers \<noteq> None"
    and cc: "collisionVertexArray circleBuffers \<noteq> None"
  shows "(\<exists>boxBuffers' circleBuffers'.
            generateCollisionDebugBuffers arr (Some boxBuffers, Some circleBuffers) sis
              = Inr ((Some boxBuffers', Some circleBuffers'),
                     map (\<lambda>si. si \<lparr> textCollisionFeature :=
                                      Some (textBoxStartIndex si, textBoxEndIndex si),
                                    iconCollisionFeature :=
                                      Some (iconBoxStartIndex si, iconBoxEndIndex si) \<rparr>) sis)
          \<and> layoutVertexArray boxBuffers' = layoutVertexArray boxBuffers @
               concat (map (\<lambda>v. debugQuad (arr ! snd v) (fst v))
                         (boxVisits arr (visitedRecords sis)))
          \<and> (\<exists>ixs. length ixs = length (boxVisits arr (visitedRecords sis))
                \<and> indexArray boxBuffers' = indexArray boxBuffers @
                     concat (map (\<lambda>i. [Line i (i + 1), Line (i + 1) (i + 2),
                                        Line (i + 2) (i + 3), Line (i + 3) i]) ixs))
          \<and> layoutVertexArray circleBuffers' = layoutVertexArray circleBuffers @
               concat (map (\<lambda>v. debugQuad (arr ! snd v) (fst v))
                         (circleVisits arr (visitedRecords sis)))
          \<and> (\<exists>ixs. length ixs = length (circleVisits arr (visitedRecords sis))
                \<and> indexArray circleBuffers' = indexArray circleBuffers @
                     concat (map (\<lambda>i. [Triangle i (i + 1) (i + 2), Triangle i (i + 2) (i + 3)]) ixs))
          \<and> ((\<forall>v\<in>set (visitedRecords sis). radius (arr ! snd v) < 0) \<longrightarrow>
                layoutVertexArray boxBuffers' = layoutVertexArray boxBuffers @
                  concat (map (\<lambda>v. debugQuad (arr ! snd v) (fst v)) (visitedRecords sis))
              \<and> length (indexArray boxBuffers')
                  = length (indexArray boxBuffers) + 4 * length (visitedRecords sis)
              \<and> circleBuffers' = circleBuffers))
       \<and> (\<forall>b s e. radius (arr ! b) < 0 \<and> s \<le> b \<and> b < e \<and> e \<le> length arr \<longrightarrow>
            deserializeCollisionBoxes arr s e = Inr [])
       \<and> (\<forall>s e. s < e \<and> e \<le> length arr \<and> (\<forall>k\<in>{s..<e}. radius (arr ! k) < 0) \<longrightarrow>
            (\<exists>circles. deserializeCollisionCircles arr s e = Inr circles
               \<and> circles \<noteq> [] \<and> length circles = 5 * (e - s)))"
proof -
  from generateCollisionDebugBuffers_emitted [of sis arr "(boxBuffers, circleBuffers)"] ranges cb cc
  obtain t where
    g: "generateCollisionDebugBuffers arr (Some boxBuffers, Some circleBuffers) sis
              = Inr ((Some (fst t), Some (snd t)),
                     map (\<lambda>si. si \<lparr> textCollisionFeature :=
                                      Some (textBoxStartIndex si, textBoxEndIndex si),
                                    iconCollisionFeature :=
                                      Some (iconBoxStartIndex si, iconBoxEndIndex si) \<rparr>) sis)"
    and em: "emitted arr (visitedRecords sis) (boxBuffers, circleBuffers) t"
    by auto
  from em obtain ib ic where
    a: "layoutVertexArray (fst t) = layoutVertexArray boxBuffers @
               concat (map (\<lambda>v. debugQuad (arr ! snd v) (fst v))
                         (boxVisits arr (visitedRecords sis)))"
    and b: "length ib = length (boxVisits arr (visitedRecords sis))"
       "indexArray (fst t) = indexArray boxBuffers @
                     concat (map (\<lambda>i. [Line i (i + 1), Line (i + 1) (i + 2),
                                        Line (i + 2) (i + 3), Line (i + 3) i]) ib)"
    and c: "layoutVertexArray (snd t) = layoutVertexArray circleBuffers @
               concat (map (\<lambda>v. debugQuad (arr ! snd v) (fst v))
                         (circleVisits arr (visitedRecords sis)))"
    and d: "length ic = length (circleVisits arr (visitedRecords sis))"
       "indexArray (snd t) = indexArray circleBuffers @
                     concat (map (\<lambda>i. [Triangle i (i + 1) (i + 2), Triangle i (i + 2) (i + 3)]) ic)"
    and e: "circleVisits arr (visitedRecords sis) = [] \<longrightarrow> snd t = circleBuffers"
    unfolding emitted_def by auto
  have n: "layoutVertexArray (fst t) = layoutVertexArray boxBuffers @
                  concat (map (\<lambda>v. debugQuad (arr ! snd v) (fst v)) (visitedRecords sis))
              \<and> length (indexArray (fst t))
                  = length (indexArray boxBuffers) + 4 * length (visitedRecords sis)
              \<and> snd t = circleBuffers"
    if neg: "\<forall>v\<in>set (visitedRecords sis). radius (arr ! snd v) < 0"
  proof -
    from neg have "\<forall>v\<in>set (visitedRecords sis). \<not> 0 < radius (arr ! snd v)" by fastforce
    then have bv: "boxVisits arr (visitedRecords sis) = visitedRecords sis"
      and cv: "circleVisits arr (visitedRecords sis) = []"
      by (simp_all add: boxVisits_def circleVisits_def)
    from a bv have 1: "layoutVertexArray (fst t) = layoutVertexArray boxBuffers @
                  concat (map (\<lambda>v. debugQuad (arr ! snd v) (fst v)) (visitedRecords sis))"
      by simp
    from b bv have 2: "length (indexArray (fst t))
                  = length (indexArray boxBuffers) + 4 * length (visitedRecords sis)"
      by (simp add: length_concat_fours)
    from e cv have 3: "snd t = circleBuffers" by simp
    from 1 2 3 show ?thesis by blast
  qed
  from g a b c d n have 1: "\<exists>boxBuffers' circleBuffers'.
            generateCollisionDebugBuffers arr (Some boxBuffers, Some circleBuffers) sis
              = Inr ((Some boxBuffers', Some circleBuffers'),
                     map (\<lambda>si. si \<lparr> textCollisionFeature :=
                                      Some (textBoxStartIndex si, textBoxEndIndex si),
                                    iconCollisionFeature :=
                                      Some (iconBoxStartIndex si, iconBoxEndIndex si) \<rparr>) sis)
          \<and> layoutVertexArray boxBuffers' = layoutVertexArray boxBuffers @
               concat (map (\<lambda>v. debugQuad (arr ! snd v) (fst v))
                         (boxVisits arr (visitedRecords sis)))
          \<and> (\<exists>ixs. length ixs = length (boxVisits arr (visitedRecords sis))
                \<and> indexArray boxBuffers' = indexArray boxBuffers @
                     concat (map (\<lambda>i. [Line i (i + 1), Line (i + 1) (i + 2),
                                        Line (i + 2) (i + 3), Line (i + 3) i]) ixs))
          \<and> layoutVertexArray circleBuffers' = layoutVertexArray circleBuffers @
               concat (map (\<lambda>v. debugQuad (arr ! snd v) (fst v))
                         (circleVisits arr (visitedRecords sis)))
          \<and> (\<exists>ixs. length ixs = length (circleVisits arr (visitedRecords sis))
                \<and> indexArray circleBuffers' = indexArray circleBuffers @
                     concat (map (\<lambda>i. [Triangle i (i + 1) (i + 2), Triangle i (i + 2) (i + 3)]) ixs))
          \<and> ((\<forall>v\<in>set (visitedRecords sis). radius (arr ! snd v) < 0) \<longrightarrow>
                layoutVertexArray boxBuffers' = layoutVertexArray boxBuffers @
                  concat (map (\<lambda>v. debugQuad (arr ! snd v) (fst v)) (visitedRecords sis))
              \<and> length (indexArray boxBuffers')
                  = length (indexArray boxBuffers) + 4 * length (visitedRecords sis)
              \<and> circleBuffers' = circleBuffers)"
    by (intro exI [of _ "fst t"] exI [of _ "snd t"]) blast
  have 2: "deserializeCollisionBoxes arr s e = Inr []"
    if range: "radius (arr ! b) < 0 \<and> s \<le> b \<and> b < e \<and> e \<le> length arr" for b s e
  proof -
    from range have ex: "\<exists>k\<in>{s..<e}. radius (arr ! k) \<noteq> 0"
      by (intro bexI [of _ b]) auto
    from range have e: "e \<le> length arr" by simp
    show ?thesis
      unfolding deserializeCollisionBoxes_def
      using deserializeBoxesLoop_eq [OF e, of s "[]"] ex by simp
  qed
  have 3: "\<exists>circles. deserializeCollisionCircles arr s e = Inr circles
               \<and> circles \<noteq> [] \<and> length circles = 5 * (e - s)"
    if range: "s < e \<and> e \<le> length arr \<and> (\<forall>k\<in>{s..<e}. radius (arr ! k) < 0)" for s e
  proof -
    from range have nz: "\<not> (\<exists>k\<in>{s..<e}. radius (arr ! k) = 0)" by fastforce
    from range have e: "e \<le> length arr" by simp
    have c: "deserializeCollisionCircles arr s e =
        Inr (concat (map (\<lambda>j. [Num (anchorPointX (arr ! j)), Num (anchorPointY (arr ! j)),
                                Num (radius (arr ! j)), Num (distanceToAnchor (arr ! j)),
                                Bool False]) [s..<e]))"
      unfolding deserializeCollisionCircles_def
      using deserializeCirclesLoop_eq [OF e, of s "[]"] nz by simp
    have len: "length (concat (map (\<lambda>j. [Num (anchorPointX (arr ! j)), Num (anchorPointY (arr ! j)),
                                Num (radius (arr ! j)), Num (distanceToAnchor (arr ! j)),
                                Bool False]) [s..<e])) = 5 * (e - s)"
      by (simp add: length_concat_const)
    moreover from range have "0 < 5 * (e - s)" by simp
    ultimately have "concat (map (\<lambda>j. [Num (anchorPointX (arr ! j)), Num (anchorPointY (arr ! j)),
                                Num (radius (arr ! j)), Num (distanceToAnchor (arr ! j)),
                                Bool False]) [s..<e]) \<noteq> []"
      by (metis length_greater_0_conv)
    with c len show ?thesis by blast
  qed
  from 1 2 3 show ?thesis by blast
qed


text \<open>
  The theorem on a record of radius -1 followed by a record of radius 2, the text box and the
  icon box of one symbol instance: the first goes to the \<open>collisionBox\<close> buffers as four
  lines, the second to the \<open>collisionCircle\<close> buffers; on the first alone
  \<open>deserializeCollisionBoxes\<close> returns the empty list and \<open>deserializeCollisionCircles\<close> five
  values.
\<close>

theorem negative_radius_classification_witness:
  "(\<exists>boxBuffers' circleBuffers' i.
      generateCollisionDebugBuffers exampleRecords (Some exampleBoxBuffers, Some exampleCircleBuffers)
          [exampleInstance]
        = Inr ((Some boxBuffers', Some circleBuffers'),
               [exampleInstance \<lparr> textCollisionFeature := Some (0, 1),
                                  iconCollisionFeature := Some (1, 2) \<rparr>])
    \<and> layoutVertexArray boxBuffers' = debugQuad (exampleBox (- 1)) exampleAnchor
    \<and> indexArray boxBuffers' =
         [Line i (i + 1), Line (i + 1) (i + 2), Line (i + 2) (i + 3), Line (i + 3) i]
    \<and> layoutVertexArray circleBuffers' = debugQuad (exampleBox 2) exampleAnchor)
   \<and> deserializeCollisionBoxes exampleRecords 0 1 = Inr []
   \<and> (\<exists>circles. deserializeCollisionCircles exampleRecords 0 1 = Inr circles
               \<and> circles \<noteq> [] \<and> length circles = 5)"
proof -
  have 1: "\<forall>si\<in>set [exampleInstance].
             textBoxEndIndex si \<le> length exampleRecords \<and> iconBoxEndIndex si \<le> length exampleRecords"
    by (simp add: exampleInstance_def exampleRecords_def)
  have 2: "collisionVertexArray exampleBoxBuffers \<noteq> None"
    by (simp add: exampleBoxBuffers_def newSymbolBuffers_def collisionBoxInterface_def)
  have 3: "collisionVertexArray exampleCircleBuffers \<noteq> None"
    by (simp add: exampleCircleBuffers_def newSymbolBuffers_def collisionCircleInterface_def)
  have 4: "indexArray exampleBoxBuffers = []" "layoutVertexArray exampleBoxBuffers = []"
    "layoutVertexArray exampleCircleBuffers = []"
    by (simp_all add: exampleBoxBuffers_def exampleCircleBuffers_def newSymbolBuffers_def)
  have u: "[0..<1::nat] = [0]" "[1..<2::nat] = [1]" "[Suc 0..<2] = [Suc 0]"
    by (simp_all add: upt_conv_Cons)
  have v: "visitedRecords [exampleInstance] = [(exampleAnchor, 0), (exampleAnchor, 1)]"
    by (simp add: visitedRecords_def exampleInstance_def u)
  have bv: "boxVisits exampleRecords (visitedRecords [exampleInstance]) = [(exampleAnchor, 0)]"
    and cv: "circleVisits exampleRecords (visitedRecords [exampleInstance]) = [(exampleAnchor, 1)]"
    by (simp_all add: v boxVisits_def circleVisits_def exampleRecords_def exampleBox_def)
  have f: "map (\<lambda>si. si \<lparr> textCollisionFeature := Some (textBoxStartIndex si, textBoxEndIndex si),
                          iconCollisionFeature := Some (iconBoxStartIndex si, iconBoxEndIndex si) \<rparr>)
             [exampleInstance]
           = [exampleInstance \<lparr> textCollisionFeature := Some (0, 1),
                                iconCollisionFeature := Some (1, 2) \<rparr>]"
    by (simp add: exampleInstance_def)
  have r: "radius (exampleRecords ! 0) < 0" "(0::nat) \<le> 0" "(0::nat) < 1" "1 \<le> length exampleRecords"
    by (simp_all add: exampleRecords_def exampleBox_def)
  have n: "\<forall>k\<in>{0..<1::nat}. radius (exampleRecords ! k) < 0"
    by (simp add: exampleRecords_def exampleBox_def)
  note T = negative_radius_classification [OF 1 2 3]
  from T [THEN conjunct1] obtain b' c' ixs where
    g: "generateCollisionDebugBuffers exampleRecords (Some exampleBoxBuffers, Some exampleCircleBuffers)
          [exampleInstance]
        = Inr ((Some b', Some c'),
               map (\<lambda>si. si \<lparr> textCollisionFeature := Some (textBoxStartIndex si, textBoxEndIndex si),
                          iconCollisionFeature := Some (iconBoxStartIndex si, iconBoxEndIndex si) \<rparr>)
                 [exampleInstance])"
    and lb: "layoutVertexArray b' = layoutVertexArray exampleBoxBuffers @
               concat (map (\<lambda>v. debugQuad (exampleRecords ! snd v) (fst v))
                         (boxVisits exampleRecords (visitedRecords [exampleInstance])))"
    and ib: "length ixs = length (boxVisits exampleRecords (visitedRecords [exampleInstance]))"
       "indexArray b' = indexArray exampleBoxBuffers @
                     concat (map (\<lambda>i. [Line i (i + 1), Line (i + 1) (i + 2),
                                        Line (i + 2) (i + 3), Line (i + 3) i]) ixs)"
    and lc: "layoutVertexArray c' = layoutVertexArray exampleCircleBuffers @
               concat (map (\<lambda>v. debugQuad (exampleRecords ! snd v) (fst v))
                         (circleVisits exampleRecords (visitedRecords [exampleInstance])))"
    by blast
  from ib(1) bv obtain i where i: "ixs = [i]" by (cases ixs) simp_all
  from lb [unfolded bv] have lb': "layoutVertexArray b' = debugQuad (exampleBox (- 1)) exampleAnchor"
    by (simp add: 4 exampleRecords_def)
  from ib(2) have ib': "indexArray b' =
         [Line i (i + 1), Line (i + 1) (i + 2), Line (i + 2) (i + 3), Line (i + 3) i]"
    by (simp add: i 4)
  from lc [unfolded cv] have lc': "layoutVertexArray c' = debugQuad (exampleBox 2) exampleAnchor"
    by (simp add: 4 exampleRecords_def)
  from g lb' ib' lc' have A: "\<exists>boxBuffers' circleBuffers' i.
      generateCollisionDebugBuffers exampleRecords (Some exampleBoxBuffers, Some exampleCircleBuffers)
          [exampleInstance]
        = Inr ((Some boxBuffers', Some circleBuffers'),
               [exampleInstance \<lparr> textCollisionFeature := Some (0, 1),
                                  iconCollisionFeature := Some (1, 2) \<rparr>])
    \<and> layoutVertexArray boxBuffers' = debugQuad (exampleBox (- 1)) exampleAnchor
    \<and> indexArray boxBuffers' =
         [Line i (i + 1), Line (i + 1) (i + 2), Line (i + 2) (i + 3), Line (i + 3) i]
    \<and> layoutVertexArray circleBuffers' = debugQuad (exampleBox 2) exampleAnchor"
    unfolding f by blast
  from T [THEN conjunct2, THEN conjunct1, rule_format, of 0 0 1] r
  have B: "deserializeCollisionBoxes exampleRecords 0 1 = Inr []" by blast
  from T [THEN conjunct2, THEN conjunct2, rule_format, of 0 1] r n
  have C: "\<exists>circles. deserializeCollisionCircles exampleRecords 0 1 = Inr circles
               \<and> circles \<noteq> [] \<and> length circles = 5" by simp
  from A B C show ?thesis by blast
qed

subsection \<open>Reading back what was stored\<close>

lemma js_trunc_of_nat [simp]: "js_trunc (real n) = int n"
  by (simp add: js_trunc_def)

lemma js_trunc_of_int [simp]: "js_trunc (real_of_int k) = k"
  by (simp add: js_trunc_def)

lemma toUint16_nat: "n < 65536 \<Longrightarrow> unat (toUint16 (real n)) = n"
  by (simp add: toUint16_def unat_of_nat)

lemma toUint32_nat: "n < 4294967296 \<Longrightarrow> unat (toUint32 (real n)) = n"
  by (simp add: toUint32_def unat_of_nat)

lemma toUint8_nat: "n < 256 \<Longrightarrow> unat (toUint8 (real n)) = n"
  by (simp add: toUint8_def unat_of_nat)

lemma toInt16_in_range:
  "- 32768 \<le> js_trunc v \<Longrightarrow> js_trunc v < 32768 \<Longrightarrow> sint (toInt16 v) = js_trunc v"
  by (simp add: toInt16_def signed_of_int signed_take_bit_int_eq_self)

subsection \<open>C2 and C3: what addSymbols appends\<close>

lemma prepareSegment_room:
  "vertexLength (last (prepareSegment n lva ia segs)) + n \<le> MAX_VERTEX_ARRAY_LENGTH \<or>
   vertexLength (last (prepareSegment n lva ia segs)) = 0"
  by (auto simp: prepareSegment_def)

lemma segment_grown_refl: "segment_grown s s"
  by (simp add: segment_grown_def)

lemma segment_grown_trans: "segment_grown s t \<Longrightarrow> segment_grown t u \<Longrightarrow> segment_grown s u"
  by (auto simp: segment_grown_def)

lemma segment_covers_grown:
  "segment_covers s i v p n \<Longrightarrow> segment_grown s t \<Longrightarrow> segment_covers t i v p n"
  by (auto simp: segment_covers_def segment_grown_def)

lemma segments_grown_trans:
  assumes "\<forall>s\<in>set a. \<exists>t\<in>set b. segment_grown s t" and "\<forall>s\<in>set b. \<exists>t\<in>set c. segment_grown s t"
  shows "\<forall>s\<in>set a. \<exists>t\<in>set c. segment_grown s t"
  using assms by (meson segment_grown_trans)

text \<open>What \<open>prepareSegment\<close> followed by the two increments does to a current segment vector.\<close>

lemma prepare_and_grow:
  fixes n :: nat
  assumes cur: "segs = [] \<or>
     (vertexOffset (last segs) + vertexLength (last segs) = length lva
      \<and> primitiveOffset (last segs) + primitiveLength (last segs) = length ia)"
  defines "i \<equiv> vertexLength (last (prepareSegment 4 lva ia segs))"
  defines "segs' \<equiv> growSegment 4 n (prepareSegment 4 lva ia segs)"
  shows "segs' \<noteq> []"
    and "vertexOffset (last segs') + vertexLength (last segs') = length lva + 4"
    and "primitiveOffset (last segs') + primitiveLength (last segs') = length ia + n"
    and "segment_covers (last segs') i (length lva) (length ia) n"
    and "\<forall>s\<in>set segs. \<exists>t\<in>set segs'. segment_grown s t"
proof -
  show "segs' \<noteq> []" by (simp add: segs'_def growSegment_def)
  show "vertexOffset (last segs') + vertexLength (last segs') = length lva + 4"
    using cur by (auto simp: segs'_def growSegment_def prepareSegment_def)
  show "primitiveOffset (last segs') + primitiveLength (last segs') = length ia + n"
    using cur by (auto simp: segs'_def growSegment_def prepareSegment_def)
  show "segment_covers (last segs') i (length lva) (length ia) n"
    using cur by (auto simp: segs'_def i_def growSegment_def prepareSegment_def segment_covers_def)
  show "\<forall>s\<in>set segs. \<exists>t\<in>set segs'. segment_grown s t"
  proof
    fix s assume s: "s \<in> set segs"
    then have ne: "segs \<noteq> []" by auto
    show "\<exists>t\<in>set segs'. segment_grown s t"
    proof (cases "MAX_VERTEX_ARRAY_LENGTH < vertexLength (last segs) + 4")
      case True
      then have "segs' = segs @ [\<lparr> vertexOffset = length lva, primitiveOffset = length ia,
                                   vertexLength = 4, primitiveLength = n \<rparr>]"
        by (simp add: segs'_def growSegment_def prepareSegment_def)
      with s show ?thesis by (auto intro: segment_grown_refl)
    next
      case False
      with ne have eq: "segs' = butlast segs @
          [(last segs) \<lparr> vertexLength := vertexLength (last segs) + 4,
                         primitiveLength := primitiveLength (last segs) + n \<rparr>]"
        by (simp add: segs'_def growSegment_def prepareSegment_def)
      from ne have "segs = butlast segs @ [last segs]" by simp
      with s have "s \<in> set (butlast segs) \<or> s = last segs"
        by (metis Un_iff append_butlast_last_id empty_iff empty_set set_ConsD set_append)
      then show ?thesis
      proof
        assume "s \<in> set (butlast segs)"
        with eq show ?thesis by (auto intro: segment_grown_refl)
      next
        assume l: "s = last segs"
        have "segment_grown s ((last segs) \<lparr> vertexLength := vertexLength (last segs) + 4,
                         primitiveLength := primitiveLength (last segs) + n \<rparr>)"
          by (simp add: l segment_grown_def)
        with eq show ?thesis by auto
      qed
    qed
  qed
qed

lemma addSymbol_step:
  assumes d: "dynamicLayoutVertexArray arrays = Some dyn"
    and o: "opacityVertexArray arrays = Some opa"
    and cur: "segments_current arrays"
  defines "i \<equiv> vertexLength (last (prepareSegment 4 (layoutVertexArray arrays)
                                             (indexArray arrays) (segments arrays)))"
  shows "\<exists>arrays' vs. addSymbol num pz sv anchor (arrays, glyphs) q
                    = Inr (arrays', glyphs @ [fround num (fst (glyphOffset q))])
          \<and> layoutVertexArray arrays' = layoutVertexArray arrays @ vs \<and> length vs = 4
          \<and> indexArray arrays' = indexArray arrays @
               [Triangle i (i + 1) (i + 2), Triangle (i + 1) (i + 2) (i + 3)]
          \<and> segments_current arrays'
          \<and> segment_covers (last (segments arrays')) i (length (layoutVertexArray arrays))
               (length (indexArray arrays)) 2
          \<and> segments arrays' \<noteq> []
          \<and> (\<forall>s\<in>set (segments arrays). \<exists>t\<in>set (segments arrays'). segment_grown s t)
          \<and> dynamicLayoutVertexArray arrays' \<noteq> None
          \<and> opacityVertexArray arrays' \<noteq> None
          \<and> paintArrayCalls arrays' = paintArrayCalls arrays"
proof -
  from cur have c: "segments arrays = [] \<or>
     (vertexOffset (last (segments arrays)) + vertexLength (last (segments arrays))
        = length (layoutVertexArray arrays)
      \<and> primitiveOffset (last (segments arrays)) + primitiveLength (last (segments arrays))
        = length (indexArray arrays))"
    by (simp add: segments_current_def)
  note pg = prepare_and_grow [OF c, of 2]
  define segs' where "segs' = growSegment 4 2 (prepareSegment 4 (layoutVertexArray arrays)
                                (indexArray arrays) (segments arrays))"
  obtain arrays' where
    r: "addSymbol num pz sv anchor (arrays, glyphs) q
          = Inr (arrays', glyphs @ [fround num (fst (glyphOffset q))])"
    and lv: "\<exists>vs. layoutVertexArray arrays' = layoutVertexArray arrays @ vs \<and> length vs = 4"
    and ia: "indexArray arrays' = indexArray arrays @
               [Triangle i (i + 1) (i + 2), Triangle (i + 1) (i + 2) (i + 3)]"
    and sg: "segments arrays' = segs'"
    and dn: "dynamicLayoutVertexArray arrays' \<noteq> None"
    and on: "opacityVertexArray arrays' \<noteq> None"
    and pc: "paintArrayCalls arrays' = paintArrayCalls arrays"
    using d o
    by (simp add: addSymbol_def Let_def addDynamicAttributes_def addVertex_def i_def segs'_def)
  from lv obtain vs where vs: "layoutVertexArray arrays' = layoutVertexArray arrays @ vs"
    "length vs = 4" by blast
  have cur': "segments_current arrays'"
    using pg(2,3) by (simp add: segments_current_def sg segs'_def vs ia)
  have cov: "segment_covers (last (segments arrays')) i (length (layoutVertexArray arrays))
               (length (indexArray arrays)) 2"
    using pg(4) by (simp add: sg segs'_def i_def)
  have ne: "segments arrays' \<noteq> []" using pg(1) by (simp add: sg segs'_def)
  have gr: "\<forall>s\<in>set (segments arrays). \<exists>t\<in>set (segments arrays'). segment_grown s t"
    using pg(5) by (simp add: sg segs'_def)
  from r vs ia cur' cov ne gr dn on pc show ?thesis by blast
qed


lemma addSymbols_loop_props:
  assumes "dynamicLayoutVertexArray arrays \<noteq> None" and "opacityVertexArray arrays \<noteq> None"
    and "segments_current arrays"
  shows "\<exists>arrays' ixs vs. addSymbols_loop num pz sv anchor (arrays, glyphs) quads
                    = Inr (arrays', glyphs @ map (\<lambda>q. fround num (fst (glyphOffset q))) quads)
          \<and> layoutVertexArray arrays' = layoutVertexArray arrays @ vs
          \<and> length vs = 4 * length quads
          \<and> length ixs = length quads
          \<and> (\<forall>i\<in>set ixs. i + 4 \<le> MAX_VERTEX_ARRAY_LENGTH)
          \<and> indexArray arrays' = indexArray arrays @
               concat (map (\<lambda>i. [Triangle i (i + 1) (i + 2), Triangle (i + 1) (i + 2) (i + 3)]) ixs)
          \<and> (\<forall>j<length quads. \<exists>s\<in>set (segments arrays').
                segment_covers s (ixs ! j) (length (layoutVertexArray arrays) + 4 * j)
                  (length (indexArray arrays) + 2 * j) 2)
          \<and> segments_current arrays'
          \<and> (\<forall>s\<in>set (segments arrays). \<exists>t\<in>set (segments arrays'). segment_grown s t)
          \<and> paintArrayCalls arrays' = paintArrayCalls arrays"
  using assms
proof (induction quads arbitrary: arrays glyphs)
  case Nil
  show ?case
    by (rule exI [of _ arrays], rule exI [of _ "[]"], rule exI [of _ "[]"])
       (auto simp: Nil.prems intro: segment_grown_refl)
next
  case (Cons q quads)
  from Cons.prems obtain dyn opa where
    d: "dynamicLayoutVertexArray arrays = Some dyn" and p: "opacityVertexArray arrays = Some opa"
    by auto
  define i where "i = vertexLength (last (prepareSegment 4 (layoutVertexArray arrays)
                                             (indexArray arrays) (segments arrays)))"
  from addSymbol_step [OF d p Cons.prems(3), of num pz sv anchor glyphs q]
  obtain a1 vs1 where s1: "addSymbol num pz sv anchor (arrays, glyphs) q
                    = Inr (a1, glyphs @ [fround num (fst (glyphOffset q))])"
    and l1: "layoutVertexArray a1 = layoutVertexArray arrays @ vs1" "length vs1 = 4"
    and i1: "indexArray a1 = indexArray arrays @
               [Triangle i (i + 1) (i + 2), Triangle (i + 1) (i + 2) (i + 3)]"
    and w1: "segments_current a1"
    and v1: "segment_covers (last (segments a1)) i (length (layoutVertexArray arrays))
               (length (indexArray arrays)) 2"
    and n1: "segments a1 \<noteq> []"
    and g1: "\<forall>s\<in>set (segments arrays). \<exists>t\<in>set (segments a1). segment_grown s t"
    and d1: "dynamicLayoutVertexArray a1 \<noteq> None" and p1: "opacityVertexArray a1 \<noteq> None"
    and c1: "paintArrayCalls a1 = paintArrayCalls arrays"
    unfolding i_def by blast
  from Cons.IH [OF d1 p1 w1, of "glyphs @ [fround num (fst (glyphOffset q))]"]
  obtain a2 ixs vs2 where
    s2: "addSymbols_loop num pz sv anchor (a1, glyphs @ [fround num (fst (glyphOffset q))]) quads
           = Inr (a2, (glyphs @ [fround num (fst (glyphOffset q))])
                        @ map (\<lambda>q. fround num (fst (glyphOffset q))) quads)"
    and l2: "layoutVertexArray a2 = layoutVertexArray a1 @ vs2" "length vs2 = 4 * length quads"
    and n2: "length ixs = length quads"
    and b2: "\<forall>i\<in>set ixs. i + 4 \<le> MAX_VERTEX_ARRAY_LENGTH"
    and i2: "indexArray a2 = indexArray a1 @
               concat (map (\<lambda>i. [Triangle i (i + 1) (i + 2), Triangle (i + 1) (i + 2) (i + 3)]) ixs)"
    and v2: "\<forall>j<length quads. \<exists>s\<in>set (segments a2).
                segment_covers s (ixs ! j) (length (layoutVertexArray a1) + 4 * j)
                  (length (indexArray a1) + 2 * j) 2"
    and w2: "segments_current a2"
    and g2: "\<forall>s\<in>set (segments a1). \<exists>t\<in>set (segments a2). segment_grown s t"
    and c2: "paintArrayCalls a2 = paintArrayCalls a1"
    by blast
  have bi: "i + 4 \<le> MAX_VERTEX_ARRAY_LENGTH"
    using prepareSegment_room [of 4 "layoutVertexArray arrays" "indexArray arrays" "segments arrays"]
    unfolding i_def by (auto simp: MAX_VERTEX_ARRAY_LENGTH_def)
  have cov: "\<exists>s\<in>set (segments a2).
                segment_covers s ((i # ixs) ! j) (length (layoutVertexArray arrays) + 4 * j)
                  (length (indexArray arrays) + 2 * j) 2"
    if j: "j < length (q # quads)" for j
  proof (cases j)
    case 0
    from n1 have "last (segments a1) \<in> set (segments a1)" by simp
    with g2 obtain t where t: "t \<in> set (segments a2)" "segment_grown (last (segments a1)) t"
      by blast
    from segment_covers_grown [OF v1 t(2)] t(1) 0 show ?thesis by auto
  next
    case (Suc k)
    with j have k: "k < length quads" by simp
    from v2 k obtain s where s: "s \<in> set (segments a2)"
      "segment_covers s (ixs ! k) (length (layoutVertexArray a1) + 4 * k)
                  (length (indexArray a1) + 2 * k) 2" by blast
    have e: "length (layoutVertexArray a1) + 4 * k = length (layoutVertexArray arrays) + 4 * j"
      "length (indexArray a1) + 2 * k = length (indexArray arrays) + 2 * j"
      by (simp_all add: l1 i1 Suc)
    from s e Suc show ?thesis by auto
  qed
  have gr: "\<forall>s\<in>set (segments arrays). \<exists>t\<in>set (segments a2). segment_grown s t"
    by (rule segments_grown_trans [OF g1 g2])
  have r: "addSymbols_loop num pz sv anchor (arrays, glyphs) (q # quads)
             = Inr (a2, glyphs @ map (\<lambda>q. fround num (fst (glyphOffset q))) (q # quads))"
    by (simp add: s1 s2)
  have lv: "layoutVertexArray a2 = layoutVertexArray arrays @ (vs1 @ vs2)"
    "length (vs1 @ vs2) = 4 * length (q # quads)"
    by (simp_all add: l1 l2)
  have ni: "length (i # ixs) = length (q # quads)" by (simp add: n2)
  have bs: "\<forall>i\<in>set (i # ixs). i + 4 \<le> MAX_VERTEX_ARRAY_LENGTH" using bi b2 by simp
  have ix: "indexArray a2 = indexArray arrays @
               concat (map (\<lambda>i. [Triangle i (i + 1) (i + 2), Triangle (i + 1) (i + 2) (i + 3)])
                        (i # ixs))"
    by (simp add: i1 i2)
  have pc: "paintArrayCalls a2 = paintArrayCalls arrays" by (simp add: c1 c2)
  from r lv ni bs ix cov w2 gr pc show ?case by blast
qed

lemma length_concat_pairs:
  "length (concat (map (\<lambda>i. [g i, h i]) xs)) = 2 * length xs"
  by (induction xs) simp_all

lemma addCollisionDebugVertices_props:
  assumes c: "collisionVertexArray arrays = Some cva" and cur: "segments_current arrays"
  defines "i \<equiv> vertexLength (last (prepareSegment 4 (layoutVertexArray arrays)
                                             (indexArray arrays) (segments arrays)))"
  shows "\<exists>arrays' vs. addCollisionDebugVertices x1 y1 x2 y2 arrays p si isCircle = Inr arrays'
          \<and> layoutVertexArray arrays' = layoutVertexArray arrays @ vs \<and> length vs = 4
          \<and> indexArray arrays' = indexArray arrays @
               (if isCircle then [Triangle i (i + 1) (i + 2), Triangle i (i + 2) (i + 3)]
                else [Line i (i + 1), Line (i + 1) (i + 2), Line (i + 2) (i + 3), Line (i + 3) i])
          \<and> collisionVertexArray arrays' = Some (cva @ replicate 4 (0, 0))
          \<and> segments_current arrays'
          \<and> segments arrays' \<noteq> []
          \<and> segment_covers (last (segments arrays')) i (length (layoutVertexArray arrays))
               (length (indexArray arrays)) (if isCircle then 2 else 4)"
proof -
  from cur have c0: "segments arrays = [] \<or>
     (vertexOffset (last (segments arrays)) + vertexLength (last (segments arrays))
        = length (layoutVertexArray arrays)
      \<and> primitiveOffset (last (segments arrays)) + primitiveLength (last (segments arrays))
        = length (indexArray arrays))"
    by (simp add: segments_current_def)
  note pg = prepare_and_grow [OF c0, of "if isCircle then 2 else 4"]
  define segs' where "segs' = growSegment 4 (if isCircle then 2 else 4)
      (prepareSegment 4 (layoutVertexArray arrays) (indexArray arrays) (segments arrays))"
  obtain arrays' where
    r: "addCollisionDebugVertices x1 y1 x2 y2 arrays p si isCircle = Inr arrays'"
    and lv: "\<exists>vs. layoutVertexArray arrays' = layoutVertexArray arrays @ vs \<and> length vs = 4"
    and ia: "indexArray arrays' = indexArray arrays @
               (if isCircle then [Triangle i (i + 1) (i + 2), Triangle i (i + 2) (i + 3)]
                else [Line i (i + 1), Line (i + 1) (i + 2), Line (i + 2) (i + 3), Line (i + 3) i])"
    and cv: "collisionVertexArray arrays' = Some (cva @ replicate 4 (0, 0))"
    and sg: "segments arrays' = segs'"
    using c
    by (simp add: addCollisionDebugVertices_def Let_def addCollisionDebugVertex_def i_def
          segs'_def numeral_eq_Suc)
  from lv obtain vs where vs: "layoutVertexArray arrays' = layoutVertexArray arrays @ vs"
    "length vs = 4" by blast
  have cur': "segments_current arrays'"
    using pg(2,3) by (simp add: segments_current_def sg segs'_def vs ia)
  have ne: "segments arrays' \<noteq> []" using pg(1) by (simp add: sg segs'_def)
  have cov: "segment_covers (last (segments arrays')) i (length (layoutVertexArray arrays))
               (length (indexArray arrays)) (if isCircle then 2 else 4)"
    using pg(4) by (simp add: sg segs'_def i_def)
  from r vs ia cv cur' ne cov show ?thesis by blast
qed


lemma addSymbols_loop_returns:
  assumes "dynamicLayoutVertexArray arrays \<noteq> None" and "opacityVertexArray arrays \<noteq> None"
  shows "\<exists>arrays'. addSymbols_loop num pz sv anchor (arrays, glyphs) quads
                    = Inr (arrays', glyphs @ map (\<lambda>q. fround num (fst (glyphOffset q))) quads)
           \<and> dynamicLayoutVertexArray arrays' \<noteq> None \<and> opacityVertexArray arrays' \<noteq> None"
  using assms
proof (induction quads arbitrary: arrays glyphs)
  case Nil
  then show ?case by simp
next
  case (Cons q quads)
  from Cons.prems obtain dyn opa where
    d: "dynamicLayoutVertexArray arrays = Some dyn" and p: "opacityVertexArray arrays = Some opa"
    by auto
  obtain a1 where s1: "addSymbol num pz sv anchor (arrays, glyphs) q
                    = Inr (a1, glyphs @ [fround num (fst (glyphOffset q))])"
    and d1: "dynamicLayoutVertexArray a1 \<noteq> None" and p1: "opacityVertexArray a1 \<noteq> None"
    using d p by (simp add: addSymbol_def Let_def addDynamicAttributes_def)
  from Cons.IH [OF d1 p1, of "glyphs @ [fround num (fst (glyphOffset q))]"] s1
  show ?case by auto
qed

text \<open>
  C2. On a buffer set that has the dynamic layout and opacity arrays (the text and icon sets)
  and whose last segment is current, a call of \<open>addSymbols\<close> with \<open>k\<close> quads returns; the
  layout vertex array has grown by \<open>4k\<close> records behind the old ones and the index array by
  \<open>2k\<close> triangles, two per quad, of the form \<open>(i, i+1, i+2)\<close> and \<open>(i+1, i+2, i+3)\<close>. The \<open>i\<close>
  of quad \<open>j\<close> is relative to the vertex base of a segment of the resulting buffer set: that
  segment's \<open>vertexOffset\<close> plus \<open>i\<close> is the position \<open>4j\<close> behind the old end of the layout
  vertex array, where the four vertices of the quad are, the four vertices lie inside the
  segment's vertex window, and the two triangles inside its primitive window; \<open>i + 4\<close> stays
  within the 16-bit limit. The last segment is current again afterwards.
  On a buffer set with a collision vertex array and a current last segment,
  \<open>addCollisionDebugVertices\<close> appends four vertices and, for a box, the four line primitives
  \<open>(i, i+1)\<close>, \<open>(i+1, i+2)\<close>, \<open>(i+2, i+3)\<close>, \<open>(i+3, i)\<close>, for a circle the two triangles
  \<open>(i, i+1, i+2)\<close> and \<open>(i, i+2, i+3)\<close>, with \<open>i\<close> relative to the vertex base of the last
  segment in the same way.
\<close>

theorem addSymbols_vertex_and_index_growth:
  assumes "dynamicLayoutVertexArray arrays \<noteq> None" and "opacityVertexArray arrays \<noteq> None"
    and "segments_current arrays"
  shows "(\<exists>glyphs' arrays' placed' ixs vs.
            addSymbols num z glyphs arrays quads sv loff al f wm anchor ls ll placed
              = Inr (glyphs', arrays', placed')
          \<and> layoutVertexArray arrays' = layoutVertexArray arrays @ vs
          \<and> length vs = 4 * length quads
          \<and> length (layoutVertexArray arrays') = length (layoutVertexArray arrays) + 4 * length quads
          \<and> length (indexArray arrays') = length (indexArray arrays) + 2 * length quads
          \<and> length ixs = length quads
          \<and> (\<forall>i\<in>set ixs. i + 4 \<le> MAX_VERTEX_ARRAY_LENGTH)
          \<and> indexArray arrays' = indexArray arrays @
               concat (map (\<lambda>i. [Triangle i (i + 1) (i + 2), Triangle (i + 1) (i + 2) (i + 3)]) ixs)
          \<and> (\<forall>j<length quads. \<exists>s\<in>set (segments arrays').
                segment_covers s (ixs ! j) (length (layoutVertexArray arrays) + 4 * j)
                  (length (indexArray arrays) + 2 * j) 2)
          \<and> segments_current arrays')
       \<and> (collisionVertexArray debugArrays \<noteq> None \<and> segments_current debugArrays \<longrightarrow>
            (\<exists>arrays' i vs. addCollisionDebugVertices x1 y1 x2 y2 debugArrays p si False = Inr arrays'
               \<and> layoutVertexArray arrays' = layoutVertexArray debugArrays @ vs \<and> length vs = 4
               \<and> indexArray arrays' = indexArray debugArrays @
                    [Line i (i + 1), Line (i + 1) (i + 2), Line (i + 2) (i + 3), Line (i + 3) i]
               \<and> segments arrays' \<noteq> []
               \<and> segment_covers (last (segments arrays')) i (length (layoutVertexArray debugArrays))
                    (length (indexArray debugArrays)) 4
               \<and> segments_current arrays')
          \<and> (\<exists>arrays' i vs. addCollisionDebugVertices x1 y1 x2 y2 debugArrays p si True = Inr arrays'
               \<and> layoutVertexArray arrays' = layoutVertexArray debugArrays @ vs \<and> length vs = 4
               \<and> indexArray arrays' = indexArray debugArrays @
                    [Triangle i (i + 1) (i + 2), Triangle i (i + 2) (i + 3)]
               \<and> segments arrays' \<noteq> []
               \<and> segment_covers (last (segments arrays')) i (length (layoutVertexArray debugArrays))
                    (length (indexArray debugArrays)) 2
               \<and> segments_current arrays'))"
proof -
  from addSymbols_loop_props [OF assms, of num z sv anchor glyphs quads]
  obtain a ixs vs where
    s: "addSymbols_loop num z sv anchor (arrays, glyphs) quads
          = Inr (a, glyphs @ map (\<lambda>q. fround num (fst (glyphOffset q))) quads)"
    and l: "layoutVertexArray a = layoutVertexArray arrays @ vs" "length vs = 4 * length quads"
    and n: "length ixs = length quads"
    and b: "\<forall>i\<in>set ixs. i + 4 \<le> MAX_VERTEX_ARRAY_LENGTH"
    and i: "indexArray a = indexArray arrays @
              concat (map (\<lambda>i. [Triangle i (i + 1) (i + 2), Triangle (i + 1) (i + 2) (i + 3)]) ixs)"
    and c: "\<forall>j<length quads. \<exists>s\<in>set (segments a).
                segment_covers s (ixs ! j) (length (layoutVertexArray arrays) + 4 * j)
                  (length (indexArray arrays) + 2 * j) 2"
    and w: "segments_current a"
    by blast
  define a' where "a' = a \<lparr> paintArrayCalls := paintArrayCalls a @
                               [(length (layoutVertexArray a), f)] \<rparr>"
  have f: "layoutVertexArray a' = layoutVertexArray a" "indexArray a' = indexArray a"
    "segments a' = segments a" "segments_current a'"
    using w by (simp_all add: a'_def segments_current_def)
  have r: "\<exists>g p. addSymbols num z glyphs arrays quads sv loff al f wm anchor ls ll placed
             = Inr (g, a', p)"
    by (simp add: addSymbols_def Let_def s a'_def)
  have ll: "length (layoutVertexArray a') = length (layoutVertexArray arrays) + 4 * length quads"
    by (simp add: f l)
  have li: "length (indexArray a') = length (indexArray arrays) + 2 * length quads"
    by (simp add: f i n length_concat_pairs)
  from r l ll li n b i c f have 1: "\<exists>glyphs' arrays' placed' ixs vs.
            addSymbols num z glyphs arrays quads sv loff al f wm anchor ls ll placed
              = Inr (glyphs', arrays', placed')
          \<and> layoutVertexArray arrays' = layoutVertexArray arrays @ vs
          \<and> length vs = 4 * length quads
          \<and> length (layoutVertexArray arrays') = length (layoutVertexArray arrays) + 4 * length quads
          \<and> length (indexArray arrays') = length (indexArray arrays) + 2 * length quads
          \<and> length ixs = length quads
          \<and> (\<forall>i\<in>set ixs. i + 4 \<le> MAX_VERTEX_ARRAY_LENGTH)
          \<and> indexArray arrays' = indexArray arrays @
               concat (map (\<lambda>i. [Triangle i (i + 1) (i + 2), Triangle (i + 1) (i + 2) (i + 3)]) ixs)
          \<and> (\<forall>j<length quads. \<exists>s\<in>set (segments arrays').
                segment_covers s (ixs ! j) (length (layoutVertexArray arrays) + 4 * j)
                  (length (indexArray arrays) + 2 * j) 2)
          \<and> segments_current arrays'"
    by (metis (no_types, lifting))
  have 2: "(\<exists>arrays' i vs. addCollisionDebugVertices x1 y1 x2 y2 debugArrays p si False = Inr arrays'
               \<and> layoutVertexArray arrays' = layoutVertexArray debugArrays @ vs \<and> length vs = 4
               \<and> indexArray arrays' = indexArray debugArrays @
                    [Line i (i + 1), Line (i + 1) (i + 2), Line (i + 2) (i + 3), Line (i + 3) i]
               \<and> segments arrays' \<noteq> []
               \<and> segment_covers (last (segments arrays')) i (length (layoutVertexArray debugArrays))
                    (length (indexArray debugArrays)) 4
               \<and> segments_current arrays')
          \<and> (\<exists>arrays' i vs. addCollisionDebugVertices x1 y1 x2 y2 debugArrays p si True = Inr arrays'
               \<and> layoutVertexArray arrays' = layoutVertexArray debugArrays @ vs \<and> length vs = 4
               \<and> indexArray arrays' = indexArray debugArrays @
                    [Triangle i (i + 1) (i + 2), Triangle i (i + 2) (i + 3)]
               \<and> segments arrays' \<noteq> []
               \<and> segment_covers (last (segments arrays')) i (length (layoutVertexArray debugArrays))
                    (length (indexArray debugArrays)) 2
               \<and> segments_current arrays')"
    if h: "collisionVertexArray debugArrays \<noteq> None \<and> segments_current debugArrays"
  proof -
    from h obtain cva where cva: "collisionVertexArray debugArrays = Some cva"
      and cur: "segments_current debugArrays" by auto
    from addCollisionDebugVertices_props [OF cva cur, of x1 y1 x2 y2 p si False]
    have A: "\<exists>arrays' i vs. addCollisionDebugVertices x1 y1 x2 y2 debugArrays p si False = Inr arrays'
               \<and> layoutVertexArray arrays' = layoutVertexArray debugArrays @ vs \<and> length vs = 4
               \<and> indexArray arrays' = indexArray debugArrays @
                    [Line i (i + 1), Line (i + 1) (i + 2), Line (i + 2) (i + 3), Line (i + 3) i]
               \<and> segments arrays' \<noteq> []
               \<and> segment_covers (last (segments arrays')) i (length (layoutVertexArray debugArrays))
                    (length (indexArray debugArrays)) 4
               \<and> segments_current arrays'"
      by (simp only: if_False) blast
    from addCollisionDebugVertices_props [OF cva cur, of x1 y1 x2 y2 p si True]
    have B: "\<exists>arrays' i vs. addCollisionDebugVertices x1 y1 x2 y2 debugArrays p si True = Inr arrays'
               \<and> layoutVertexArray arrays' = layoutVertexArray debugArrays @ vs \<and> length vs = 4
               \<and> indexArray arrays' = indexArray debugArrays @
                    [Triangle i (i + 1) (i + 2), Triangle i (i + 2) (i + 3)]
               \<and> segments arrays' \<noteq> []
               \<and> segment_covers (last (segments arrays')) i (length (layoutVertexArray debugArrays))
                    (length (indexArray debugArrays)) 2
               \<and> segments_current arrays'"
      by (simp only: if_True) blast
    from A B show ?thesis by (rule conjI)
  qed
  from 1 2 show ?thesis by blast
qed

text \<open>
  C3. A call of \<open>addSymbols\<close>, with any list of quads on a text or icon buffer set and with the
  empty list on any buffer set, appends exactly one record to the placed symbol array it was
  given. The record holds what the members of the array keep of the values passed: the
  coordinates of the label anchor as \<open>Int16\<close>, the length of the glyph offset array before the
  call and the number of quads as \<open>Uint16\<close>, the line range that was passed as \<open>Uint32\<close>, the
  segment of the anchor and the two components of the size vertex as \<open>Uint16\<close> (0 when there
  is none), the line offset and the zoom of the bucket as \<open>Float32\<close>, the writing mode as
  \<open>Uint8\<close>, and 0 for \<open>hidden = false\<close>. Read back, the start of the glyph range is the length
  of the glyph offset array before the call when that length is below 65536, and the count is
  the number of quads when that is below 65536; the line range, the segment and the writing
  mode are the ones passed when they fit their members; an anchor coordinate is read back as
  its integer part when that lies between -32768 and 32767. The glyph offset array has grown
  by the first glyph offset component of each quad, as \<open>Float32\<close>.
\<close>

theorem addSymbols_placed_entry:
  assumes "quads = [] \<or> (dynamicLayoutVertexArray arrays \<noteq> None \<and> opacityVertexArray arrays \<noteq> None)"
  shows "\<exists>arrays' entry.
           addSymbols num z glyphs arrays quads sv loff al f wm anchor ls ll placed
             = Inr (glyphs @ map (\<lambda>q. fround num (fst (glyphOffset q))) quads,
                    arrays', placed @ [entry])
         \<and> entry =
             \<lparr> anchorX = toInt16 (point_x anchor), anchorY = toInt16 (point_y anchor),
               glyphStartIndex = toUint16 (real (length glyphs)),
               numGlyphs = toUint16 (real (length quads)),
               lineStartIndex = toUint32 (real ls), lineLength = toUint32 (real ll),
               placed_segment = (case segment anchor of None \<Rightarrow> 0 | Some s \<Rightarrow> toUint16 (real s)),
               lowerSize = (case sv of None \<Rightarrow> 0 | Some v \<Rightarrow> toUint16 (fst v)),
               upperSize = (case sv of None \<Rightarrow> 0 | Some v \<Rightarrow> toUint16 (snd v)),
               lineOffsetX = fround num (fst loff), lineOffsetY = fround num (snd loff),
               placementZoom = fround num z, writingMode = toUint8 (real wm), hidden = 0 \<rparr>
         \<and> (length glyphs < 65536 \<longrightarrow> unat (glyphStartIndex entry) = length glyphs)
         \<and> (length quads < 65536 \<longrightarrow> unat (numGlyphs entry) = length quads)
         \<and> (ls < 4294967296 \<longrightarrow> unat (lineStartIndex entry) = ls)
         \<and> (ll < 4294967296 \<longrightarrow> unat (lineLength entry) = ll)
         \<and> (\<forall>s. segment anchor = Some s \<and> s < 65536 \<longrightarrow> unat (placed_segment entry) = s)
         \<and> (wm < 256 \<longrightarrow> unat (writingMode entry) = wm)
         \<and> (- 32768 \<le> js_trunc (point_x anchor) \<and> js_trunc (point_x anchor) < 32768 \<longrightarrow>
              sint (anchorX entry) = js_trunc (point_x anchor))
         \<and> (- 32768 \<le> js_trunc (point_y anchor) \<and> js_trunc (point_y anchor) < 32768 \<longrightarrow>
              sint (anchorY entry) = js_trunc (point_y anchor))"
proof -
  have "\<exists>a. addSymbols_loop num z sv anchor (arrays, glyphs) quads
          = Inr (a, glyphs @ map (\<lambda>q. fround num (fst (glyphOffset q))) quads)"
  proof (cases "quads = []")
    case True
    then show ?thesis by simp
  next
    case False
    with assms have d: "dynamicLayoutVertexArray arrays \<noteq> None"
      and o: "opacityVertexArray arrays \<noteq> None" by simp_all
    from addSymbols_loop_returns [OF d o] show ?thesis by blast
  qed
  then obtain a where
    s: "addSymbols_loop num z sv anchor (arrays, glyphs) quads
          = Inr (a, glyphs @ map (\<lambda>q. fround num (fst (glyphOffset q))) quads)"
    by blast
  define entry where "entry =
             \<lparr> anchorX = toInt16 (point_x anchor), anchorY = toInt16 (point_y anchor),
               glyphStartIndex = toUint16 (real (length glyphs)),
               numGlyphs = toUint16 (real (length quads)),
               lineStartIndex = toUint32 (real ls), lineLength = toUint32 (real ll),
               placed_segment = (case segment anchor of None \<Rightarrow> 0 | Some s \<Rightarrow> toUint16 (real s)),
               lowerSize = (case sv of None \<Rightarrow> 0 | Some v \<Rightarrow> toUint16 (fst v)),
               upperSize = (case sv of None \<Rightarrow> 0 | Some v \<Rightarrow> toUint16 (snd v)),
               lineOffsetX = fround num (fst loff), lineOffsetY = fround num (snd loff),
               placementZoom = fround num z, writingMode = toUint8 (real wm), hidden = 0 \<rparr>"
  have r: "\<exists>arrays'. addSymbols num z glyphs arrays quads sv loff al f wm anchor ls ll placed
             = Inr (glyphs @ map (\<lambda>q. fround num (fst (glyphOffset q))) quads,
                    arrays', placed @ [entry])"
    by (simp add: addSymbols_def Let_def s entry_def)
  have 1: "length glyphs < 65536 \<longrightarrow> unat (glyphStartIndex entry) = length glyphs"
    by (simp add: entry_def toUint16_nat)
  have 2: "length quads < 65536 \<longrightarrow> unat (numGlyphs entry) = length quads"
    by (simp add: entry_def toUint16_nat)
  have 3: "ls < 4294967296 \<longrightarrow> unat (lineStartIndex entry) = ls"
    by (simp add: entry_def toUint32_nat)
  have 4: "ll < 4294967296 \<longrightarrow> unat (lineLength entry) = ll"
    by (simp add: entry_def toUint32_nat)
  have 5: "\<forall>s. segment anchor = Some s \<and> s < 65536 \<longrightarrow> unat (placed_segment entry) = s"
    by (simp add: entry_def toUint16_nat)
  have 6: "wm < 256 \<longrightarrow> unat (writingMode entry) = wm"
    by (simp add: entry_def toUint8_nat)
  have 7: "- 32768 \<le> js_trunc (point_x anchor) \<and> js_trunc (point_x anchor) < 32768 \<longrightarrow>
              sint (anchorX entry) = js_trunc (point_x anchor)"
    by (simp add: entry_def toInt16_in_range)
  have 8: "- 32768 \<le> js_trunc (point_y anchor) \<and> js_trunc (point_y anchor) < 32768 \<longrightarrow>
              sint (anchorY entry) = js_trunc (point_y anchor)"
    by (simp add: entry_def toInt16_in_range)
  from r 1 2 3 4 5 6 7 8 show ?thesis unfolding entry_def [symmetric] by blast
qed


text \<open>
  The theorem on two quads and a new text buffer set, where the two quads get the indices 0
  and 4 of the one segment, and on a new collision box buffer set.
\<close>

theorem addSymbols_vertex_and_index_growth_witness:
  "(\<exists>glyphs' arrays' placed' ixs.
       addSymbols exampleNumerics 5 [7] exampleTextBuffers [exampleQuad, exampleQuad] (Some (1, 2))
         (0, 0) False exampleFeature 1 exampleAnchor 0 0 [] = Inr (glyphs', arrays', placed')
     \<and> length (layoutVertexArray arrays') = 8
     \<and> length (indexArray arrays') = 4
     \<and> length ixs = 2
     \<and> indexArray arrays' =
          concat (map (\<lambda>i. [Triangle i (i + 1) (i + 2), Triangle (i + 1) (i + 2) (i + 3)]) ixs)
     \<and> (\<exists>s\<in>set (segments arrays'). segment_covers s (ixs ! 0) 0 0 2)
     \<and> (\<exists>s\<in>set (segments arrays'). segment_covers s (ixs ! 1) 4 2 2)
     \<and> indexArray arrays' = [Triangle 0 1 2, Triangle 1 2 3, Triangle 4 5 6, Triangle 5 6 7]
     \<and> segments arrays' = [\<lparr> vertexOffset = 0, primitiveOffset = 0,
                              vertexLength = 8, primitiveLength = 4 \<rparr>])
   \<and> (\<exists>arrays' i. addCollisionDebugVertices 1 2 3 4 exampleBoxBuffers \<lparr> point_x = 5, point_y = 6 \<rparr>
                     exampleInstance False = Inr arrays'
        \<and> length (layoutVertexArray arrays') = 4
        \<and> indexArray arrays' =
             [Line i (i + 1), Line (i + 1) (i + 2), Line (i + 2) (i + 3), Line (i + 3) i]
        \<and> segment_covers (last (segments arrays')) i 0 0 4)"
proof -
  have 1: "dynamicLayoutVertexArray exampleTextBuffers \<noteq> None"
    and 2: "opacityVertexArray exampleTextBuffers \<noteq> None"
    and 3: "segments_current exampleTextBuffers"
    by (simp_all add: exampleTextBuffers_def newSymbolBuffers_def textInterface_def
          segments_current_def)
  have 4: "collisionVertexArray exampleBoxBuffers \<noteq> None \<and> segments_current exampleBoxBuffers"
    by (simp add: exampleBoxBuffers_def newSymbolBuffers_def collisionBoxInterface_def
          segments_current_def)
  have 5: "layoutVertexArray exampleTextBuffers = []" "indexArray exampleTextBuffers = []"
    "segments exampleTextBuffers = []"
    by (simp_all add: exampleTextBuffers_def newSymbolBuffers_def)
  have 6: "indexArray exampleBoxBuffers = []" "layoutVertexArray exampleBoxBuffers = []"
    by (simp_all add: exampleBoxBuffers_def newSymbolBuffers_def)
  note T = addSymbols_vertex_and_index_growth [where arrays = exampleTextBuffers
             and num = exampleNumerics and z = 5 and glyphs = "[7]"
             and quads = "[exampleQuad, exampleQuad]" and sv = "Some (1, 2)" and loff = "(0, 0)"
             and al = False and f = exampleFeature and wm = 1 and anchor = exampleAnchor
             and ls = 0 and ll = 0 and placed = "[]" and debugArrays = exampleBoxBuffers
             and ?x1.0 = 1 and ?y1.0 = 2 and ?x2.0 = 3 and ?y2.0 = 4
             and p = "\<lparr> point_x = 5, point_y = 6 \<rparr>" and si = exampleInstance, OF 1 2 3]
  from T [THEN conjunct1] obtain g a p ixs vs where
    r: "addSymbols exampleNumerics 5 [7] exampleTextBuffers [exampleQuad, exampleQuad] (Some (1, 2))
         (0, 0) False exampleFeature 1 exampleAnchor 0 0 [] = Inr (g, a, p)"
    and lv: "length (layoutVertexArray a) =
               length (layoutVertexArray exampleTextBuffers) + 4 * length [exampleQuad, exampleQuad]"
    and li: "length (indexArray a) =
               length (indexArray exampleTextBuffers) + 2 * length [exampleQuad, exampleQuad]"
    and n: "length ixs = length [exampleQuad, exampleQuad]"
    and ix: "indexArray a = indexArray exampleTextBuffers @
               concat (map (\<lambda>i. [Triangle i (i + 1) (i + 2), Triangle (i + 1) (i + 2) (i + 3)]) ixs)"
    and cv: "\<forall>j<length [exampleQuad, exampleQuad]. \<exists>s\<in>set (segments a).
                segment_covers s (ixs ! j) (length (layoutVertexArray exampleTextBuffers) + 4 * j)
                  (length (indexArray exampleTextBuffers) + 2 * j) 2"
    by blast
  from lv 5 have lv': "length (layoutVertexArray a) = 8" by simp
  from li 5 have li': "length (indexArray a) = 4" by simp
  from n have n': "length ixs = 2" by simp
  from ix 5 have ix': "indexArray a =
      concat (map (\<lambda>i. [Triangle i (i + 1) (i + 2), Triangle (i + 1) (i + 2) (i + 3)]) ixs)"
    by simp
  from cv [rule_format, of 0] 5 have c0: "\<exists>s\<in>set (segments a). segment_covers s (ixs ! 0) 0 0 2"
    by simp
  from cv [rule_format, of 1] 5 have c1: "\<exists>s\<in>set (segments a). segment_covers s (ixs ! 1) 4 2 2"
    by (simp add: numeral_2_eq_2)
  have e: "\<exists>g a p. addSymbols exampleNumerics 5 [7] exampleTextBuffers [exampleQuad, exampleQuad]
         (Some (1, 2)) (0, 0) False exampleFeature 1 exampleAnchor 0 0 [] = Inr (g, a, p)
      \<and> indexArray a = [Triangle 0 1 2, Triangle 1 2 3, Triangle 4 5 6, Triangle 5 6 7]
      \<and> segments a = [\<lparr> vertexOffset = 0, primitiveOffset = 0,
                         vertexLength = 8, primitiveLength = 4 \<rparr>]"
    by (simp add: addSymbols_def addSymbol_def Let_def exampleTextBuffers_def newSymbolBuffers_def
          textInterface_def prepareSegment_def growSegment_def addDynamicAttributes_def
          addVertex_def MAX_VERTEX_ARRAY_LENGTH_def)
  with r have cx: "indexArray a = [Triangle 0 1 2, Triangle 1 2 3, Triangle 4 5 6, Triangle 5 6 7]"
    and sx: "segments a = [\<lparr> vertexOffset = 0, primitiveOffset = 0,
                         vertexLength = 8, primitiveLength = 4 \<rparr>]"
    by auto
  from r lv' li' n' ix' c0 c1 cx sx have A: "\<exists>glyphs' arrays' placed' ixs.
       addSymbols exampleNumerics 5 [7] exampleTextBuffers [exampleQuad, exampleQuad] (Some (1, 2))
         (0, 0) False exampleFeature 1 exampleAnchor 0 0 [] = Inr (glyphs', arrays', placed')
     \<and> length (layoutVertexArray arrays') = 8
     \<and> length (indexArray arrays') = 4
     \<and> length ixs = 2
     \<and> indexArray arrays' =
          concat (map (\<lambda>i. [Triangle i (i + 1) (i + 2), Triangle (i + 1) (i + 2) (i + 3)]) ixs)
     \<and> (\<exists>s\<in>set (segments arrays'). segment_covers s (ixs ! 0) 0 0 2)
     \<and> (\<exists>s\<in>set (segments arrays'). segment_covers s (ixs ! 1) 4 2 2)
     \<and> indexArray arrays' = [Triangle 0 1 2, Triangle 1 2 3, Triangle 4 5 6, Triangle 5 6 7]
     \<and> segments arrays' = [\<lparr> vertexOffset = 0, primitiveOffset = 0,
                              vertexLength = 8, primitiveLength = 4 \<rparr>]"
    by blast
  from T [THEN conjunct2, rule_format, OF 4, THEN conjunct1] obtain b i vb where
    rb: "addCollisionDebugVertices 1 2 3 4 exampleBoxBuffers \<lparr> point_x = 5, point_y = 6 \<rparr>
           exampleInstance False = Inr b"
    and lb: "layoutVertexArray b = layoutVertexArray exampleBoxBuffers @ vb" "length vb = 4"
    and ib: "indexArray b = indexArray exampleBoxBuffers @
               [Line i (i + 1), Line (i + 1) (i + 2), Line (i + 2) (i + 3), Line (i + 3) i]"
    and cb: "segment_covers (last (segments b)) i (length (layoutVertexArray exampleBoxBuffers))
                    (length (indexArray exampleBoxBuffers)) 4"
    by blast
  from lb 6 have lb': "length (layoutVertexArray b) = 4" by simp
  from ib 6 have ib': "indexArray b =
      [Line i (i + 1), Line (i + 1) (i + 2), Line (i + 2) (i + 3), Line (i + 3) i]" by simp
  from cb 6 have cb': "segment_covers (last (segments b)) i 0 0 4" by simp
  from rb lb' ib' cb' have B: "\<exists>arrays' i. addCollisionDebugVertices 1 2 3 4 exampleBoxBuffers
                     \<lparr> point_x = 5, point_y = 6 \<rparr> exampleInstance False = Inr arrays'
        \<and> length (layoutVertexArray arrays') = 4
        \<and> indexArray arrays' =
             [Line i (i + 1), Line (i + 1) (i + 2), Line (i + 2) (i + 3), Line (i + 3) i]
        \<and> segment_covers (last (segments arrays')) i 0 0 4"
    by blast
  from A B show ?thesis by (rule conjI)
qed

text \<open>
  The theorem on two quads, with one glyph offset already in the array.
\<close>

theorem addSymbols_placed_entry_witness:
  "\<exists>arrays' entry.
     addSymbols exampleNumerics 5 [7] exampleTextBuffers [exampleQuad, exampleQuad] (Some (1, 2))
         (0, 0) False exampleFeature 1 exampleAnchor 10 3 []
       = Inr ([7, 2, 2], arrays', [entry])
     \<and> entry = \<lparr> anchorX = 3, anchorY = 4, glyphStartIndex = 1, numGlyphs = 2,
                 lineStartIndex = 10, lineLength = 3, placed_segment = 0,
                 lowerSize = 1, upperSize = 2, lineOffsetX = 0, lineOffsetY = 0,
                 placementZoom = 5, writingMode = 1, hidden = 0 \<rparr>
     \<and> unat (glyphStartIndex entry) = 1 \<and> unat (numGlyphs entry) = 2
     \<and> unat (lineStartIndex entry) = 10 \<and> unat (lineLength entry) = 3
     \<and> sint (anchorX entry) = 3 \<and> sint (anchorY entry) = 4"
proof -
  have 1: "[exampleQuad, exampleQuad] = [] \<or> (dynamicLayoutVertexArray exampleTextBuffers \<noteq> None
     \<and> opacityVertexArray exampleTextBuffers \<noteq> None)"
    by (simp add: exampleTextBuffers_def newSymbolBuffers_def textInterface_def)
  from addSymbols_placed_entry [where quads = "[exampleQuad, exampleQuad]"
         and arrays = exampleTextBuffers and num = exampleNumerics and z = 5 and glyphs = "[7]"
         and sv = "Some (1, 2)" and loff = "(0, 0)" and al = False and f = exampleFeature
         and wm = 1 and anchor = exampleAnchor and ls = 10 and ll = 3 and placed = "[]", OF 1]
  obtain a e where
    r: "addSymbols exampleNumerics 5 [7] exampleTextBuffers [exampleQuad, exampleQuad] (Some (1, 2))
         (0, 0) False exampleFeature 1 exampleAnchor 10 3 []
       = Inr ([7] @ map (\<lambda>q. fround exampleNumerics (fst (glyphOffset q))) [exampleQuad, exampleQuad],
              a, [] @ [e])"
    and e: "e = \<lparr> anchorX = toInt16 (point_x exampleAnchor), anchorY = toInt16 (point_y exampleAnchor),
               glyphStartIndex = toUint16 (real (length [7::real])),
               numGlyphs = toUint16 (real (length [exampleQuad, exampleQuad])),
               lineStartIndex = toUint32 (real (10::nat)), lineLength = toUint32 (real (3::nat)),
               placed_segment = (case segment exampleAnchor of None \<Rightarrow> 0
                                 | Some s \<Rightarrow> toUint16 (real s)),
               lowerSize = (case Some (1::real, 2::real) of None \<Rightarrow> 0 | Some v \<Rightarrow> toUint16 (fst v)),
               upperSize = (case Some (1::real, 2::real) of None \<Rightarrow> 0 | Some v \<Rightarrow> toUint16 (snd v)),
               lineOffsetX = fround exampleNumerics (fst (0::real, 0::real)),
               lineOffsetY = fround exampleNumerics (snd (0::real, 0::real)),
               placementZoom = fround exampleNumerics 5, writingMode = toUint8 (real (1::nat)),
               hidden = 0 \<rparr>"
    by blast
  have g: "[7] @ map (\<lambda>q. fround exampleNumerics (fst (glyphOffset q))) [exampleQuad, exampleQuad]
             = [7, 2, 2]"
    by (simp add: exampleQuad_def exampleNumerics_def)
  have e': "e = \<lparr> anchorX = 3, anchorY = 4, glyphStartIndex = 1, numGlyphs = 2,
                 lineStartIndex = 10, lineLength = 3, placed_segment = 0,
                 lowerSize = 1, upperSize = 2, lineOffsetX = 0, lineOffsetY = 0,
                 placementZoom = 5, writingMode = 1, hidden = 0 \<rparr>"
    unfolding e
    by (simp add: exampleAnchor_def exampleNumerics_def toInt16_def toUint16_def toUint32_def
          toUint8_def js_trunc_def)
  have u: "unat (glyphStartIndex e) = 1" "unat (numGlyphs e) = 2"
     "unat (lineStartIndex e) = 10" "unat (lineLength e) = 3"
     "sint (anchorX e) = 3" "sint (anchorY e) = 4"
    by (simp_all add: e')
  from r g e' u show ?thesis by auto
qed

text \<open>
  With 65536 glyph offsets in the array before the call, the start of the glyph range that is
  read back from the new entry is 0, not the length of the array before the call.
\<close>

theorem addSymbols_glyph_start_counterexample:
  "\<exists>arrays' entry.
     addSymbols exampleNumerics 5 (replicate 65536 0) exampleTextBuffers [] None (0, 0) False
         exampleFeature 1 examplePointAnchor 0 0 []
       = Inr (replicate 65536 0, arrays', [entry])
     \<and> unat (glyphStartIndex entry) = 0
     \<and> length (replicate 65536 (0::real)) = 65536"
  by (simp add: addSymbols_def Let_def toUint16_def)

subsection \<open>C5: destroy\<close>







lemma then_do_Inr_iff:
  "then_do m f = Inr r \<longleftrightarrow> (\<exists>v. m = Inr v \<and> f v = Inr r)"
  by (cases m) simp_all





subsection \<open>C4: the line vertex array\<close>


lemma forwardLoop_eq:
  "forwardLoop pts i s vs =
     (\<lambda>j. if i \<le> j \<and> j < length pts
          then Some \<lparr> vertex_x = point_x (pts ! j), vertex_y = point_y (pts ! j),
                      vertex_distance =
                        s + (\<Sum>k = i..<j. point_dist (pts ! (k + 1)) (pts ! k)) \<rparr>
          else vs j)"
proof (induction pts i s vs rule: forwardLoop.induct)
  case (1 pts i s vs)
  show ?case
  proof (cases "i < length pts")
    case False
    then have "forwardLoop pts i s vs = vs" by (subst forwardLoop.simps) simp
    with False show ?thesis by (intro ext) auto
  next
    case True
    let ?s' = "if i < length pts - 1 then s + point_dist (pts ! (i + 1)) (pts ! i) else s"
    let ?v = "\<lparr> vertex_x = point_x (pts ! i), vertex_y = point_y (pts ! i),
                 vertex_distance = s \<rparr>"
    have "forwardLoop pts i s vs = forwardLoop pts (Suc i) ?s' (vs (i \<mapsto> ?v))"
      using True by (subst forwardLoop.simps) simp
    also have "\<dots> = (\<lambda>j. if Suc i \<le> j \<and> j < length pts
          then Some \<lparr> vertex_x = point_x (pts ! j), vertex_y = point_y (pts ! j),
                      vertex_distance =
                        ?s' + (\<Sum>k = Suc i..<j. point_dist (pts ! (k + 1)) (pts ! k)) \<rparr>
          else (vs (i \<mapsto> ?v)) j)"
      using True by (rule "1.IH")
    also have "\<dots> = (\<lambda>j. if i \<le> j \<and> j < length pts
          then Some \<lparr> vertex_x = point_x (pts ! j), vertex_y = point_y (pts ! j),
                      vertex_distance =
                        s + (\<Sum>k = i..<j. point_dist (pts ! (k + 1)) (pts ! k)) \<rparr>
          else vs j)"
    proof (rule ext)
      fix j
      consider "j < i" | "j = i" | "i < j" "j < length pts" | "i < j" "\<not> j < length pts"
        by linarith
      then show "(if Suc i \<le> j \<and> j < length pts
          then Some \<lparr> vertex_x = point_x (pts ! j), vertex_y = point_y (pts ! j),
                      vertex_distance =
                        ?s' + (\<Sum>k = Suc i..<j. point_dist (pts ! (k + 1)) (pts ! k)) \<rparr>
          else (vs (i \<mapsto> ?v)) j) =
         (if i \<le> j \<and> j < length pts
          then Some \<lparr> vertex_x = point_x (pts ! j), vertex_y = point_y (pts ! j),
                      vertex_distance =
                        s + (\<Sum>k = i..<j. point_dist (pts ! (k + 1)) (pts ! k)) \<rparr>
          else vs j)"
      proof cases
        case 1
        then show ?thesis by simp
      next
        case 2
        with True show ?thesis by simp
      next
        case 3
        then have "i < length pts - 1" by simp
        with 3 show ?thesis by (simp add: sum.atLeast_Suc_lessThan)
      next
        case 4
        then show ?thesis by simp
      qed
    qed
    finally show ?thesis .
  qed
qed

lemma backwardLoop_eq:
  "backwardLoop pts i s vs =
     (\<lambda>j. if j \<le> i
          then Some \<lparr> vertex_x = point_x (pts ! j), vertex_y = point_y (pts ! j),
                      vertex_distance =
                        s + (\<Sum>k = j..<i. point_dist (pts ! k) (pts ! Suc k)) \<rparr>
          else vs j)"
proof (induction i arbitrary: s vs)
  case 0
  show ?case by (rule ext) simp
next
  case (Suc i)
  show ?case
  proof (rule ext)
    fix j
    consider "j \<le> i" | "j = Suc i" | "Suc i < j" by linarith
    then show "backwardLoop pts (Suc i) s vs j =
        (if j \<le> Suc i
          then Some \<lparr> vertex_x = point_x (pts ! j), vertex_y = point_y (pts ! j),
                      vertex_distance =
                        s + (\<Sum>k = j..<Suc i. point_dist (pts ! k) (pts ! Suc k)) \<rparr>
          else vs j)"
      by cases (simp_all add: Suc.IH)
  qed
qed

lemma emplaceLoop_eq:
  "\<forall>j. i \<le> j \<and> j < n \<longrightarrow> vs j = Some (f j) \<Longrightarrow>
   emplaceLoop n i vs arr = Inr (arr @ map (\<lambda>j. storeVertex (f j)) [i..<n])"
proof (induction n i vs arr rule: emplaceLoop.induct)
  case (1 n i vs arr)
  show ?case
  proof (cases "i < n")
    case False
    then show ?thesis by (subst emplaceLoop.simps) simp
  next
    case True
    with "1.prems" have v: "vs i = Some (f i)" by simp
    have "emplaceLoop n i vs arr = emplaceLoop n (Suc i) vs (arr @ [storeVertex (f i)])"
      using True v by (subst emplaceLoop.simps) simp
    also have "\<dots> = Inr ((arr @ [storeVertex (f i)]) @ map (\<lambda>j. storeVertex (f j)) [Suc i..<n])"
      using True v "1.prems" by (intro "1.IH") auto
    finally show ?thesis using True by (simp add: upt_conv_Cons)
  qed
qed

text \<open>The record that the three loops store for vertex \<open>j\<close> of a line, for an anchor on
  segment \<open>seg\<close>.\<close>

lemma addToLineVertexArray_eq:
  assumes seg: "segment anchor = Some seg" and inside: "seg + 1 < length pts"
  shows "addToLineVertexArray lva anchor pts =
     Inr (lva @ map (\<lambda>j. \<lparr> line_x = toInt16 (point_x (pts ! j)),
                            line_y = toInt16 (point_y (pts ! j)),
                            tileUnitDistanceFromAnchor =
                              toInt16 (distanceAlongLine anchor pts seg j) \<rparr>)
                   [0..<length pts],
          length lva, length pts)"
proof -
  let ?f = "\<lambda>j. \<lparr> vertex_x = point_x (pts ! j), vertex_y = point_y (pts ! j),
                   vertex_distance = distanceAlongLine anchor pts seg j \<rparr>"
  let ?vs = "backwardLoop pts seg (point_dist anchor (pts ! seg))
               (forwardLoop pts (seg + 1) (point_dist anchor (pts ! (seg + 1))) Map.empty)"
  have "\<forall>j. 0 \<le> j \<and> j < length pts \<longrightarrow> ?vs j = Some (?f j)"
    by (simp add: backwardLoop_eq forwardLoop_eq distanceAlongLine_def)
  then have "emplaceLoop (length pts) 0 ?vs lva
               = Inr (lva @ map (\<lambda>j. storeVertex (?f j)) [0..<length pts])"
    by (rule emplaceLoop_eq)
  with seg inside show ?thesis
    by (simp add: addToLineVertexArray_def Let_def storeVertex_def)
qed












subsection \<open>C7 and C8: populate\<close>

lemma addGlyphs_plain: "addGlyphs False lookup cs stack = stack \<union> set cs"
  by (induction cs arbitrary: stack) auto

lemma addGlyphs_vertical:
  "addGlyphs True lookup cs stack =
     stack \<union> set cs \<union> {v. \<exists>c\<in>set cs. \<exists>vs. lookup c = Some (v # vs)}"
proof (induction cs arbitrary: stack)
  case Nil
  show ?case by simp
next
  case (Cons c cs)
  show ?case
  proof (cases "lookup c")
    case None
    then show ?thesis by (auto simp: Cons.IH)
  next
    case (Some w)
    then show ?thesis by (cases w) (auto simp: Cons.IH)
  qed
qed

lemma addGlyphs_eq:
  "addGlyphs vertical lookup cs stack =
     stack \<union> set cs \<union>
     (if vertical then {v. \<exists>c\<in>set cs. \<exists>vs. lookup c = Some (v # vs)} else {})"
  by (cases vertical) (simp_all add: addGlyphs_plain addGlyphs_vertical)

lemma populateLoop_features:
  "fst (populateLoop collab layer z st features) =
     fst st @ List.map_filter (symbolFeatureOf collab layer z) features"
proof (induction features arbitrary: st)
  case Nil
  show ?case by simp
next
  case (Cons f features)
  show ?case
    by (cases st; cases "symbolFeatureOf collab layer z f")
       (simp_all add: Cons.IH populateFeature_def Let_def)
qed

lemma populateLoop_stack:
  "snd (snd (populateLoop collab layer z st features)) =
     snd (snd st) \<union>
     (\<Union>sf\<in>set (List.map_filter (symbolFeatureOf collab layer z) features).
        set (code_units (symbol_text sf)) \<union>
        (if textAlongLine layer \<and> allowsVerticalWritingMode collab (symbol_text sf)
         then {v. \<exists>c\<in>set (code_units (symbol_text sf)).
                    \<exists>vs. verticalizePunctuation_lookup collab c = Some (v # vs)}
         else {}))"
proof (induction features arbitrary: st)
  case Nil
  show ?case by simp
next
  case (Cons f features)
  obtain fs icons stack where st: "st = (fs, icons, stack)" by (cases st) auto
  show ?case
  proof (cases "symbolFeatureOf collab layer z f")
    case None
    then show ?thesis
      by (simp add: Cons.IH populateFeature_def)
  next
    case (Some sf)
    have untruthy: "code_units (symbol_text sf) = []" if "\<not> truthy (symbol_text sf)"
      using that by (cases "symbol_text sf") simp_all
    show ?thesis
    proof (cases "truthy (symbol_text sf)")
      case True
      with Some st show ?thesis
        by (simp add: Cons.IH populateFeature_def Let_def addGlyphs_eq
              Un_assoc)
    next
      case False
      with Some st untruthy show ?thesis
        by (simp add: Cons.IH populateFeature_def Let_def)
    qed
  qed
qed

lemma symbolFeatureOf_truthy:
  "symbolFeatureOf collab layer z f = Some sf \<Longrightarrow>
     truthy (symbol_text sf) \<or> truthy (symbol_icon sf)"
  by (auto simp: symbolFeatureOf_def Let_def split: if_splits)

lemma map_filter_truthy:
  "sf \<in> set (List.map_filter (symbolFeatureOf collab layer z) features) \<Longrightarrow>
     truthy (symbol_text sf) \<or> truthy (symbol_icon sf)"
  by (auto simp: List.map_filter_def dest: symbolFeatureOf_truthy)

lemma populate_features:
  "fst (populate collab layer z features options) =
     (if \<not> hasText layer \<and> \<not> hasIcon layer then []
      else if layout layer ''symbol-placement'' = Str (js_str ''line'')
        then mergeLines collab (List.map_filter (symbolFeatureOf collab layer z) features)
        else List.map_filter (symbolFeatureOf collab layer z) features)"
proof -
  let ?st = "([], iconDependencies options,
              case glyphDependencies options (layout layer ''text-font'') of
                None \<Rightarrow> {} | Some s \<Rightarrow> s)"
  obtain fs icons' stack' where r: "populateLoop collab layer z ?st features = (fs, icons', stack')"
    by (cases "populateLoop collab layer z ?st features") auto
  from populateLoop_features [of collab layer z ?st features] r
  have "fs = List.map_filter (symbolFeatureOf collab layer z) features" by simp
  with r show ?thesis by (simp add: populate_def Let_def)
qed

lemma populate_glyphs:
  assumes "hasText layer \<or> hasIcon layer"
  shows "glyphDependencies (snd (populate collab layer z features options)) =
     (glyphDependencies options) (layout layer ''text-font'' \<mapsto>
       (case glyphDependencies options (layout layer ''text-font'') of None \<Rightarrow> {} | Some s \<Rightarrow> s) \<union>
       (\<Union>sf\<in>set (List.map_filter (symbolFeatureOf collab layer z) features).
          set (code_units (symbol_text sf)) \<union>
          (if textAlongLine layer \<and> allowsVerticalWritingMode collab (symbol_text sf)
           then {v. \<exists>c\<in>set (code_units (symbol_text sf)).
                      \<exists>vs. verticalizePunctuation_lookup collab c = Some (v # vs)}
           else {})))"
proof -
  let ?st = "([], iconDependencies options,
              case glyphDependencies options (layout layer ''text-font'') of
                None \<Rightarrow> {} | Some s \<Rightarrow> s)"
  obtain fs icons' stack' where r: "populateLoop collab layer z ?st features = (fs, icons', stack')"
    by (cases "populateLoop collab layer z ?st features") auto
  from populateLoop_stack [of collab layer z ?st features] r
  have "stack' = (case glyphDependencies options (layout layer ''text-font'') of
                    None \<Rightarrow> {} | Some s \<Rightarrow> s) \<union>
       (\<Union>sf\<in>set (List.map_filter (symbolFeatureOf collab layer z) features).
          set (code_units (symbol_text sf)) \<union>
          (if textAlongLine layer \<and> allowsVerticalWritingMode collab (symbol_text sf)
           then {v. \<exists>c\<in>set (code_units (symbol_text sf)).
                      \<exists>vs. verticalizePunctuation_lookup collab c = Some (v # vs)}
           else {}))" by simp
  with r assms show ?thesis by (auto simp: populate_def Let_def)
qed

text \<open>
  C7. \<open>mergeLines\<close> is a parameter; it is assumed to return features that carry the text and
  the icon of features it was given. Then every feature of the list that \<open>populate\<close> leaves in
  \<open>this.features\<close> has a truthy text or a truthy icon. A feature whose evaluated text and icon
  are both falsy is not kept by the loop, and without line placement the list is exactly the
  features that the loop kept, in order. For a layer with neither text nor icon, \<open>populate\<close>
  returns the empty list and the dependency sets it was given.
\<close>

theorem populate_retains_text_or_icon:
  assumes merge: "\<forall>fs. \<forall>f\<in>set (mergeLines collab fs).
                    \<exists>g\<in>set fs. symbol_text f = symbol_text g \<and> symbol_icon f = symbol_icon g"
  shows "(\<forall>f\<in>set (fst (populate collab layer z features options)).
            truthy (symbol_text f) \<or> truthy (symbol_icon f))
       \<and> (\<not> hasText layer \<and> \<not> hasIcon layer \<longrightarrow>
            populate collab layer z features options = ([], options))
       \<and> (layout layer ''symbol-placement'' \<noteq> Str (js_str ''line'') \<longrightarrow>
            fst (populate collab layer z features options)
              = List.map_filter (symbolFeatureOf collab layer z) features)
       \<and> (\<forall>f\<in>set features.
            \<not> truthy (evalText collab layer z (indexed_feature f))
            \<and> \<not> truthy (evalIcon collab layer z (indexed_feature f))
            \<longrightarrow> symbolFeatureOf collab layer z f = None)"
proof (intro conjI)
  show "\<forall>f\<in>set (fst (populate collab layer z features options)).
            truthy (symbol_text f) \<or> truthy (symbol_icon f)"
  proof
    fix f assume f: "f \<in> set (fst (populate collab layer z features options))"
    let ?kept = "List.map_filter (symbolFeatureOf collab layer z) features"
    from f have "f \<in> set ?kept \<or> f \<in> set (mergeLines collab ?kept)"
      by (auto simp: populate_features split: if_splits)
    then show "truthy (symbol_text f) \<or> truthy (symbol_icon f)"
    proof
      assume "f \<in> set ?kept"
      then show ?thesis by (rule map_filter_truthy)
    next
      assume "f \<in> set (mergeLines collab ?kept)"
      with merge obtain g where g: "g \<in> set ?kept"
        and eq: "symbol_text f = symbol_text g" "symbol_icon f = symbol_icon g" by blast
      from map_filter_truthy [OF g] eq show ?thesis by simp
    qed
  qed
next
  show "\<not> hasText layer \<and> \<not> hasIcon layer \<longrightarrow>
            populate collab layer z features options = ([], options)"
    by (simp add: populate_def)
next
  have none: "symbolFeatureOf collab layer z f = None"
    if "\<not> hasText layer \<and> \<not> hasIcon layer" for f
    using that by (simp add: symbolFeatureOf_def evalText_def evalIcon_def Let_def)
  have "List.map_filter (symbolFeatureOf collab layer z) features = []"
    if "\<not> hasText layer \<and> \<not> hasIcon layer"
    using none [OF that] by (simp add: List.map_filter_def)
  then show "layout layer ''symbol-placement'' \<noteq> Str (js_str ''line'') \<longrightarrow>
            fst (populate collab layer z features options)
              = List.map_filter (symbolFeatureOf collab layer z) features"
    by (auto simp: populate_features)
next
  show "\<forall>f\<in>set features.
            \<not> truthy (evalText collab layer z (indexed_feature f))
            \<and> \<not> truthy (evalIcon collab layer z (indexed_feature f))
            \<longrightarrow> symbolFeatureOf collab layer z f = None"
    by (simp add: symbolFeatureOf_def Let_def)
qed

text \<open>
  C8 (as amended). For a layer with text or icon, the glyph set of the font stack
  \<open>layout['text-font']\<close> after \<open>populate\<close> is the set it held before together with the UTF-16
  code units (\<open>charCodeAt\<close>) of the texts of the features that the loop kept and, for each of
  these texts that allows vertical writing when the layer has its text along the line (both
  \<open>text-rotation-alignment\<close> is \<open>map\<close> and \<open>symbol-placement\<close> is \<open>line\<close>), the first code
  unit of the substitute of each of its code units that has one in the lookup table. Nothing
  else is added, and the sets of the other font stacks are untouched.
\<close>

theorem populate_glyph_dependencies:
  assumes "hasText layer \<or> hasIcon layer"
  shows "glyphDependencies (snd (populate collab layer z features options))
           (layout layer ''text-font'') =
         Some ((case glyphDependencies options (layout layer ''text-font'') of
                  None \<Rightarrow> {} | Some s \<Rightarrow> s) \<union>
               (\<Union>sf\<in>set (List.map_filter (symbolFeatureOf collab layer z) features).
                  set (code_units (symbol_text sf)) \<union>
                  (if textAlongLine layer \<and> allowsVerticalWritingMode collab (symbol_text sf)
                   then {v. \<exists>c\<in>set (code_units (symbol_text sf)).
                              \<exists>vs. verticalizePunctuation_lookup collab c = Some (v # vs)}
                   else {})))
       \<and> (\<forall>k. k \<noteq> layout layer ''text-font'' \<longrightarrow>
             glyphDependencies (snd (populate collab layer z features options)) k
               = glyphDependencies options k)"
  unfolding populate_glyphs [OF assms] by simp

lemma example_kept:
  "map symbol_text (List.map_filter (symbolFeatureOf exampleCollab exampleTextLayer 5) exampleFeatures)
     = [Str [65, 40]]"
  by (simp add: List.map_filter_def exampleFeatures_def exampleFeature_def symbolFeatureOf_def
        evalText_def evalIcon_def hasText_def hasIcon_def exampleTextLayer_def exampleCollab_def
        Let_def)

text \<open>
  The theorem on the text layer, where one of two features has a name, and on the empty layer.
\<close>

theorem populate_retains_text_or_icon_witness:
  "list_all (\<lambda>f. truthy (symbol_text f) \<or> truthy (symbol_icon f))
     (fst (populate exampleCollab exampleTextLayer 5 exampleFeatures exampleOptions))
   \<and> populate exampleCollab exampleEmptyLayer 5 exampleFeatures exampleOptions = ([], exampleOptions)"
proof -
  have m: "\<forall>fs. \<forall>f\<in>set (mergeLines exampleCollab fs).
             \<exists>g\<in>set fs. symbol_text f = symbol_text g \<and> symbol_icon f = symbol_icon g"
    by (auto simp: exampleCollab_def)
  have e: "\<not> hasText exampleEmptyLayer \<and> \<not> hasIcon exampleEmptyLayer"
    by (simp add: hasText_def hasIcon_def exampleEmptyLayer_def)
  from populate_retains_text_or_icon [OF m, of exampleTextLayer 5 exampleFeatures exampleOptions,
         THEN conjunct1]
       populate_retains_text_or_icon [OF m, of exampleEmptyLayer 5 exampleFeatures exampleOptions,
         THEN conjunct2, THEN conjunct1, rule_format, OF e]
  show ?thesis unfolding list_all_iff by (rule conjI)
qed

text \<open>
  The theorem on the text layer and new dependency sets: the text \<open>A(\<close> gives the code units
  65 and 40 and the substitute 65077.
\<close>

theorem populate_glyph_dependencies_witness:
  "glyphDependencies (snd (populate exampleCollab exampleTextLayer 5 exampleFeatures exampleOptions))
     (Arr [[79, 83]]) = Some {65, 40, 65077}"
proof -
  have h: "hasText exampleTextLayer \<or> hasIcon exampleTextLayer"
    by (simp add: hasText_def exampleTextLayer_def)
  have f: "layout exampleTextLayer ''text-font'' = Arr [[79, 83]]"
    by (simp add: exampleTextLayer_def)
  have al: "textAlongLine exampleTextLayer"
    by (simp add: textAlongLine_def exampleTextLayer_def)
  have v: "allowsVerticalWritingMode exampleCollab t" for t
    by (simp add: exampleCollab_def)
  have lk: "{v. \<exists>c\<in>set [65, 40]. \<exists>vs. verticalizePunctuation_lookup exampleCollab c = Some (v # vs)}
              = {65077}"
    by (auto simp: exampleCollab_def)
  have o: "glyphDependencies exampleOptions (Arr [[79, 83]]) = None"
    by (simp add: exampleOptions_def)
  have img: "(\<Union>sf\<in>set (List.map_filter (symbolFeatureOf exampleCollab exampleTextLayer 5)
                          exampleFeatures). g (symbol_text sf)) = g (Str [65, 40])"
    for g :: "js_value \<Rightarrow> nat set"
  proof -
    have "(\<Union>sf\<in>set (List.map_filter (symbolFeatureOf exampleCollab exampleTextLayer 5)
                          exampleFeatures). g (symbol_text sf))
          = (\<Union>t\<in>set (map symbol_text (List.map_filter
                 (symbolFeatureOf exampleCollab exampleTextLayer 5) exampleFeatures)). g t)"
      by simp
    also have "\<dots> = g (Str [65, 40])" unfolding example_kept by simp
    finally show ?thesis .
  qed
  from populate_glyph_dependencies [OF h, of exampleCollab 5 exampleFeatures exampleOptions,
         THEN conjunct1]
  have "glyphDependencies (snd (populate exampleCollab exampleTextLayer 5 exampleFeatures
                                   exampleOptions)) (Arr [[79, 83]])
        = Some ({} \<union> (set (code_units (Str [65, 40])) \<union>
                   {v. \<exists>c\<in>set (code_units (Str [65, 40])).
                         \<exists>vs. verticalizePunctuation_lookup exampleCollab c = Some (v # vs)}))"
    unfolding f o
    using img [of "\<lambda>t. set (code_units t) \<union>
                  (if textAlongLine exampleTextLayer \<and> allowsVerticalWritingMode exampleCollab t
                   then {v. \<exists>c\<in>set (code_units t).
                              \<exists>vs. verticalizePunctuation_lookup exampleCollab c = Some (v # vs)}
                   else {})"] al v
    by simp
  then show ?thesis using lk by auto
qed


lemma example_glyphs:
  assumes h: "hasText layer \<or> hasIcon layer"
    and f: "layout layer ''text-font'' = Arr [[79, 83]]"
    and kept: "map symbol_text (List.map_filter (symbolFeatureOf exampleCollab layer 5) fs) = [Str t]"
  shows "glyphDependencies (snd (populate exampleCollab layer 5 fs exampleOptions)) (Arr [[79, 83]])
           = Some (set t \<union>
                   (if textAlongLine layer
                    then {v. \<exists>c\<in>set t. \<exists>vs. verticalizePunctuation_lookup exampleCollab c
                                                  = Some (v # vs)}
                    else {}))"
proof -
  have v: "allowsVerticalWritingMode exampleCollab u" for u
    by (simp add: exampleCollab_def)
  have o: "glyphDependencies exampleOptions (Arr [[79, 83]]) = None"
    by (simp add: exampleOptions_def)
  have img: "(\<Union>sf\<in>set (List.map_filter (symbolFeatureOf exampleCollab layer 5) fs).
                g (symbol_text sf)) = g (Str t)"
    for g :: "js_value \<Rightarrow> nat set"
  proof -
    have "(\<Union>sf\<in>set (List.map_filter (symbolFeatureOf exampleCollab layer 5) fs).
                g (symbol_text sf))
          = (\<Union>u\<in>set (map symbol_text (List.map_filter
                 (symbolFeatureOf exampleCollab layer 5) fs)). g u)"
      by simp
    also have "\<dots> = g (Str t)" unfolding kept by simp
    finally show ?thesis .
  qed
  show ?thesis
    unfolding populate_glyphs [OF h] f o
    using img [of "\<lambda>u. set (code_units u) \<union>
                  (if textAlongLine layer \<and> allowsVerticalWritingMode exampleCollab u
                   then {v. \<exists>c\<in>set (code_units u).
                              \<exists>vs. verticalizePunctuation_lookup exampleCollab c = Some (v # vs)}
                   else {})"] v
    by simp
qed

text \<open>
  C8 as stated fails in two ways. On the text layer, a feature whose text is the one
  character U+20000 has the one codepoint 131072; the glyph set gets the two code units of
  its surrogate pair instead, and not the codepoint. On a layer that places its symbols along
  lines with \<open>text-rotation-alignment\<close> \<open>viewport\<close>, the text \<open>A(\<close> allows vertical writing and
  the left parenthesis has the substitute 65077 in the lookup table, and the substitute is not
  added.
\<close>

theorem populate_glyph_dependencies_counterexample:
  "spec_codepoints [55360, 56320] = [131072]
   \<and> glyphDependencies (snd (populate exampleCollab exampleTextLayer 5 astralFeatures exampleOptions))
       (Arr [[79, 83]]) = Some {55360, 56320}
   \<and> layout exampleViewportLayer ''symbol-placement'' = Str (js_str ''line'')
   \<and> allowsVerticalWritingMode exampleCollab (Str [65, 40])
   \<and> verticalizePunctuation_lookup exampleCollab 40 = Some [65077]
   \<and> glyphDependencies (snd (populate exampleCollab exampleViewportLayer 5 exampleFeatures
                                 exampleOptions)) (Arr [[79, 83]]) = Some {65, 40}"
proof -
  have A: "spec_codepoints [55360, 56320] = [131072]" by simp
  have h1: "hasText exampleTextLayer \<or> hasIcon exampleTextLayer"
    by (simp add: hasText_def exampleTextLayer_def)
  have f1: "layout exampleTextLayer ''text-font'' = Arr [[79, 83]]"
    by (simp add: exampleTextLayer_def)
  have k1: "map symbol_text (List.map_filter (symbolFeatureOf exampleCollab exampleTextLayer 5)
              astralFeatures) = [Str [55360, 56320]]"
    by (simp add: List.map_filter_def astralFeatures_def symbolFeatureOf_def
        evalText_def evalIcon_def hasText_def hasIcon_def exampleTextLayer_def exampleCollab_def
        Let_def)
  have l1: "{v. \<exists>c\<in>set [55360, 56320]. \<exists>vs. verticalizePunctuation_lookup exampleCollab c
                                                  = Some (v # vs)} = {}"
    by (auto simp: exampleCollab_def)
  from example_glyphs [OF h1 f1 k1] l1
  have B: "glyphDependencies (snd (populate exampleCollab exampleTextLayer 5 astralFeatures
             exampleOptions)) (Arr [[79, 83]]) = Some {55360, 56320}"
    by auto
  have C: "layout exampleViewportLayer ''symbol-placement'' = Str (js_str ''line'')"
    by (simp add: exampleViewportLayer_def exampleTextLayer_def)
  have D: "allowsVerticalWritingMode exampleCollab (Str [65, 40])"
    by (simp add: exampleCollab_def)
  have E: "verticalizePunctuation_lookup exampleCollab 40 = Some [65077]"
    by (simp add: exampleCollab_def)
  have h2: "hasText exampleViewportLayer \<or> hasIcon exampleViewportLayer"
    by (simp add: hasText_def exampleViewportLayer_def exampleTextLayer_def)
  have f2: "layout exampleViewportLayer ''text-font'' = Arr [[79, 83]]"
    by (simp add: exampleViewportLayer_def exampleTextLayer_def)
  have k2: "map symbol_text (List.map_filter (symbolFeatureOf exampleCollab exampleViewportLayer 5)
              exampleFeatures) = [Str [65, 40]]"
    by (simp add: List.map_filter_def exampleFeatures_def exampleFeature_def symbolFeatureOf_def
        evalText_def evalIcon_def hasText_def hasIcon_def exampleViewportLayer_def
        exampleTextLayer_def exampleCollab_def Let_def)
  have n2: "\<not> textAlongLine exampleViewportLayer"
    by (simp add: textAlongLine_def exampleViewportLayer_def js_str_def)
  from example_glyphs [OF h2 f2 k2] n2
  have F: "glyphDependencies (snd (populate exampleCollab exampleViewportLayer 5 exampleFeatures
             exampleOptions)) (Arr [[79, 83]]) = Some {65, 40}"
    by auto
  from A B C D E F show ?thesis by blast
qed

subsection \<open>C6: ranges of the placed symbol entries\<close>

lemma addToLineVertexArray_window:
  assumes "addToLineVertexArray lva anchor pts = Inr (lva', s, l)"
  shows "s = length lva \<and> length lva' = length lva + l"
proof (cases "segment anchor")
  case None
  with assms show ?thesis by (auto simp: addToLineVertexArray_def)
next
  case (Some seg)
  show ?thesis
  proof (cases "seg + 1 < length pts")
    case False
    with Some assms show ?thesis by (simp add: addToLineVertexArray_def)
  next
    case True
    from addToLineVertexArray_eq [OF Some True, of lva] assms show ?thesis by auto
  qed
qed

lemma addSymbol_glyphs:
  "addSymbol num pz sv anchor (arrays, glyphs) q = Inr (arrays', glyphs') \<Longrightarrow>
     glyphs' = glyphs @ [fround num (fst (glyphOffset q))]"
  by (auto simp: addSymbol_def Let_def then_do_Inr_iff split: option.splits)

lemma addSymbols_loop_glyphs:
  "addSymbols_loop num pz sv anchor (arrays, glyphs) quads = Inr (arrays', glyphs') \<Longrightarrow>
     glyphs' = glyphs @ map (\<lambda>q. fround num (fst (glyphOffset q))) quads"
proof (induction quads arbitrary: arrays glyphs)
  case Nil
  then show ?case by simp
next
  case (Cons q quads)
  from Cons.prems obtain a1 g1 where
    1: "addSymbol num pz sv anchor (arrays, glyphs) q = Inr (a1, g1)"
    and 2: "addSymbols_loop num pz sv anchor (a1, g1) quads = Inr (arrays', glyphs')"
    by (auto simp: then_do_Inr_iff)
  from addSymbol_glyphs [OF 1] Cons.IH [OF 2] show ?case by simp
qed

text \<open>The ranges that are read back from an entry are the stored numbers modulo the size of
  their members.\<close>

lemma unat_toUint16: "unat (toUint16 (real n)) = n mod 65536"
  by (simp add: toUint16_def unat_of_nat)

lemma unat_toUint32: "unat (toUint32 (real n)) = n mod 4294967296"
  by (simp add: toUint32_def unat_of_nat)

lemma addSymbols_window:
  assumes "addSymbols num z glyphs arrays quads sv loff al f wm anchor ls ll placed
             = Inr (glyphs', arrays', placed')"
  shows "length glyphs' = length glyphs + length quads
       \<and> (\<exists>e. placed' = placed @ [e]
                \<and> glyph_range e = (length glyphs mod 65536, length quads mod 65536)
                \<and> line_range e = (ls mod 4294967296, ll mod 4294967296))"
proof -
  from assms obtain a1 g1 where
    1: "addSymbols_loop num z sv anchor (arrays, glyphs) quads = Inr (a1, g1)"
    by (auto simp: addSymbols_def Let_def then_do_Inr_iff)
  from addSymbols_loop_glyphs [OF 1]
  have g1: "g1 = glyphs @ map (\<lambda>q. fround num (fst (glyphOffset q))) quads" .
  from assms 1 g1 show ?thesis
    by (auto simp: addSymbols_def Let_def glyph_range_def line_range_def unat_toUint16
          unat_toUint32)
qed

lemma disjoint_or_equal_refl: "disjoint_or_equal r r"
  by (simp add: disjoint_or_equal_def)

lemma disjoint_or_equal_sym: "disjoint_or_equal r1 r2 \<Longrightarrow> disjoint_or_equal r2 r1"
  by (auto simp: disjoint_or_equal_def)

lemma disjoint_below: "fst r + snd r \<le> n \<Longrightarrow> disjoint_or_equal r (n, k)"
  by (auto simp: disjoint_or_equal_def range_set_def)

lemma fresh_window:
  assumes inside: "\<forall>r\<in>S. fst r + snd r \<le> n"
    and pair: "\<forall>r1\<in>S. \<forall>r2\<in>S. disjoint_or_equal r1 r2"
  shows "\<forall>r1\<in>insert (n, k) S. \<forall>r2\<in>insert (n, k) S. disjoint_or_equal r1 r2"
  using assms
  by (auto intro: disjoint_or_equal_refl disjoint_below disjoint_or_equal_sym [OF disjoint_below])

lemma bucket_addSymbols_effect:
  assumes "bucket_addSymbols num this target quads sv loff al f wm anchor ls ll = Inr this'"
  shows "\<exists>e. set (placedGlyphArray this' @ placedIconArray this')
               = insert e (set (placedGlyphArray this @ placedIconArray this))
           \<and> glyph_range e = (length (glyphOffsetArray this) mod 65536, length quads mod 65536)
           \<and> line_range e = (ls mod 4294967296, ll mod 4294967296)
           \<and> length (glyphOffsetArray this') = length (glyphOffsetArray this) + length quads
           \<and> lineVertexArray this' = lineVertexArray this"
proof (cases target)
  case TextTarget
  with assms obtain arrays g a p where
    r: "addSymbols num (zoom this) (glyphOffsetArray this) arrays quads sv loff al f wm anchor
          ls ll (placedGlyphArray this) = Inr (g, a, p)"
    and t: "this' = this \<lparr> glyphOffsetArray := g, textBuffers := Some a, placedGlyphArray := p \<rparr>"
    by (auto simp: bucket_addSymbols_def then_do_Inr_iff split: option.splits)
  from addSymbols_window [OF r] obtain e where
    "length g = length (glyphOffsetArray this) + length quads"
    "p = placedGlyphArray this @ [e]"
    "glyph_range e = (length (glyphOffsetArray this) mod 65536, length quads mod 65536)"
    "line_range e = (ls mod 4294967296, ll mod 4294967296)"
    by blast
  with t show ?thesis by (intro exI [of _ e]) auto
next
  case IconTarget
  with assms obtain arrays g a p where
    r: "addSymbols num (zoom this) (glyphOffsetArray this) arrays quads sv loff al f wm anchor
          ls ll (placedIconArray this) = Inr (g, a, p)"
    and t: "this' = this \<lparr> glyphOffsetArray := g, iconBuffers := Some a, placedIconArray := p \<rparr>"
    by (auto simp: bucket_addSymbols_def then_do_Inr_iff split: option.splits)
  from addSymbols_window [OF r] obtain e where
    "length g = length (glyphOffsetArray this) + length quads"
    "p = placedIconArray this @ [e]"
    "glyph_range e = (length (glyphOffsetArray this) mod 65536, length quads mod 65536)"
    "line_range e = (ls mod 4294967296, ll mod 4294967296)"
    by blast
  with t show ?thesis by (intro exI [of _ e]) auto
qed

lemma bucket_addToLineVertexArray_effect:
  assumes "bucket_addToLineVertexArray this anchor pts = Inr (this', rg)"
  shows "fst rg = length (lineVertexArray this)
       \<and> length (lineVertexArray this') = length (lineVertexArray this) + snd rg
       \<and> placedGlyphArray this' = placedGlyphArray this
       \<and> placedIconArray this' = placedIconArray this
       \<and> glyphOffsetArray this' = glyphOffsetArray this"
proof -
  from assms obtain lva where
    r: "addToLineVertexArray (lineVertexArray this) anchor pts = Inr (lva, fst rg, snd rg)"
    and t: "this' = this \<lparr> lineVertexArray := lva \<rparr>"
    by (auto simp: bucket_addToLineVertexArray_def then_do_Inr_iff)
  from addToLineVertexArray_window [OF r] t show ?thesis by simp
qed

lemma windows_ok_addSymbols:
  assumes ok: "windows_ok (this, ranges)" and prot: "(ls, ll) \<in> set ranges"
    and r: "bucket_addSymbols num this target quads sv loff al f wm anchor ls ll = Inr this'"
    and gb: "length (glyphOffsetArray this') < 65536"
    and lb: "length (lineVertexArray this') < 4294967296"
  shows "windows_ok (this', ranges)"
proof -
  let ?E = "set (placedGlyphArray this @ placedIconArray this)"
  let ?n = "length (glyphOffsetArray this)"
  from bucket_addSymbols_effect [OF r] obtain e where
    E': "set (placedGlyphArray this' @ placedIconArray this') = insert e ?E"
    and ge0: "glyph_range e = (?n mod 65536, length quads mod 65536)"
    and le0: "line_range e = (ls mod 4294967296, ll mod 4294967296)"
    and n': "length (glyphOffsetArray this') = ?n + length quads"
    and lva: "lineVertexArray this' = lineVertexArray this"
    by blast
  from ok have G: "\<forall>x\<in>?E. fst (glyph_range x) + snd (glyph_range x) \<le> ?n"
    and GP: "\<forall>x\<in>?E. \<forall>y\<in>?E. disjoint_or_equal (glyph_range x) (glyph_range y)"
    and L: "\<forall>r\<in>set ranges. fst r + snd r \<le> length (lineVertexArray this)"
    and LP: "\<forall>r1\<in>set ranges. \<forall>r2\<in>set ranges. disjoint_or_equal r1 r2"
    and LE: "\<forall>x\<in>?E. line_range x \<in> set ranges"
    by (simp_all add: windows_ok_def Let_def)
  from gb n' have "?n < 65536" "length quads < 65536" by simp_all
  with ge0 have ge: "glyph_range e = (?n, length quads)" by simp
  from L prot have "ls + ll \<le> length (lineVertexArray this)" by fastforce
  with lb lva have "ls < 4294967296" "ll < 4294967296" by simp_all
  with le0 have le: "line_range e = (ls, ll)" by simp
  have G': "\<forall>x\<in>insert e ?E. fst (glyph_range x) + snd (glyph_range x) \<le> ?n + length quads"
  proof
    fix x assume "x \<in> insert e ?E"
    then consider "x = e" | "x \<in> ?E" by blast
    then show "fst (glyph_range x) + snd (glyph_range x) \<le> ?n + length quads"
    proof cases
      case 1
      with ge show ?thesis by simp
    next
      case 2
      with G have "fst (glyph_range x) + snd (glyph_range x) \<le> ?n" by blast
      then show ?thesis by simp
    qed
  qed
  from G GP have "\<forall>r1\<in>insert (?n, length quads) (glyph_range ` ?E).
                   \<forall>r2\<in>insert (?n, length quads) (glyph_range ` ?E). disjoint_or_equal r1 r2"
    by (intro fresh_window) auto
  then have GP': "\<forall>x\<in>insert e ?E. \<forall>y\<in>insert e ?E.
                    disjoint_or_equal (glyph_range x) (glyph_range y)"
    using ge by (metis imageI insert_iff)
  have LE': "\<forall>x\<in>insert e ?E. line_range x \<in> set ranges"
    using LE le prot by auto
  from G' GP' L LP LE' show ?thesis
    unfolding windows_ok_def Let_def fst_conv snd_conv E' n' lva by blast
qed

lemma windows_ok_addToLineVertexArray:
  assumes ok: "windows_ok (this, ranges)"
    and r: "bucket_addToLineVertexArray this anchor pts = Inr (this', rg)"
  shows "windows_ok (this', ranges @ [rg])"
proof -
  let ?E = "set (placedGlyphArray this @ placedIconArray this)"
  let ?n = "length (lineVertexArray this)"
  from bucket_addToLineVertexArray_effect [OF r] have
    s: "fst rg = ?n" and n': "length (lineVertexArray this') = ?n + snd rg"
    and pg: "placedGlyphArray this' = placedGlyphArray this"
    and pi: "placedIconArray this' = placedIconArray this"
    and g: "glyphOffsetArray this' = glyphOffsetArray this"
    by simp_all
  from s have rg: "rg = (?n, snd rg)" by (cases rg) simp
  from ok have G: "\<forall>x\<in>?E. fst (glyph_range x) + snd (glyph_range x)
                            \<le> length (glyphOffsetArray this)"
    and GP: "\<forall>x\<in>?E. \<forall>y\<in>?E. disjoint_or_equal (glyph_range x) (glyph_range y)"
    and L: "\<forall>r\<in>set ranges. fst r + snd r \<le> ?n"
    and LP: "\<forall>r1\<in>set ranges. \<forall>r2\<in>set ranges. disjoint_or_equal r1 r2"
    and LE: "\<forall>x\<in>?E. line_range x \<in> set ranges"
    by (simp_all add: windows_ok_def Let_def)
  have L': "\<forall>r\<in>insert rg (set ranges). fst r + snd r \<le> ?n + snd rg"
  proof
    fix r assume "r \<in> insert rg (set ranges)"
    then consider "r = rg" | "r \<in> set ranges" by blast
    then show "fst r + snd r \<le> ?n + snd rg"
    proof cases
      case 1
      with s show ?thesis by simp
    next
      case 2
      with L have "fst r + snd r \<le> ?n" by blast
      then show ?thesis by simp
    qed
  qed
  from L LP have "\<forall>r1\<in>insert (?n, snd rg) (set ranges).
                   \<forall>r2\<in>insert (?n, snd rg) (set ranges). disjoint_or_equal r1 r2"
    by (rule fresh_window)
  with rg have LP': "\<forall>r1\<in>insert rg (set ranges). \<forall>r2\<in>insert rg (set ranges).
                          disjoint_or_equal r1 r2" by simp
  have LE': "\<forall>x\<in>?E. line_range x \<in> insert rg (set ranges)" using LE by auto
  from G GP L' LP' LE' show ?thesis
    unfolding windows_ok_def Let_def fst_conv snd_conv pg pi g n' by simp
qed

text \<open>The two shared arrays never shrink.\<close>

lemma run_call_grows:
  assumes "run_call num st c = Inr st'"
  shows "length (glyphOffsetArray (fst st)) \<le> length (glyphOffsetArray (fst st'))
       \<and> length (lineVertexArray (fst st)) \<le> length (lineVertexArray (fst st'))"
proof (cases c)
  case (AddToLineVertexArray anchor pts)
  with assms obtain this' rg where
    r: "bucket_addToLineVertexArray (fst st) anchor pts = Inr (this', rg)"
    and st': "st' = (this', snd st @ [rg])"
    by (auto simp: then_do_Inr_iff)
  from bucket_addToLineVertexArray_effect [OF r] st' show ?thesis by simp
next
  case (AddSymbols target quads sv loff al f wm anchor ls ll)
  with assms obtain this' where
    r: "bucket_addSymbols num (fst st) target quads sv loff al f wm anchor ls ll = Inr this'"
    and st': "st' = (this', snd st)"
    by (auto simp: then_do_Inr_iff)
  from bucket_addSymbols_effect [OF r] st' show ?thesis by auto
qed

lemma run_calls_grows:
  "run_calls num st calls = Inr st' \<Longrightarrow>
     length (glyphOffsetArray (fst st)) \<le> length (glyphOffsetArray (fst st'))
     \<and> length (lineVertexArray (fst st)) \<le> length (lineVertexArray (fst st'))"
proof (induction calls arbitrary: st)
  case Nil
  then show ?case by simp
next
  case (Cons c calls)
  from Cons.prems obtain st1 where
    1: "run_call num st c = Inr st1" and 2: "run_calls num st1 calls = Inr st'"
    by (auto simp: then_do_Inr_iff)
  from run_call_grows [OF 1] Cons.IH [OF 2] show ?case by linarith
qed

lemma windows_ok_run_call:
  assumes "windows_ok st" and "passes_returned_range (snd st) c"
    and "run_call num st c = Inr st'"
    and gb: "length (glyphOffsetArray (fst st')) < 65536"
    and lb: "length (lineVertexArray (fst st')) < 4294967296"
  shows "windows_ok st'"
proof (cases c)
  case (AddToLineVertexArray anchor pts)
  with assms(3) obtain this' rg where
    r: "bucket_addToLineVertexArray (fst st) anchor pts = Inr (this', rg)"
    and st': "st' = (this', snd st @ [rg])"
    by (auto simp: then_do_Inr_iff)
  from assms(1) have "windows_ok (fst st, snd st)" by simp
  from windows_ok_addToLineVertexArray [OF this r] st' show ?thesis by simp
next
  case (AddSymbols target quads sv loff al f wm anchor ls ll)
  with assms(3) obtain this' where
    r: "bucket_addSymbols num (fst st) target quads sv loff al f wm anchor ls ll = Inr this'"
    and st': "st' = (this', snd st)"
    by (auto simp: then_do_Inr_iff)
  from assms(2) AddSymbols have p: "(ls, ll) \<in> set (snd st)" by simp
  from assms(1) have w: "windows_ok (fst st, snd st)" by simp
  from gb lb st' have b: "length (glyphOffsetArray this') < 65536"
    "length (lineVertexArray this') < 4294967296" by simp_all
  from windows_ok_addSymbols [OF w p r b] st' show ?thesis by simp
qed

lemma windows_ok_run_calls:
  "windows_ok st \<Longrightarrow> pass_returned_ranges num st calls \<Longrightarrow> run_calls num st calls = Inr st'
     \<Longrightarrow> length (glyphOffsetArray (fst st')) < 65536
     \<Longrightarrow> length (lineVertexArray (fst st')) < 4294967296
     \<Longrightarrow> windows_ok st'"
proof (induction calls arbitrary: st)
  case Nil
  then show ?case by simp
next
  case (Cons c calls)
  from Cons.prems(3) obtain st1 where
    1: "run_call num st c = Inr st1" and 2: "run_calls num st1 calls = Inr st'"
    by (auto simp: then_do_Inr_iff)
  from Cons.prems(2) 1 have p: "passes_returned_range (snd st) c"
    and ps: "pass_returned_ranges num st1 calls" by simp_all
  from run_calls_grows [OF 2] Cons.prems(4,5)
  have b: "length (glyphOffsetArray (fst st1)) < 65536"
    "length (lineVertexArray (fst st1)) < 4294967296" by simp_all
  from windows_ok_run_call [OF Cons.prems(1) p 1 b] have "windows_ok st1" .
  from Cons.IH [OF this ps 2 Cons.prems(4,5)] show ?case .
qed

lemma windows_ok_createArrays: "windows_ok (createArrays fresh this, [])"
  by (simp add: windows_ok_def createArrays_def)

lemma windows_ok_ranges:
  assumes "windows_ok (this, ranges)"
  shows "ranges_never_overlap_partially this"
proof -
  let ?E = "set (placedGlyphArray this @ placedIconArray this)"
  from assms have GP: "\<forall>x\<in>?E. \<forall>y\<in>?E. disjoint_or_equal (glyph_range x) (glyph_range y)"
    and LP: "\<forall>r1\<in>set ranges. \<forall>r2\<in>set ranges. disjoint_or_equal r1 r2"
    and LE: "\<forall>x\<in>?E. line_range x \<in> set ranges"
    by (simp_all add: windows_ok_def Let_def)
  then show ?thesis unfolding ranges_never_overlap_partially_def Let_def by blast
qed

text \<open>
  C6 (as amended). Start from a bucket whose arrays were just created and run any sequence of
  \<open>addToLineVertexArray\<close> and \<open>addSymbols\<close> calls in which every \<open>addSymbols\<close> is given a line
  range that an earlier \<open>addToLineVertexArray\<close> of the run returned. If the run does not
  throw and leaves fewer than 65536 glyph offsets and fewer than 4294967296 line vertices in
  the shared arrays, any two entries of the two placed symbol arrays have glyph ranges that
  are disjoint or equal, and line ranges that are disjoint or equal, as they are read from
  the entries. Each call takes its window at the end of the shared array: \<open>addSymbols\<close> in the
  glyph offset array, \<open>addToLineVertexArray\<close> in the line vertex array.
\<close>

theorem placed_ranges_never_overlap_partially:
  assumes "pass_returned_ranges num (createArrays fresh this, []) calls"
    and "run_calls num (createArrays fresh this, []) calls = Inr (this', ranges)"
    and "length (glyphOffsetArray this') < 65536"
    and "length (lineVertexArray this') < 4294967296"
  shows "ranges_never_overlap_partially this'"
proof -
  have "windows_ok (this', ranges)"
    using windows_ok_run_calls [OF windows_ok_createArrays assms(1,2)] assms(3,4) by simp
  then show ?thesis by (rule windows_ok_ranges)
qed

text \<open>A call of \<open>addSymbols\<close> on a bucket whose target buffer set has the dynamic layout and
  opacity arrays returns; this is what it leaves.\<close>

lemma bucket_addSymbols_returns:
  assumes "(case target of TextTarget \<Rightarrow> textBuffers this | IconTarget \<Rightarrow> iconBuffers this) = Some a"
    and "dynamicLayoutVertexArray a \<noteq> None" and "opacityVertexArray a \<noteq> None"
  shows "\<exists>this' a' e. bucket_addSymbols num this target quads sv loff al f wm anchor ls ll = Inr this'
          \<and> (case target of TextTarget \<Rightarrow> textBuffers this' | IconTarget \<Rightarrow> iconBuffers this') = Some a'
          \<and> dynamicLayoutVertexArray a' \<noteq> None \<and> opacityVertexArray a' \<noteq> None
          \<and> (case target of
                TextTarget \<Rightarrow> iconBuffers this' = iconBuffers this
                              \<and> placedGlyphArray this' = placedGlyphArray this @ [e]
                              \<and> placedIconArray this' = placedIconArray this
              | IconTarget \<Rightarrow> textBuffers this' = textBuffers this
                              \<and> placedIconArray this' = placedIconArray this @ [e]
                              \<and> placedGlyphArray this' = placedGlyphArray this)
          \<and> glyph_range e = (length (glyphOffsetArray this) mod 65536, length quads mod 65536)
          \<and> line_range e = (ls mod 4294967296, ll mod 4294967296)
          \<and> length (glyphOffsetArray this') = length (glyphOffsetArray this) + length quads
          \<and> lineVertexArray this' = lineVertexArray this"
proof -
  let ?placed = "case target of TextTarget \<Rightarrow> placedGlyphArray this
                 | IconTarget \<Rightarrow> placedIconArray this"
  from addSymbols_loop_returns [OF assms(2,3), of num "zoom this" sv anchor "glyphOffsetArray this"
         quads]
  obtain a1 where
    l: "addSymbols_loop num (zoom this) sv anchor (a, glyphOffsetArray this) quads
          = Inr (a1, glyphOffsetArray this @ map (\<lambda>q. fround num (fst (glyphOffset q))) quads)"
    and d1: "dynamicLayoutVertexArray a1 \<noteq> None" and o1: "opacityVertexArray a1 \<noteq> None"
    by blast
  define a' where "a' = a1 \<lparr> paintArrayCalls := paintArrayCalls a1 @
                               [(length (layoutVertexArray a1), f)] \<rparr>"
  have da: "dynamicLayoutVertexArray a' \<noteq> None" "opacityVertexArray a' \<noteq> None"
    using d1 o1 by (simp_all add: a'_def)
  obtain g p where
    r: "addSymbols num (zoom this) (glyphOffsetArray this) a quads sv loff al f wm anchor ls ll
          ?placed = Inr (g, a', p)"
    by (simp add: addSymbols_def Let_def l a'_def)
  from addSymbols_window [OF r] obtain e where
    lg: "length g = length (glyphOffsetArray this) + length quads"
    and pe: "p = ?placed @ [e]"
    and ge: "glyph_range e = (length (glyphOffsetArray this) mod 65536, length quads mod 65536)"
    and le: "line_range e = (ls mod 4294967296, ll mod 4294967296)"
    by blast
  show ?thesis
  proof (cases target)
    case TextTarget
    with assms(1) r pe have
      "bucket_addSymbols num this target quads sv loff al f wm anchor ls ll
         = Inr (this \<lparr> glyphOffsetArray := g, textBuffers := Some a',
                       placedGlyphArray := placedGlyphArray this @ [e] \<rparr>)"
      by (simp add: bucket_addSymbols_def)
    with TextTarget da ge le lg show ?thesis
      by (intro exI [of _ "this \<lparr> glyphOffsetArray := g, textBuffers := Some a',
                       placedGlyphArray := placedGlyphArray this @ [e] \<rparr>"]
                exI [of _ a'] exI [of _ e]) simp
  next
    case IconTarget
    with assms(1) r pe have
      "bucket_addSymbols num this target quads sv loff al f wm anchor ls ll
         = Inr (this \<lparr> glyphOffsetArray := g, iconBuffers := Some a',
                       placedIconArray := placedIconArray this @ [e] \<rparr>)"
      by (simp add: bucket_addSymbols_def)
    with IconTarget da ge le lg show ?thesis
      by (intro exI [of _ "this \<lparr> glyphOffsetArray := g, iconBuffers := Some a',
                       placedIconArray := placedIconArray this @ [e] \<rparr>"]
                exI [of _ a'] exI [of _ e]) simp
  qed
qed


lemma example_buffer_arrays:
  "dynamicLayoutVertexArray (newSymbolBuffers 0 textInterface :: nat SymbolBuffers) \<noteq> None"
  "opacityVertexArray (newSymbolBuffers 0 textInterface :: nat SymbolBuffers) \<noteq> None"
  "dynamicLayoutVertexArray (newSymbolBuffers 0 iconInterface :: nat SymbolBuffers) \<noteq> None"
  "opacityVertexArray (newSymbolBuffers 0 iconInterface :: nat SymbolBuffers) \<noteq> None"
  by (simp_all add: newSymbolBuffers_def textInterface_def iconInterface_def)

lemma exampleBucket_created:
  "exampleBucket = createArrays 0
     \<lparr> zoom = 5, collisionBoxArray = [], symbolInstances = [],
       textBuffers = None, iconBuffers = None,
       collisionBoxBuffers = None, collisionCircleBuffers = None,
       placedGlyphArray = [], placedIconArray = [],
       glyphOffsetArray = [], lineVertexArray = [] \<rparr>"
  by (simp add: exampleBucket_def)

text \<open>
  The theorem on a run of three calls: a line of three vertices, two text quads and one icon
  quad, both with the line range \<open>(0, 3)\<close> that the first call returned.
\<close>

theorem placed_ranges_never_overlap_partially_witness:
  "pass_returned_ranges exampleNumerics (exampleBucket, []) exampleCalls
   \<and> \<not> isl (run_calls exampleNumerics (exampleBucket, []) exampleCalls)
   \<and> length (glyphOffsetArray
        (fst (projr (run_calls exampleNumerics (exampleBucket, []) exampleCalls)))) = 3
   \<and> length (lineVertexArray
        (fst (projr (run_calls exampleNumerics (exampleBucket, []) exampleCalls)))) = 3
   \<and> ranges_never_overlap_partially
        (fst (projr (run_calls exampleNumerics (exampleBucket, []) exampleCalls)))"
proof -
  let ?text = "AddSymbols TextTarget [exampleQuad, exampleQuad] (Some (1, 2)) (0, 0) True
                 exampleFeature 1 exampleAnchor 0 3"
  let ?icon = "AddSymbols IconTarget [exampleQuad] None (0, 0) False exampleFeature 1
                 exampleAnchor 0 3"
  have seg: "segment exampleAnchor = Some 0" and inside: "0 + 1 < length exampleLine"
    by (simp_all add: exampleAnchor_def exampleLine_def)
  have lva0: "lineVertexArray exampleBucket = []"
    and g0: "glyphOffsetArray exampleBucket = []"
    and tb0: "textBuffers exampleBucket = Some (newSymbolBuffers 0 textInterface)"
    and ib0: "iconBuffers exampleBucket = Some (newSymbolBuffers 0 iconInterface)"
    by (simp_all add: exampleBucket_def createArrays_def)
  obtain b1 where
    c1: "bucket_addToLineVertexArray exampleBucket exampleAnchor exampleLine = Inr (b1, 0, 3)"
    and tb1: "textBuffers b1 = Some (newSymbolBuffers 0 textInterface)"
    and ib1: "iconBuffers b1 = Some (newSymbolBuffers 0 iconInterface)"
    and g1: "glyphOffsetArray b1 = []"
    and l1: "length (lineVertexArray b1) = 3"
    using addToLineVertexArray_eq [OF seg inside, of "[]"] tb0 ib0 g0
    by (simp add: bucket_addToLineVertexArray_def lva0 exampleLine_def)
  from bucket_addSymbols_returns [where target = TextTarget and this = b1
         and a = "newSymbolBuffers 0 textInterface" and num = exampleNumerics
         and quads = "[exampleQuad, exampleQuad]" and sv = "Some (1, 2)" and loff = "(0, 0)"
         and al = True and f = exampleFeature and wm = 1 and anchor = exampleAnchor
         and ls = 0 and ll = 3]
  obtain b2 where
    c2: "bucket_addSymbols exampleNumerics b1 TextTarget [exampleQuad, exampleQuad] (Some (1, 2))
           (0, 0) True exampleFeature 1 exampleAnchor 0 3 = Inr b2"
    and ib2: "iconBuffers b2 = iconBuffers b1"
    and g2: "length (glyphOffsetArray b2)
               = length (glyphOffsetArray b1) + length [exampleQuad, exampleQuad]"
    and l2: "lineVertexArray b2 = lineVertexArray b1"
    by (auto simp: tb1 example_buffer_arrays)
  from bucket_addSymbols_returns [where target = IconTarget and this = b2
         and a = "newSymbolBuffers 0 iconInterface" and num = exampleNumerics
         and quads = "[exampleQuad]" and sv = None and loff = "(0, 0)"
         and al = False and f = exampleFeature and wm = 1 and anchor = exampleAnchor
         and ls = 0 and ll = 3]
  obtain b3 where
    c3: "bucket_addSymbols exampleNumerics b2 IconTarget [exampleQuad] None (0, 0)
           False exampleFeature 1 exampleAnchor 0 3 = Inr b3"
    and g3: "length (glyphOffsetArray b3) = length (glyphOffsetArray b2) + length [exampleQuad]"
    and l3: "lineVertexArray b3 = lineVertexArray b2"
    by (auto simp: ib2 ib1 example_buffer_arrays)
  have r1: "run_call exampleNumerics (exampleBucket, []) (AddToLineVertexArray exampleAnchor exampleLine)
              = Inr (b1, [(0, 3)])"
    using c1 by simp
  have r2: "run_call exampleNumerics (b1, [(0, 3)]) ?text = Inr (b2, [(0, 3)])"
    using c2 by simp
  have r3: "run_call exampleNumerics (b2, [(0, 3)]) ?icon = Inr (b3, [(0, 3)])"
    using c3 by simp
  have run: "run_calls exampleNumerics (exampleBucket, []) exampleCalls = Inr (b3, [(0, 3)])"
    unfolding exampleCalls_def by (simp only: run_calls.simps r1 r2 r3 then_do_Inr)
  have pass: "pass_returned_ranges exampleNumerics (exampleBucket, []) exampleCalls"
    unfolding exampleCalls_def by (simp add: r1 r2 r3 del: One_nat_def run_call.simps)
  have gl: "length (glyphOffsetArray b3) = 3" by (simp add: g3 g2 g1)
  have ll: "length (lineVertexArray b3) = 3" by (simp add: l3 l2 l1)
  have gb: "length (glyphOffsetArray b3) < 65536" by (simp add: gl)
  have lb: "length (lineVertexArray b3) < 4294967296" by (simp add: ll)
  from placed_ranges_never_overlap_partially
         [OF pass [unfolded exampleBucket_created] run [unfolded exampleBucket_created] gb lb]
  have "ranges_never_overlap_partially b3" .
  with pass run gl ll show ?thesis by simp
qed

text \<open>
  C6 as stated fails on a run that passes only returned line ranges, once the glyph offset
  array has 65536 entries: the entry of the third label is appended when the array holds
  65537 glyph offsets, and its glyph range is read back as \<open>(1, 3)\<close>, which shares the indices
  1 and 2 with the range \<open>(0, 3)\<close> of the first label and is not equal to it.
\<close>

theorem wrapped_glyph_ranges_counterexample:
  "pass_returned_ranges exampleNumerics (exampleBucket, []) wrappingCalls
   \<and> \<not> isl (run_calls exampleNumerics (exampleBucket, []) wrappingCalls)
   \<and> map glyph_range (placedGlyphArray
         (fst (projr (run_calls exampleNumerics (exampleBucket, []) wrappingCalls))))
       = [(0, 3), (3, 65534), (1, 3)]
   \<and> \<not> ranges_never_overlap_partially
          (fst (projr (run_calls exampleNumerics (exampleBucket, []) wrappingCalls)))"
proof -
  let ?call = "\<lambda>n. AddSymbols TextTarget (replicate n exampleQuad) None (0, 0) False
                      exampleFeature 1 examplePointAnchor 0 0"
  have g0: "glyphOffsetArray exampleBucket = []"
    and p0: "placedGlyphArray exampleBucket = []"
    and tb0: "textBuffers exampleBucket = Some (newSymbolBuffers 0 textInterface)"
    by (simp_all add: exampleBucket_def createArrays_def)
  obtain b1 where
    c1: "bucket_addToLineVertexArray exampleBucket examplePointAnchor exampleLine = Inr (b1, 0, 0)"
    and tb1: "textBuffers b1 = Some (newSymbolBuffers 0 textInterface)"
    and g1: "glyphOffsetArray b1 = []"
    and p1: "placedGlyphArray b1 = []"
    using tb0 g0 p0
    by (simp add: bucket_addToLineVertexArray_def addToLineVertexArray_def examplePointAnchor_def
          exampleBucket_def createArrays_def)
  from bucket_addSymbols_returns [where target = TextTarget and this = b1
         and a = "newSymbolBuffers 0 textInterface" and num = exampleNumerics
         and quads = "replicate 3 exampleQuad" and sv = None and loff = "(0, 0)"
         and al = False and f = exampleFeature and wm = 1 and anchor = examplePointAnchor
         and ls = 0 and ll = 0]
  obtain b2 a2 e1 where
    c2: "bucket_addSymbols exampleNumerics b1 TextTarget (replicate 3 exampleQuad) None
           (0, 0) False exampleFeature 1 examplePointAnchor 0 0 = Inr b2"
    and tb2: "textBuffers b2 = Some a2"
    and d2: "dynamicLayoutVertexArray a2 \<noteq> None" "opacityVertexArray a2 \<noteq> None"
    and p2: "placedGlyphArray b2 = [e1]"
    and r2: "glyph_range e1 = (0, 3)"
    and g2: "length (glyphOffsetArray b2) = 3"
    by (auto simp: tb1 g1 p1 example_buffer_arrays)
  from bucket_addSymbols_returns [where target = TextTarget and this = b2
         and a = a2 and num = exampleNumerics
         and quads = "replicate 65534 exampleQuad" and sv = None and loff = "(0, 0)"
         and al = False and f = exampleFeature and wm = 1 and anchor = examplePointAnchor
         and ls = 0 and ll = 0]
  obtain b3 a3 e2 where
    c3: "bucket_addSymbols exampleNumerics b2 TextTarget (replicate 65534 exampleQuad) None
           (0, 0) False exampleFeature 1 examplePointAnchor 0 0 = Inr b3"
    and tb3: "textBuffers b3 = Some a3"
    and d3: "dynamicLayoutVertexArray a3 \<noteq> None" "opacityVertexArray a3 \<noteq> None"
    and p3: "placedGlyphArray b3 = [e1, e2]"
    and r3: "glyph_range e2 = (3, 65534)"
    and g3: "length (glyphOffsetArray b3) = 65537"
    by (auto simp: tb2 d2 g2 p2)
  from bucket_addSymbols_returns [where target = TextTarget and this = b3
         and a = a3 and num = exampleNumerics
         and quads = "replicate 3 exampleQuad" and sv = None and loff = "(0, 0)"
         and al = False and f = exampleFeature and wm = 1 and anchor = examplePointAnchor
         and ls = 0 and ll = 0]
  obtain b4 e3 where
    c4: "bucket_addSymbols exampleNumerics b3 TextTarget (replicate 3 exampleQuad) None
           (0, 0) False exampleFeature 1 examplePointAnchor 0 0 = Inr b4"
    and p4: "placedGlyphArray b4 = [e1, e2, e3]"
    and r4: "glyph_range e3 = (1, 3)"
    by (auto simp: tb3 d3 g3 p3)
  have s1: "run_call exampleNumerics (exampleBucket, [])
              (AddToLineVertexArray examplePointAnchor exampleLine) = Inr (b1, [(0, 0)])"
    using c1 by simp
  have s2: "run_call exampleNumerics (b1, [(0, 0)]) (?call 3) = Inr (b2, [(0, 0)])"
    using c2 by simp
  have s3: "run_call exampleNumerics (b2, [(0, 0)]) (?call 65534) = Inr (b3, [(0, 0)])"
    using c3 by simp
  have s4: "run_call exampleNumerics (b3, [(0, 0)]) (?call 3) = Inr (b4, [(0, 0)])"
    using c4 by simp
  have run: "run_calls exampleNumerics (exampleBucket, []) wrappingCalls = Inr (b4, [(0, 0)])"
    unfolding wrappingCalls_def by (simp only: run_calls.simps s1 s2 s3 s4 then_do_Inr)
  have pass: "pass_returned_ranges exampleNumerics (exampleBucket, []) wrappingCalls"
    unfolding wrappingCalls_def by (simp add: s1 s2 s3 s4 del: One_nat_def run_call.simps)
  have rs: "map glyph_range (placedGlyphArray b4) = [(0, 3), (3, 65534), (1, 3)]"
    by (simp add: p4 r2 r3 r4)
  have ov: "\<not> disjoint_or_equal (glyph_range e1) (glyph_range e3)"
  proof -
    have "1 \<in> range_set (0, 3) \<inter> range_set (1, 3)" by (simp add: range_set_def)
    then show ?thesis unfolding r2 r4 disjoint_or_equal_def by auto
  qed
  have "\<not> ranges_never_overlap_partially b4"
  proof
    assume "ranges_never_overlap_partially b4"
    then have "disjoint_or_equal (glyph_range e1) (glyph_range e3)"
      unfolding ranges_never_overlap_partially_def Let_def by (simp add: p4)
    with ov show False by simp
  qed
  with pass run rs show ?thesis by simp
qed

end
